(* ===== verification/Prelude.thy ===== *)
theory Prelude
  imports Main "HOL-Library.Word"
begin

text \<open>
  Shared vocabulary of the development: what the Rust sources use of the language and of its
  standard library. A fallible function returns a value of \<open>result\<close>: \<open>Ok\<close>, \<open>Err\<close>, or \<open>Panic\<close>
  for \<^verbatim>\<open>panic!\<close>, \<^verbatim>\<open>unreachable!\<close>, a failed assertion, an arithmetic overflow of a checked
  build or an index out of range. A method on \<^verbatim>\<open>&mut self\<close> returns its result together with the
  state it leaves behind, so that what an early return leaves half-done is visible.
  \<open>bind_res\<close>, \<open>try_st\<close> and \<open>bind_st\<close> are the three readings of the \<^verbatim>\<open>?\<close> operator.
  The flag \<open>dbg\<close> stands for \<^verbatim>\<open>cfg(debug_assertions)\<close>, which switches both \<^verbatim>\<open>debug_assert!\<close> and
  overflow checks on; a release build wraps around instead.
\<close>

section \<open>Machine types\<close>

type_synonym u8 = "8 word"
type_synonym u16 = "16 word"
type_synonym u32 = "32 word"
type_synonym u64 = "64 word"
type_synonym usize = "64 word"
type_synonym bytes = "u8 list"
type_synonym instant = nat

named_theorems rust_simps \<open>inversion of the error-passing combinators\<close>
named_theorems build_simps \<open>facts that relate a debug and a release build\<close>

section \<open>Results, panics and state\<close>

datatype ('e, 'a) result = Ok 'a | Err 'e | Panic

fun bind_res :: "('e, 'a) result \<Rightarrow> ('a \<Rightarrow> ('e, 'b) result) \<Rightarrow> ('e, 'b) result" where
  "bind_res (Ok x) k = k x"
| "bind_res (Err e) k = Err e"
| "bind_res Panic k = Panic"

fun try_st :: "('e, 'a) result \<Rightarrow> 's \<Rightarrow> ('a \<Rightarrow> ('e, 'b) result \<times> 's) \<Rightarrow> ('e, 'b) result \<times> 's" where
  "try_st (Ok x) s k = k x"
| "try_st (Err e) s k = (Err e, s)"
| "try_st Panic s k = (Panic, s)"

definition bind_st ::
  "('e, 'a) result \<times> 's \<Rightarrow> ('a \<Rightarrow> 's \<Rightarrow> ('e, 'b) result \<times> 't) \<Rightarrow> ('s \<Rightarrow> 't) \<Rightarrow> ('e, 'b) result \<times> 't" where
  "bind_st rs k put =
     (case rs of (Ok x, s) \<Rightarrow> k x s | (Err e, s) \<Rightarrow> (Err e, put s) | (Panic, s) \<Rightarrow> (Panic, put s))"

text \<open>\<^verbatim>\<open>_ = f()\<close> drops an error, but not a panic.\<close>

definition ignore_err :: "('e, unit) result \<times> 's \<Rightarrow> ('e, unit) result \<times> 's" where
  "ignore_err rs = (case rs of (Err e, s) \<Rightarrow> (Ok (), s) | _ \<Rightarrow> rs)"

fun map_err :: "('e \<Rightarrow> 'f) \<Rightarrow> ('e, 'a) result \<Rightarrow> ('f, 'a) result" where
  "map_err f (Ok x) = Ok x"
| "map_err f (Err e) = Err (f e)"
| "map_err f Panic = Panic"

definition ok_or :: "'a option \<Rightarrow> 'e \<Rightarrow> ('e, 'a) result" where
  "ok_or x e = (case x of None \<Rightarrow> Err e | Some y \<Rightarrow> Ok y)"

definition debug_assert :: "bool \<Rightarrow> bool \<Rightarrow> ('e, unit) result" where
  "debug_assert dbg P = (if dbg \<and> \<not> P then Panic else Ok ())"

definition assert_that :: "bool \<Rightarrow> ('e, unit) result" where
  "assert_that P = (if P then Ok () else Panic)"

fun is_ok :: "('e, 'a) result \<Rightarrow> bool" where
  "is_ok (Ok x) = True"
| "is_ok (Err e) = False"
| "is_ok Panic = False"

lemma bind_st_simps [simp]:
  "bind_st (Ok x, s) k put = k x s"
  "bind_st (Err e, s) k put = (Err e, put s)"
  "bind_st (Panic, s) k put = (Panic, put s)"
  by (simp_all add: bind_st_def)

lemma bind_res_Ok [rust_simps]: "bind_res r k = Ok y \<longleftrightarrow> (\<exists>x. r = Ok x \<and> k x = Ok y)"
  by (cases r) auto

lemma bind_res_Err [rust_simps]:
  "bind_res r k = Err e \<longleftrightarrow> r = Err e \<or> (\<exists>x. r = Ok x \<and> k x = Err e)"
  by (cases r) auto

lemma bind_res_Panic [rust_simps]:
  "bind_res r k = Panic \<longleftrightarrow> r = Panic \<or> (\<exists>x. r = Ok x \<and> k x = Panic)"
  by (cases r) auto

lemma try_st_Ok [rust_simps]: "try_st r s k = (Ok y, t) \<longleftrightarrow> (\<exists>x. r = Ok x \<and> k x = (Ok y, t))"
  by (cases r) auto

lemma try_st_Err [rust_simps]:
  "try_st r s k = (Err e, t) \<longleftrightarrow> r = Err e \<and> t = s \<or> (\<exists>x. r = Ok x \<and> k x = (Err e, t))"
  by (cases r) auto

lemma try_st_Panic [rust_simps]:
  "try_st r s k = (Panic, t) \<longleftrightarrow> r = Panic \<and> t = s \<or> (\<exists>x. r = Ok x \<and> k x = (Panic, t))"
  by (cases r) auto

lemma bind_st_Ok [rust_simps]:
  "bind_st rs k put = (Ok y, t) \<longleftrightarrow> (\<exists>x s. rs = (Ok x, s) \<and> k x s = (Ok y, t))"
  by (cases rs; cases "fst rs") auto

lemma bind_st_Err [rust_simps]:
  "bind_st rs k put = (Err e, t) \<longleftrightarrow>
     (\<exists>s. rs = (Err e, s) \<and> t = put s) \<or> (\<exists>x s. rs = (Ok x, s) \<and> k x s = (Err e, t))"
  by (cases rs; cases "fst rs") auto

lemma bind_st_Panic [rust_simps]:
  "bind_st rs k put = (Panic, t) \<longleftrightarrow>
     (\<exists>s. rs = (Panic, s) \<and> t = put s) \<or> (\<exists>x s. rs = (Ok x, s) \<and> k x s = (Panic, t))"
  by (cases rs; cases "fst rs") auto

lemma ignore_err_Ok [rust_simps]:
  "ignore_err rs = (Ok u, s) \<longleftrightarrow> (\<exists>r. rs = (r, s) \<and> r \<noteq> Panic)"
  by (auto simp: ignore_err_def split: prod.splits result.splits)

lemma ignore_err_Panic [rust_simps]: "ignore_err rs = (Panic, s) \<longleftrightarrow> rs = (Panic, s)"
  by (auto simp: ignore_err_def split: prod.splits result.splits)

lemma ignore_err_not_Err [simp]: "ignore_err rs \<noteq> (Err e, s)"
  by (auto simp: ignore_err_def split: prod.splits result.splits)

lemma map_err_Ok [simp]: "map_err f r = Ok x \<longleftrightarrow> r = Ok x"
  by (cases r) auto

lemma map_err_Panic [simp]: "map_err f r = Panic \<longleftrightarrow> r = Panic"
  by (cases r) auto

lemma ok_or_simps [simp]: "ok_or (Some x) e = Ok x" "ok_or None e = Err e"
  by (simp_all add: ok_or_def)

lemma ok_or_Ok [rust_simps]: "ok_or x e = Ok y \<longleftrightarrow> x = Some y"
  by (cases x) auto

lemma ok_or_Err [rust_simps]: "ok_or x e = Err f \<longleftrightarrow> x = None \<and> f = e"
  by (cases x) auto

lemma ok_or_not_Panic [simp]: "ok_or x e \<noteq> Panic"
  by (cases x) auto

lemma debug_assert_Ok [rust_simps]: "debug_assert dbg P = Ok u \<longleftrightarrow> (dbg \<longrightarrow> P)"
  by (auto simp: debug_assert_def)

lemma debug_assert_Panic [rust_simps]: "debug_assert dbg P = Panic \<longleftrightarrow> dbg \<and> \<not> P"
  by (auto simp: debug_assert_def)

lemma debug_assert_not_Err [simp]: "debug_assert dbg P \<noteq> Err e"
  by (auto simp: debug_assert_def)

lemma debug_assert_release [simp]: "debug_assert False P = Ok ()"
  by (simp add: debug_assert_def)

lemma debug_assert_True [simp]: "debug_assert dbg True = Ok ()"
  by (simp add: debug_assert_def)

lemma assert_that_Ok [rust_simps]: "assert_that P = Ok u \<longleftrightarrow> P"
  by (auto simp: assert_that_def)

lemma assert_that_not_Err [simp]: "assert_that P \<noteq> Err e"
  by (auto simp: assert_that_def)

lemma is_ok_iff [simp]: "is_ok r \<longleftrightarrow> (\<exists>x. r = Ok x)"
  by (cases r) auto

section \<open>A debug run that does not panic is the release run\<close>

text \<open>
  \<open>agrees r q\<close>: if the checked build's result \<open>r\<close> is not a panic, the unchecked build's is the same.
\<close>

definition agrees :: "('e, 'a) result \<Rightarrow> ('e, 'a) result \<Rightarrow> bool" where
  "agrees r q \<longleftrightarrow> r \<noteq> Panic \<longrightarrow> q = r"

definition agrees_st :: "('e, 'a) result \<times> 's \<Rightarrow> ('e, 'a) result \<times> 's \<Rightarrow> bool" where
  "agrees_st r q \<longleftrightarrow> fst r \<noteq> Panic \<longrightarrow> q = r"

lemma agrees_refl [build_simps]: "agrees r r" "agrees_st p p"
  by (simp_all add: agrees_def agrees_st_def)

lemma agrees_bind [build_simps]:
  assumes "agrees r q" and "\<And>x. r = Ok x \<Longrightarrow> agrees (k x) (l x)"
  shows "agrees (bind_res r k) (bind_res q l)"
  using assms by (cases r) (auto simp: agrees_def)

lemma agrees_try [build_simps]:
  assumes "agrees r q" and "\<And>x. r = Ok x \<Longrightarrow> agrees_st (k x) (l x)"
  shows "agrees_st (try_st r s k) (try_st q s l)"
  using assms by (cases r) (auto simp: agrees_def agrees_st_def)

lemma agrees_bind_st [build_simps]:
  assumes "agrees_st r q" and "\<And>x s. r = (Ok x, s) \<Longrightarrow> agrees_st (k x s) (l x s)"
  shows "agrees_st (bind_st r k put) (bind_st q l put)"
  using assms by (cases r; cases "fst r") (auto simp: agrees_st_def)

lemma agrees_ignore [build_simps]: "agrees_st r q \<Longrightarrow> agrees_st (ignore_err r) (ignore_err q)"
  by (auto simp: agrees_st_def ignore_err_def split: prod.splits result.splits)

lemma agrees_assert [build_simps]: "agrees (debug_assert True P) (debug_assert False P)"
  by (simp add: agrees_def debug_assert_def)

lemma agrees_try_assert [build_simps]:
  assumes "P \<Longrightarrow> agrees_st (k ()) q"
  shows "agrees_st (try_st (debug_assert True P) s k) q"
  using assms by (cases P) (auto simp: agrees_st_def debug_assert_def)

lemma agrees_bind_assert [build_simps]:
  assumes "P \<Longrightarrow> agrees (k ()) q"
  shows "agrees (bind_res (debug_assert True P) k) q"
  using assms by (cases P) (auto simp: agrees_def debug_assert_def)

section \<open>Integer arithmetic of the two builds\<close>

definition add_w :: "bool \<Rightarrow> ('w::len) word \<Rightarrow> 'w word \<Rightarrow> ('e, 'w word) result" where
  "add_w dbg x y = (if unat x + unat y < 2 ^ LENGTH('w) \<or> \<not> dbg then Ok (x + y) else Panic)"

definition sub_w :: "bool \<Rightarrow> ('w::len) word \<Rightarrow> 'w word \<Rightarrow> ('e, 'w word) result" where
  "sub_w dbg x y = (if y \<le> x \<or> \<not> dbg then Ok (x - y) else Panic)"

definition shr_w :: "bool \<Rightarrow> ('w::len) word \<Rightarrow> u32 \<Rightarrow> ('e, 'w word) result" where
  "shr_w dbg x n =
     (if unat n < LENGTH('w) then Ok (drop_bit (unat n) x)
      else if dbg then Panic else Ok (drop_bit (unat n mod LENGTH('w)) x))"

definition checked_sub :: "('w::len) word \<Rightarrow> 'w word \<Rightarrow> 'w word option" where
  "checked_sub x y = (if y \<le> x then Some (x - y) else None)"

definition saturating_sub :: "('w::len) word \<Rightarrow> 'w word \<Rightarrow> 'w word" where
  "saturating_sub x y = (if y \<le> x then x - y else 0)"

definition len :: "'a list \<Rightarrow> usize" where
  "len xs = of_nat (length xs)"

lemma agrees_arith [build_simps]:
  "agrees (add_w True x y) (add_w False x y)"
  "agrees (sub_w True x y) (sub_w False x y)"
  "agrees (shr_w True z n) (shr_w False z n)"
  by (simp_all add: agrees_def add_w_def sub_w_def shr_w_def)

lemma arith_not_Err [simp]:
  "add_w dbg x y \<noteq> Err e" "sub_w dbg x y \<noteq> Err e" "shr_w dbg z n \<noteq> Err e"
  by (simp_all add: add_w_def sub_w_def shr_w_def)

lemma sub_w_Ok [rust_simps]: "sub_w b x y = Ok z \<longleftrightarrow> (b \<longrightarrow> y \<le> x) \<and> z = x - y"
  by (auto simp: sub_w_def)

lemma one_le_word: "(1 :: ('w::len) word) \<le> x \<longleftrightarrow> x \<noteq> 0"
  by (simp add: word_le_nat_alt Suc_le_eq unat_gt_0)

lemma checked_sub_one [rust_simps]: "checked_sub x 1 = Some y \<longleftrightarrow> x \<noteq> 0 \<and> y = x - 1"
  by (auto simp: checked_sub_def one_le_word)

lemma checked_sub_one_None [rust_simps]: "checked_sub x 1 = None \<longleftrightarrow> x = 0"
  by (auto simp: checked_sub_def one_le_word)

lemma saturating_sub_unat: "unat (saturating_sub x y) = unat x - unat y"
  by (auto simp: saturating_sub_def unat_sub word_le_nat_alt)

lemma unat_plus_one: "x \<noteq> - 1 \<Longrightarrow> unat (x + 1 :: ('w::len) word) = Suc (unat x)"
  using unatSuc [of x] by (simp add: add.commute add_eq_0_iff)

lemma add_one_Ok: "add_w b x 1 = Ok y \<Longrightarrow> b \<or> x \<noteq> - 1 \<Longrightarrow> unat y = Suc (unat x)"
  for x :: "('w::len) word"
proof (cases "x = - 1")
  case True
  then have "unat x + unat (1 :: 'w word) = 2 ^ LENGTH('w)"
    by (simp add: unsigned_minus_1_eq_mask mask_eq_exp_minus_1)
  then show "add_w b x 1 = Ok y \<Longrightarrow> b \<or> x \<noteq> - 1 \<Longrightarrow> unat y = Suc (unat x)"
    using True by (simp add: add_w_def)
qed (auto simp: add_w_def unat_plus_one split: if_splits)

subsection \<open>Counting leading zeros\<close>

fun bit_len :: "nat \<Rightarrow> nat" where
  "bit_len n = (if n = 0 then 0 else Suc (bit_len (n div 2)))"

declare bit_len.simps [simp del]

definition leading_zeros :: "u64 \<Rightarrow> u32" where
  "leading_zeros w = of_nat (64 - bit_len (unat w))"

lemma bit_len_le_iff: "bit_len n \<le> k \<longleftrightarrow> n < 2 ^ k"
proof (induction k arbitrary: n)
  case 0
  then show ?case by (simp add: bit_len.simps [of n])
next
  case (Suc k)
  have "n div 2 < 2 ^ k \<longleftrightarrow> n < 2 ^ Suc k"
    by auto
  with Suc.IH [of "n div 2"] show ?case
    by (simp add: bit_len.simps [of n])
qed

lemma bit_len_mono: "m \<le> n \<Longrightarrow> bit_len m \<le> bit_len n"
  by (metis bit_len_le_iff le_less_trans order_refl)

lemma less_two_pow_bit_len: "n < 2 ^ bit_len n"
  by (simp flip: bit_len_le_iff)

lemma bit_len_u64: "bit_len (unat (w :: u64)) \<le> 64"
  using unsigned_less [of w] by (simp add: bit_len_le_iff)

lemma unat_leading_zeros: "unat (leading_zeros w) = 64 - bit_len (unat w)"
  by (simp add: leading_zeros_def unat_of_nat)

section \<open>Arithmetic that does not overflow\<close>

lemma add_w_fits: "unat a + unat b < 2 ^ LENGTH('w) \<Longrightarrow> add_w d a b = Ok (a + b)" for a b :: "'w::len word"
  by (simp add: add_w_def)

lemma sub_w_fits: "unat b \<le> unat a \<Longrightarrow> sub_w d a b = Ok (a - b)" for a b :: "'w::len word"
  by (simp add: sub_w_def word_le_nat_alt)

lemma unat_add_fits: "unat a + unat b < 2 ^ LENGTH('w) \<Longrightarrow> unat (a + b) = unat a + unat b" for a b :: "'w::len word"
  by (simp add: unat_word_ariths)

lemma unat_sub_fits: "unat b \<le> unat a \<Longrightarrow> unat (a - b) = unat a - unat b" for a b :: "'w::len word"
  by (simp add: unat_sub word_le_nat_alt)

section \<open>Ranges and slices\<close>

record 'w range =
  range_start :: 'w
  range_end :: 'w

definition range_is_empty :: "('w::ord) range \<Rightarrow> bool" where
  "range_is_empty r \<longleftrightarrow> \<not> range_start r < range_end r"

definition range_contains :: "('w::ord) range \<Rightarrow> 'w \<Rightarrow> bool" where
  "range_contains r x \<longleftrightarrow> range_start r \<le> x \<and> x < range_end r"

definition range_len :: "('w::{ord,minus,zero}) range \<Rightarrow> 'w" where
  "range_len r = (if range_start r < range_end r then range_end r - range_start r else 0)"

definition mk_range :: "'w \<Rightarrow> 'w \<Rightarrow> 'w range" where
  "mk_range a b = \<lparr>range_start = a, range_end = b\<rparr>"

lemma mk_range_sel [simp]: "range_start (mk_range a b) = a" "range_end (mk_range a b) = b"
  by (simp_all add: mk_range_def)

lemma range_upd [simp]:
  "r\<lparr>range_start := a\<rparr> = mk_range a (range_end r)"
  "r\<lparr>range_end := b\<rparr> = mk_range (range_start r) b"
  by (cases r; simp add: mk_range_def)+

lemma mk_range_eq [simp]: "mk_range a b = mk_range c d \<longleftrightarrow> a = c \<and> b = d"
  by (simp add: mk_range_def)

lemma mk_range_id [simp]: "mk_range (range_start r) (range_end r) = r"
  by (simp add: mk_range_def)

text \<open>\<^verbatim>\<open>split_at\<close> and \<^verbatim>\<open>&xs[a..b]\<close> panic out of range.\<close>

definition split_at :: "'a list \<Rightarrow> usize \<Rightarrow> ('e, 'a list \<times> 'a list) result" where
  "split_at xs n = (if unat n \<le> length xs then Ok (take (unat n) xs, drop (unat n) xs) else Panic)"

definition slice :: "'a list \<Rightarrow> usize range \<Rightarrow> ('e, 'a list) result" where
  "slice xs r =
     (if range_start r \<le> range_end r \<and> unat (range_end r) \<le> length xs
      then Ok (drop (unat (range_start r)) (take (unat (range_end r)) xs)) else Panic)"

lemma split_at_Ok [rust_simps]:
  "split_at xs n = Ok p \<longleftrightarrow> unat n \<le> length xs \<and> p = (take (unat n) xs, drop (unat n) xs)"
  by (auto simp: split_at_def)

lemma slice_Ok [rust_simps]:
  "slice xs r = Ok ys \<longleftrightarrow> range_start r \<le> range_end r \<and> unat (range_end r) \<le> length xs \<and>
     ys = drop (unat (range_start r)) (take (unat (range_end r)) xs)"
  by (auto simp: slice_def)

lemma slice_split_not_Err [simp]: "split_at xs n \<noteq> Err e" "slice xs r \<noteq> Err e"
  by (simp_all add: split_at_def slice_def)

section \<open>Options\<close>

definition filter_option :: "('a \<Rightarrow> bool) \<Rightarrow> 'a option \<Rightarrow> 'a option" where
  "filter_option P x = (case x of None \<Rightarrow> None | Some y \<Rightarrow> if P y then Some y else None)"

fun xor_option :: "'a option \<Rightarrow> 'a option \<Rightarrow> 'a option" where
  "xor_option (Some x) None = Some x"
| "xor_option None (Some y) = Some y"
| "xor_option _ _ = None"

lemma xor_option_Some:
  "xor_option a b = Some z \<longleftrightarrow> a = Some z \<and> b = None \<or> a = None \<and> b = Some z"
  by (cases a; cases b) auto

lemma filter_option_simps [simp]:
  "filter_option P None = None"
  "filter_option P (Some x) = (if P x then Some x else None)"
  by (simp_all add: filter_option_def)

lemma filter_option_Some [simp]: "filter_option P x = Some y \<longleftrightarrow> x = Some y \<and> P y"
  by (cases x) auto

section \<open>References\<close>

text \<open>
  What a holder of a mutable reference relies on: writing through it changes what it refers to and
  nothing else.
\<close>

locale store =
  fixes get :: "'p \<Rightarrow> 's \<Rightarrow> 'v option"
    and put :: "'p \<Rightarrow> 'v \<Rightarrow> 's \<Rightarrow> 's"
  assumes get_put: "get p s = Some u \<Longrightarrow> get p (put p v s) = Some v"
    and get_put_other: "p \<noteq> q \<Longrightarrow> get q (put p v s) = get q s"
begin

lemma get_put_all: "get p s = Some u \<Longrightarrow> get q (put p v s) = (if q = p then Some v else get q s)"
  by (simp add: get_put get_put_other)

lemma put_keeps_all:
  assumes "\<forall>q x. get q s = Some x \<longrightarrow> P q x" and "get p s = Some u" and "P p v"
  shows "\<forall>q x. get q (put p v s) = Some x \<longrightarrow> P q x"
  using assms by (auto simp: get_put_all)

end

section \<open>Invariants of a component's operations\<close>

text \<open>
  A component whose operations take one state to the next: an invariant that holds at the start
  and is kept by every step holds after any sequence of operations.
\<close>

locale machine =
  fixes step :: "'s \<Rightarrow> 's \<Rightarrow> bool"
    and inv :: "'s \<Rightarrow> bool"
  assumes step_inv: "step s t \<Longrightarrow> inv s \<Longrightarrow> inv t"
begin

lemma steps_inv: "step\<^sup>*\<^sup>* s t \<Longrightarrow> inv s \<Longrightarrow> inv t"
  by (induction rule: rtranclp_induct) (auto intro: step_inv)

end

text \<open>
  A machine whose states have an abstraction: when every step from a good state is matched by steps
  of the abstract machine, every run is matched by a run.
\<close>

locale refines = machine step inv
  for step :: "'s \<Rightarrow> 's \<Rightarrow> bool" and inv :: "'s \<Rightarrow> bool" +
  fixes abstract :: "'a \<Rightarrow> 'a \<Rightarrow> bool" and abs :: "'s \<Rightarrow> 'a"
  assumes step_abs: "step s t \<Longrightarrow> inv s \<Longrightarrow> abstract\<^sup>*\<^sup>* (abs s) (abs t)"
begin

lemma run_abs: "step\<^sup>*\<^sup>* s t \<Longrightarrow> inv s \<Longrightarrow> abstract\<^sup>*\<^sup>* (abs s) (abs t)"
proof (induction rule: rtranclp_induct)
  case (step t u)
  then have "inv t" using steps_inv by blast
  with step show ?case using step_abs by (meson rtranclp_trans)
qed simp

end

end
