(* ===== verification/Constants.thy ===== *)
theory Constants
  imports Prelude
begin

text \<open>
  The constants and enumerations of \<^verbatim>\<open>nss-rs/src/constants.rs\<close> and \<^verbatim>\<open>nss-rs/src/ssl.rs\<close>, and the
  error values the sources name. The numbers themselves come from bindings that the build generates
  from the NSS headers: the parameter \<open>hdr\<close> gives the value of each C identifier, as a \<^verbatim>\<open>u32\<close>, the
  type bindgen gives them. The \<^verbatim>\<open>remap_enum!\<close> macro casts such a value to the narrower type of the
  TLS field it belongs to.
\<close>

section \<open>Errors\<close>

text \<open>
  \<open>NssError\<close> stands for every error made by code outside the sources, whatever its kind.
\<close>

datatype nss_error =
    NssInternal
  | NssEchRetry bytes
  | NssError int
  | CreateSslSocket
  | InvalidAlpn
  | InvalidCertificateCompressionID
  | InvalidState
  | InvalidInput
  | MixedHandshakeMethod
  | CertificateLoading
  | CertificateDecoding
  | InvalidEpoch
  | UnsupportedVersion

datatype transport_error =
    Internal
  | EchRetry bytes
  | CryptoError nss_error
  | CryptoAlert u8
  | ProtocolViolation
  | KeysExhausted
  | PacketNumberOverlap
  | KeyUpdateBlocked
  | VersionNegotiation
  | CryptoBufferExceeded

section \<open>Epochs\<close>

datatype epoch = Initial | ZeroRtt | Handshake | ApplicationData

fun epoch_usize :: "epoch \<Rightarrow> usize" where
  "epoch_usize Initial = 0"
| "epoch_usize ZeroRtt = 1"
| "epoch_usize Handshake = 2"
| "epoch_usize ApplicationData = 3"

definition epoch_from_repr :: "u16 \<Rightarrow> epoch option" where
  "epoch_from_repr v =
     (if v = 0 then Some Initial else if v = 1 then Some ZeroRtt
      else if v = 2 then Some Handshake else if v = 3 then Some ApplicationData else None)"

definition epoch_try_from :: "u16 \<Rightarrow> (nss_error, epoch) result" where
  "epoch_try_from v = ok_or (epoch_from_repr v) InvalidEpoch"

text \<open>The derived order on \<^verbatim>\<open>Epoch\<close> compares the discriminants.\<close>

instantiation epoch :: linorder
begin

definition less_eq_epoch :: "epoch \<Rightarrow> epoch \<Rightarrow> bool" where
  "less_eq_epoch a b \<longleftrightarrow> epoch_usize a \<le> epoch_usize b"

definition less_epoch :: "epoch \<Rightarrow> epoch \<Rightarrow> bool" where
  "less_epoch a b \<longleftrightarrow> epoch_usize a < epoch_usize b"

lemma epoch_usize_inj: "epoch_usize a = epoch_usize b \<Longrightarrow> a = b"
  by (cases a; cases b) auto

instance
  by standard (auto simp: less_eq_epoch_def less_epoch_def intro: epoch_usize_inj)

end

lemma epoch_try_from_repr: "epoch_try_from (ucast (epoch_usize e)) = Ok e"
  by (cases e) (simp_all add: epoch_try_from_def epoch_from_repr_def)

lemma epoch_try_from_Ok: "epoch_try_from v = Ok e \<Longrightarrow> v = ucast (epoch_usize e)"
  by (auto simp: epoch_try_from_def epoch_from_repr_def split: if_splits)

section \<open>Constants remapped from the NSS headers\<close>

type_synonym headers = "string \<Rightarrow> u32"

definition remap16 :: "headers \<Rightarrow> string \<Rightarrow> u16" where
  "remap16 hdr v = ucast (hdr v)"

definition remap8 :: "headers \<Rightarrow> string \<Rightarrow> u8" where
  "remap8 hdr v = ucast (hdr v)"

definition TLS_VERSION_1_2 :: "headers \<Rightarrow> u16" where
  "TLS_VERSION_1_2 hdr = remap16 hdr ''SSL_LIBRARY_VERSION_TLS_1_2''"

definition TLS_VERSION_1_3 :: "headers \<Rightarrow> u16" where
  "TLS_VERSION_1_3 hdr = remap16 hdr ''SSL_LIBRARY_VERSION_TLS_1_3''"

type_synonym cipher = u16

definition TLS_AES_128_GCM_SHA256 :: "headers \<Rightarrow> cipher" where
  "TLS_AES_128_GCM_SHA256 hdr = remap16 hdr ''TLS_AES_128_GCM_SHA256''"

definition TLS_AES_256_GCM_SHA384 :: "headers \<Rightarrow> cipher" where
  "TLS_AES_256_GCM_SHA384 hdr = remap16 hdr ''TLS_AES_256_GCM_SHA384''"

definition TLS_CHACHA20_POLY1305_SHA256 :: "headers \<Rightarrow> cipher" where
  "TLS_CHACHA20_POLY1305_SHA256 hdr = remap16 hdr ''TLS_CHACHA20_POLY1305_SHA256''"

text \<open>The three suites are different and none is the default \<^verbatim>\<open>Cipher\<close> value 0.\<close>

definition ciphers_distinct :: "headers \<Rightarrow> bool" where
  "ciphers_distinct hdr \<longleftrightarrow>
     distinct [0, TLS_AES_128_GCM_SHA256 hdr, TLS_AES_256_GCM_SHA384 hdr,
               TLS_CHACHA20_POLY1305_SHA256 hdr]"

type_synonym group = u16

definition TLS_GRP_EC_SECP256R1 :: "headers \<Rightarrow> group" where
  "TLS_GRP_EC_SECP256R1 hdr = remap16 hdr ''ssl_grp_ec_secp256r1''"

definition TLS_GRP_EC_SECP384R1 :: "headers \<Rightarrow> group" where
  "TLS_GRP_EC_SECP384R1 hdr = remap16 hdr ''ssl_grp_ec_secp384r1''"

definition TLS_GRP_EC_SECP521R1 :: "headers \<Rightarrow> group" where
  "TLS_GRP_EC_SECP521R1 hdr = remap16 hdr ''ssl_grp_ec_secp521r1''"

definition TLS_GRP_EC_X25519 :: "headers \<Rightarrow> group" where
  "TLS_GRP_EC_X25519 hdr = remap16 hdr ''ssl_grp_ec_curve25519''"

definition TLS_GRP_KEM_MLKEM768X25519 :: "headers \<Rightarrow> group" where
  "TLS_GRP_KEM_MLKEM768X25519 hdr = remap16 hdr ''ssl_grp_kem_mlkem768x25519''"

definition TLS_GRP_FFDHE_2048 :: "headers \<Rightarrow> group" where
  "TLS_GRP_FFDHE_2048 hdr = remap16 hdr ''ssl_grp_ffdhe_2048''"

definition TLS_GRP_FFDHE_3072 :: "headers \<Rightarrow> group" where
  "TLS_GRP_FFDHE_3072 hdr = remap16 hdr ''ssl_grp_ffdhe_3072''"

definition TLS_GRP_KEM_XYBER768D00 :: "headers \<Rightarrow> group" where
  "TLS_GRP_KEM_XYBER768D00 hdr = remap16 hdr ''ssl_grp_kem_xyber768d00''"

definition TLS_CT_HANDSHAKE :: "headers \<Rightarrow> u8" where
  "TLS_CT_HANDSHAKE hdr = remap8 hdr ''ssl_ct_handshake''"

text \<open>The enumerations of which the sources name no single value, as tables from names to values.\<close>

definition handshake_messages :: "headers \<Rightarrow> (string \<times> u8) list" where
  "handshake_messages hdr =
     [(''TLS_HS_HELLO_REQUEST'', remap8 hdr ''ssl_hs_hello_request''),
      (''TLS_HS_CLIENT_HELLO'', remap8 hdr ''ssl_hs_client_hello''),
      (''TLS_HS_SERVER_HELLO'', remap8 hdr ''ssl_hs_server_hello''),
      (''TLS_HS_HELLO_VERIFY_REQUEST'', remap8 hdr ''ssl_hs_hello_verify_request''),
      (''TLS_HS_NEW_SESSION_TICKET'', remap8 hdr ''ssl_hs_new_session_ticket''),
      (''TLS_HS_END_OF_EARLY_DATA'', remap8 hdr ''ssl_hs_end_of_early_data''),
      (''TLS_HS_HELLO_RETRY_REQUEST'', remap8 hdr ''ssl_hs_hello_retry_request''),
      (''TLS_HS_ENCRYPTED_EXTENSIONS'', remap8 hdr ''ssl_hs_encrypted_extensions''),
      (''TLS_HS_CERTIFICATE'', remap8 hdr ''ssl_hs_certificate''),
      (''TLS_HS_SERVER_KEY_EXCHANGE'', remap8 hdr ''ssl_hs_server_key_exchange''),
      (''TLS_HS_CERTIFICATE_REQUEST'', remap8 hdr ''ssl_hs_certificate_request''),
      (''TLS_HS_SERVER_HELLO_DONE'', remap8 hdr ''ssl_hs_server_hello_done''),
      (''TLS_HS_CERTIFICATE_VERIFY'', remap8 hdr ''ssl_hs_certificate_verify''),
      (''TLS_HS_CLIENT_KEY_EXCHANGE'', remap8 hdr ''ssl_hs_client_key_exchange''),
      (''TLS_HS_FINISHED'', remap8 hdr ''ssl_hs_finished''),
      (''TLS_HS_CERT_STATUS'', remap8 hdr ''ssl_hs_certificate_status''),
      (''TLS_HS_KEY_UDPATE'', remap8 hdr ''ssl_hs_key_update'')]"

definition content_types :: "headers \<Rightarrow> (string \<times> u8) list" where
  "content_types hdr =
     [(''TLS_CT_CHANGE_CIPHER_SPEC'', remap8 hdr ''ssl_ct_change_cipher_spec''),
      (''TLS_CT_ALERT'', remap8 hdr ''ssl_ct_alert''),
      (''TLS_CT_HANDSHAKE'', remap8 hdr ''ssl_ct_handshake''),
      (''TLS_CT_APPLICATION_DATA'', remap8 hdr ''ssl_ct_application_data''),
      (''TLS_CT_ACK'', remap8 hdr ''ssl_ct_ack'')]"

definition tls_extensions :: "headers \<Rightarrow> (string \<times> u16) list" where
  "tls_extensions hdr =
     [(''TLS_EXT_SERVER_NAME'', remap16 hdr ''ssl_server_name_xtn''),
      (''TLS_EXT_CERT_STATUS'', remap16 hdr ''ssl_cert_status_xtn''),
      (''TLS_EXT_GROUPS'', remap16 hdr ''ssl_supported_groups_xtn''),
      (''TLS_EXT_EC_POINT_FORMATS'', remap16 hdr ''ssl_ec_point_formats_xtn''),
      (''TLS_EXT_SIG_SCHEMES'', remap16 hdr ''ssl_signature_algorithms_xtn''),
      (''TLS_EXT_USE_SRTP'', remap16 hdr ''ssl_use_srtp_xtn''),
      (''TLS_EXT_ALPN'', remap16 hdr ''ssl_app_layer_protocol_xtn''),
      (''TLS_EXT_SCT'', remap16 hdr ''ssl_signed_cert_timestamp_xtn''),
      (''TLS_EXT_PADDING'', remap16 hdr ''ssl_padding_xtn''),
      (''TLS_EXT_EMS'', remap16 hdr ''ssl_extended_master_secret_xtn''),
      (''TLS_EXT_RECORD_SIZE'', remap16 hdr ''ssl_record_size_limit_xtn''),
      (''TLS_EXT_SESSION_TICKET'', remap16 hdr ''ssl_session_ticket_xtn''),
      (''TLS_EXT_PSK'', remap16 hdr ''ssl_tls13_pre_shared_key_xtn''),
      (''TLS_EXT_EARLY_DATA'', remap16 hdr ''ssl_tls13_early_data_xtn''),
      (''TLS_EXT_VERSIONS'', remap16 hdr ''ssl_tls13_supported_versions_xtn''),
      (''TLS_EXT_COOKIE'', remap16 hdr ''ssl_tls13_cookie_xtn''),
      (''TLS_EXT_PSK_MODES'', remap16 hdr ''ssl_tls13_psk_key_exchange_modes_xtn''),
      (''TLS_EXT_CA'', remap16 hdr ''ssl_tls13_certificate_authorities_xtn''),
      (''TLS_EXT_POST_HS_AUTH'', remap16 hdr ''ssl_tls13_post_handshake_auth_xtn''),
      (''TLS_EXT_CERT_SIG_SCHEMES'', remap16 hdr ''ssl_signature_algorithms_cert_xtn''),
      (''TLS_EXT_KEY_SHARE'', remap16 hdr ''ssl_tls13_key_share_xtn''),
      (''TLS_EXT_RENEGOTIATION_INFO'', remap16 hdr ''ssl_renegotiation_info_xtn'')]"

definition signature_schemes :: "headers \<Rightarrow> (string \<times> u16) list" where
  "signature_schemes hdr =
     [(''TLS_SIG_NONE'', remap16 hdr ''ssl_sig_none''),
      (''TLS_SIG_RSA_PKCS1_SHA256'', remap16 hdr ''ssl_sig_rsa_pkcs1_sha256''),
      (''TLS_SIG_RSA_PKCS1_SHA384'', remap16 hdr ''ssl_sig_rsa_pkcs1_sha384''),
      (''TLS_SIG_RSA_PKCS1_SHA512'', remap16 hdr ''ssl_sig_rsa_pkcs1_sha512''),
      (''TLS_SIG_ECDSA_SECP256R1_SHA256'', remap16 hdr ''ssl_sig_ecdsa_secp256r1_sha256''),
      (''TLS_SIG_ECDSA_SECP384R1_SHA384'', remap16 hdr ''ssl_sig_ecdsa_secp384r1_sha384''),
      (''TLS_SIG_ECDSA_SECP512R1_SHA512'', remap16 hdr ''ssl_sig_ecdsa_secp521r1_sha512''),
      (''TLS_SIG_RSA_PSS_RSAE_SHA256'', remap16 hdr ''ssl_sig_rsa_pss_rsae_sha256''),
      (''TLS_SIG_RSA_PSS_RSAE_SHA384'', remap16 hdr ''ssl_sig_rsa_pss_rsae_sha384''),
      (''TLS_SIG_RSA_PSS_RSAE_SHA512'', remap16 hdr ''ssl_sig_rsa_pss_rsae_sha512''),
      (''TLS_SIG_ED25519'', remap16 hdr ''ssl_sig_ed25519''),
      (''TLS_SIG_ED448'', remap16 hdr ''ssl_sig_ed448''),
      (''TLS_SIG_RSA_PSS_PSS_SHA256'', remap16 hdr ''ssl_sig_rsa_pss_pss_sha256''),
      (''TLS_SIG_RSA_PSS_PSS_SHA384'', remap16 hdr ''ssl_sig_rsa_pss_pss_sha384''),
      (''TLS_SIG_RSA_PSS_PSS_SHA512'', remap16 hdr ''ssl_sig_rsa_pss_pss_sha512'')]"

lemma constant_names_distinct:
  "distinct (map fst (handshake_messages hdr))" "distinct (map fst (content_types hdr))"
  "distinct (map fst (tls_extensions hdr))" "distinct (map fst (signature_schemes hdr))"
  by (simp_all add: handshake_messages_def content_types_def tls_extensions_def signature_schemes_def)

lemma content_types_handshake: "map_of (content_types hdr) ''TLS_CT_HANDSHAKE'' = Some (TLS_CT_HANDSHAKE hdr)"
  by (simp add: content_types_def TLS_CT_HANDSHAKE_def)

section \<open>NSS socket options\<close>

datatype opt =
    Locking | Tickets | OcspStapling | Alpn | ExtendedMasterSecret | SignedCertificateTimestamps
  | EarlyData | RecordSizeLimit | Tls13CompatMode | HelloDowngradeCheck | SuppressEndOfEarlyData
  | Grease | DelegatedCredentials | EnableChExtensionPermutation

fun opt_as_int :: "headers \<Rightarrow> opt \<Rightarrow> u32" where
  "opt_as_int hdr Locking = hdr ''SSL_NO_LOCKS''"
| "opt_as_int hdr Tickets = hdr ''SSL_ENABLE_SESSION_TICKETS''"
| "opt_as_int hdr OcspStapling = hdr ''SSL_ENABLE_OCSP_STAPLING''"
| "opt_as_int hdr Alpn = hdr ''SSL_ENABLE_ALPN''"
| "opt_as_int hdr ExtendedMasterSecret = hdr ''SSL_ENABLE_EXTENDED_MASTER_SECRET''"
| "opt_as_int hdr SignedCertificateTimestamps = hdr ''SSL_ENABLE_SIGNED_CERT_TIMESTAMPS''"
| "opt_as_int hdr EarlyData = hdr ''SSL_ENABLE_0RTT_DATA''"
| "opt_as_int hdr RecordSizeLimit = hdr ''SSL_RECORD_SIZE_LIMIT''"
| "opt_as_int hdr Tls13CompatMode = hdr ''SSL_ENABLE_TLS13_COMPAT_MODE''"
| "opt_as_int hdr HelloDowngradeCheck = hdr ''SSL_ENABLE_HELLO_DOWNGRADE_CHECK''"
| "opt_as_int hdr SuppressEndOfEarlyData = hdr ''SSL_SUPPRESS_END_OF_EARLY_DATA''"
| "opt_as_int hdr Grease = hdr ''SSL_ENABLE_GREASE''"
| "opt_as_int hdr DelegatedCredentials = 40"
| "opt_as_int hdr EnableChExtensionPermutation = hdr ''SSL_ENABLE_CH_EXTENSION_PERMUTATION''"

definition opt_map_enabled :: "opt \<Rightarrow> bool \<Rightarrow> int" where
  "opt_map_enabled opt enabled = of_bool (case opt of Locking \<Rightarrow> \<not> enabled | _ \<Rightarrow> enabled)"

lemma opt_map_enabled_inj: "opt_map_enabled opt a = opt_map_enabled opt b \<longleftrightarrow> a = b"
  by (cases opt) (auto simp: opt_map_enabled_def of_bool_def)

end
