(* ===== verification/Crypto_Dx.thy ===== *)
theory Crypto_Dx
  imports Constants
begin

unbundle bit_operations_syntax

text \<open>
  \<^verbatim>\<open>CryptoDxState\<close> of \<^verbatim>\<open>neqo-transport/src/crypto.rs\<close>: the packet protection keys of one direction
  and one epoch, the window of packet numbers they were used for and the number of invocations they
  are still good for. The AEAD, the header protection key, HKDF and what a QUIC version contributes
  are code of other crates: the record \<open>crypto_env\<close> has one function for each call, over abstract
  types \<open>'k\<close> of symmetric keys, \<open>'a\<close> of AEAD contexts and \<open>'h\<close> of header protection keys.
\<close>

section \<open>The code that is called\<close>

datatype version = Version2 | Version1 | Draft29

datatype role = Client | Server

datatype packet_number_space = InitialSpace | HandshakeSpace | ApplicationDataSpace

datatype direction = Read | Write

datatype mode = Decrypt | Encrypt

record ('k, 'a, 'h) crypto_env =
  debug_assertions :: bool
  nss_hdr :: headers
  from_crypto_error :: "nss_error \<Rightarrow> transport_error"
  version_values :: "version list"
  label_prefix :: "version \<Rightarrow> string"
  initial_salt :: "version \<Rightarrow> bytes"
  hkdf_import_key :: "u16 \<Rightarrow> bytes \<Rightarrow> (nss_error, 'k) result"
  hkdf_extract :: "u16 \<Rightarrow> cipher \<Rightarrow> 'k option \<Rightarrow> 'k \<Rightarrow> (nss_error, 'k) result"
  hkdf_expand_label :: "u16 \<Rightarrow> cipher \<Rightarrow> 'k \<Rightarrow> bytes \<Rightarrow> string \<Rightarrow> (nss_error, 'k) result"
  aead_new :: "u16 \<Rightarrow> cipher \<Rightarrow> 'k \<Rightarrow> string \<Rightarrow> mode \<Rightarrow> (nss_error, 'a) result"
  aead_expansion :: "'a \<Rightarrow> usize"
  aead_encrypt_in_place :: "'a \<Rightarrow> u64 \<Rightarrow> bytes \<Rightarrow> bytes \<Rightarrow> (nss_error, usize) result \<times> bytes"
  aead_decrypt_in_place :: "'a \<Rightarrow> u64 \<Rightarrow> bytes \<Rightarrow> bytes \<Rightarrow> (nss_error, usize) result \<times> bytes"
  hp_extract :: "u16 \<Rightarrow> cipher \<Rightarrow> 'k \<Rightarrow> string \<Rightarrow> (nss_error, 'h) result"
  hp_try_clone :: "'h \<Rightarrow> (nss_error, 'h) result"
  hp_mask :: "'h \<Rightarrow> bytes \<Rightarrow> (nss_error, bytes) result"
  hp_sample_size :: usize

abbreviation dbg :: "('k, 'a, 'h) crypto_env \<Rightarrow> bool" where
  "dbg \<equiv> debug_assertions"

abbreviation debug_build :: "('k, 'a, 'h) crypto_env \<Rightarrow> ('k, 'a, 'h) crypto_env" where
  "debug_build env \<equiv> env\<lparr>debug_assertions := True\<rparr>"

abbreviation release_build :: "('k, 'a, 'h) crypto_env \<Rightarrow> ('k, 'a, 'h) crypto_env" where
  "release_build env \<equiv> env\<lparr>debug_assertions := False\<rparr>"

text \<open>The \<^verbatim>\<open>?\<close> operator on an error of the \<^verbatim>\<open>nss\<close> crate converts it.\<close>

definition from_crypto ::
  "('k, 'a, 'h) crypto_env \<Rightarrow> (nss_error, 'x) result \<Rightarrow> (transport_error, 'x) result" where
  "from_crypto env r = map_err (from_crypto_error env) r"

section \<open>The state and its operations\<close>

definition UPDATE_WRITE_KEYS_AT :: u64 where
  "UPDATE_WRITE_KEYS_AT = 100"

definition INITIAL_LARGEST_PACKET_LEN :: usize where
  "INITIAL_LARGEST_PACKET_LEN = push_bit 11 1"

fun mode_from :: "direction \<Rightarrow> mode" where
  "mode_from Read = Decrypt"
| "mode_from Write = Encrypt"

record ('a, 'h) dx =
  dx_version :: version
  dx_direction :: direction
  dx_epoch :: usize
  dx_aead :: 'a
  dx_hpkey :: 'h
  used_pn :: "u64 range"
  min_pn :: u64
  invocations :: u64
  largest_packet_len :: usize

definition limit ::
  "('k, 'a, 'h) crypto_env \<Rightarrow> direction \<Rightarrow> cipher \<Rightarrow> (transport_error, u64) result" where
  "limit env direction cipher =
     (let hdr = nss_hdr env in
      case direction of
        Read \<Rightarrow>
          if cipher = TLS_AES_128_GCM_SHA256 hdr then Ok (push_bit 52 1)
          else if cipher = TLS_AES_256_GCM_SHA384 hdr then Ok (- 1)
          else if cipher = TLS_CHACHA20_POLY1305_SHA256 hdr then Ok (push_bit 36 1)
          else Panic
      | Write \<Rightarrow>
          if cipher = TLS_AES_128_GCM_SHA256 hdr \<or> cipher = TLS_AES_256_GCM_SHA384 hdr
          then Ok (push_bit 28 1)
          else if cipher = TLS_CHACHA20_POLY1305_SHA256 hdr then Ok (- 1)
          else Panic)"

definition dx_new ::
  "('k, 'a, 'h) crypto_env \<Rightarrow> version \<Rightarrow> direction \<Rightarrow> epoch \<Rightarrow> 'k \<Rightarrow> cipher \<Rightarrow> u64 \<Rightarrow>
   (transport_error, ('a, 'h) dx) result" where
  "dx_new env version direction epoch secret cipher pn0 =
     (let hplabel = label_prefix env version @ ''hp''; v13 = TLS_VERSION_1_3 (nss_hdr env) in
      bind_res (from_crypto env
        (aead_new env v13 cipher secret (label_prefix env version) (mode_from direction))) (\<lambda>aead.
      bind_res (from_crypto env (hp_extract env v13 cipher secret hplabel)) (\<lambda>hpkey.
      bind_res (limit env direction cipher) (\<lambda>n.
        Ok \<lparr>dx_version = version, dx_direction = direction, dx_epoch = epoch_usize epoch,
            dx_aead = aead, dx_hpkey = hpkey, used_pn = mk_range pn0 pn0, min_pn = pn0,
            invocations = n, largest_packet_len = INITIAL_LARGEST_PACKET_LEN\<rparr>))))"

definition dx_new_initial ::
  "('k, 'a, 'h) crypto_env \<Rightarrow> version \<Rightarrow> direction \<Rightarrow> string \<Rightarrow> bytes \<Rightarrow> u64 \<Rightarrow>
   (transport_error, ('a, 'h) dx) result" where
  "dx_new_initial env version direction label dcid pn0 =
     (let v13 = TLS_VERSION_1_3 (nss_hdr env);
          salt = initial_salt env version;
          cipher = TLS_AES_128_GCM_SHA256 (nss_hdr env) in
      bind_res (from_crypto env (hkdf_import_key env v13 salt)) (\<lambda>salt_key.
      bind_res (from_crypto env (hkdf_import_key env v13 dcid)) (\<lambda>ikm.
      bind_res (from_crypto env (hkdf_extract env v13 cipher (Some salt_key) ikm)) (\<lambda>initial_secret.
      bind_res (from_crypto env (hkdf_expand_label env v13 cipher initial_secret [] label)) (\<lambda>secret.
        dx_new env version direction Initial secret cipher pn0)))))"

definition dx_invoked :: "('a, 'h) dx \<Rightarrow> (transport_error, unit) result \<times> ('a, 'h) dx" where
  "dx_invoked dx =
     try_st (ok_or (checked_sub (invocations dx) 1) KeysExhausted) dx (\<lambda>n.
       (Ok (), dx\<lparr>invocations := n\<rparr>))"

definition dx_should_update ::
  "('k, 'a, 'h) crypto_env \<Rightarrow> ('a, 'h) dx \<Rightarrow> (transport_error, bool) result" where
  "dx_should_update env dx =
     bind_res (debug_assert (dbg env) (dx_direction dx = Write)) (\<lambda>_.
       Ok (invocations dx \<le> UPDATE_WRITE_KEYS_AT))"

definition dx_next_pn :: "('a, 'h) dx \<Rightarrow> u64" where
  "dx_next_pn dx = range_end (used_pn dx)"

definition dx_next ::
  "('k, 'a, 'h) crypto_env \<Rightarrow> ('a, 'h) dx \<Rightarrow> 'k \<Rightarrow> cipher \<Rightarrow> (transport_error, ('a, 'h) dx) result" where
  "dx_next env dx next_secret cipher =
     (let pn = dx_next_pn dx in
      bind_res (if dx_direction dx = Read then Ok (invocations dx) else limit env Write cipher) (\<lambda>n.
      bind_res (add_w (dbg env) (dx_epoch dx) 1) (\<lambda>epoch.
      bind_res (from_crypto env (aead_new env (TLS_VERSION_1_3 (nss_hdr env)) cipher next_secret
        (label_prefix env (dx_version dx)) (mode_from (dx_direction dx)))) (\<lambda>aead.
      bind_res (from_crypto env (hp_try_clone env (dx_hpkey dx))) (\<lambda>hpkey.
        Ok \<lparr>dx_version = dx_version dx, dx_direction = dx_direction dx, dx_epoch = epoch,
            dx_aead = aead, dx_hpkey = hpkey, used_pn = mk_range pn pn, min_pn = pn,
            invocations = n, largest_packet_len = INITIAL_LARGEST_PACKET_LEN\<rparr>)))))"

definition dx_key_phase :: "('a, 'h) dx \<Rightarrow> bool" where
  "dx_key_phase dx \<longleftrightarrow> dx_epoch dx AND 1 \<noteq> 1"

definition dx_continuation ::
  "('k, 'a, 'h) crypto_env \<Rightarrow> ('a, 'h) dx \<Rightarrow> ('a, 'h) dx \<Rightarrow>
   (transport_error, unit) result \<times> ('a, 'h) dx" where
  "dx_continuation env dx prev =
     try_st (debug_assert (dbg env) (dx_direction dx = dx_direction prev)) dx (\<lambda>_.
       (let pn = dx_next_pn prev; dx = dx\<lparr>min_pn := pn\<rparr> in
        if range_is_empty (used_pn dx) then (Ok (), dx\<lparr>used_pn := mk_range pn pn\<rparr>)
        else if range_end (used_pn prev) > range_start (used_pn dx) then (Err PacketNumberOverlap, dx)
        else (Ok (), dx\<lparr>used_pn := (used_pn dx)\<lparr>range_start := pn\<rparr>\<rparr>)))"

definition dx_used ::
  "('k, 'a, 'h) crypto_env \<Rightarrow> u64 \<Rightarrow> ('a, 'h) dx \<Rightarrow> (transport_error, unit) result \<times> ('a, 'h) dx" where
  "dx_used env pn dx =
     (if pn < min_pn dx then (Err PacketNumberOverlap, dx)
      else
        let dx = (if range_start (used_pn dx) = range_end (used_pn dx)
                  then dx\<lparr>used_pn := (used_pn dx)\<lparr>range_start := pn\<rparr>\<rparr> else dx) in
        try_st (add_w (dbg env) pn 1) dx (\<lambda>pn1.
          (Ok (), dx\<lparr>used_pn := (used_pn dx)\<lparr>range_end := max pn1 (range_end (used_pn dx))\<rparr>\<rparr>)))"

definition dx_needs_update ::
  "('k, 'a, 'h) crypto_env \<Rightarrow> ('a, 'h) dx \<Rightarrow> (transport_error, bool) result" where
  "dx_needs_update env dx =
     bind_res (add_w (dbg env) (range_start (used_pn dx)) 1) (\<lambda>s1.
       Ok (s1 = range_end (used_pn dx) \<and> dx_epoch dx > epoch_usize ApplicationData))"

definition dx_can_update :: "('a, 'h) dx \<Rightarrow> u64 option \<Rightarrow> bool" where
  "dx_can_update dx largest_acknowledged =
     (case largest_acknowledged of
        None \<Rightarrow> dx_epoch dx = epoch_usize ApplicationData
      | Some la \<Rightarrow> range_contains (used_pn dx) la)"

definition dx_compute_mask ::
  "('k, 'a, 'h) crypto_env \<Rightarrow> ('a, 'h) dx \<Rightarrow> bytes \<Rightarrow> (transport_error, bytes) result" where
  "dx_compute_mask env dx sample = from_crypto env (hp_mask env (dx_hpkey dx) sample)"

text \<open>
  The block of \<^verbatim>\<open>encrypt\<close> that charges a packet larger than any before: the remaining invocations
  are divided by the growth of the packet size, in powers of two.
\<close>

definition dx_adjust ::
  "('k, 'a, 'h) crypto_env \<Rightarrow> usize \<Rightarrow> ('a, 'h) dx \<Rightarrow> (transport_error, ('a, 'h) dx) result" where
  "dx_adjust env body_len dx =
     (if body_len > largest_packet_len dx then
        bind_res (sub_w (dbg env) (largest_packet_len dx) 1) (\<lambda>l1.
        bind_res (sub_w (dbg env) body_len 1) (\<lambda>b1.
        bind_res (sub_w (dbg env) (leading_zeros l1) (leading_zeros b1)) (\<lambda>new_bits.
        bind_res (shr_w (dbg env) (invocations dx) new_bits) (\<lambda>n.
          Ok (dx\<lparr>invocations := n, largest_packet_len := body_len\<rparr>)))))
      else Ok dx)"

definition dx_encrypt ::
  "('k, 'a, 'h) crypto_env \<Rightarrow> u64 \<Rightarrow> usize range \<Rightarrow> ('a, 'h) dx \<times> bytes \<Rightarrow>
   (transport_error, usize) result \<times> ('a, 'h) dx \<times> bytes" where
  "dx_encrypt env pn hdr st =
     (let (dx, data) = st in
      try_st (debug_assert (dbg env) (dx_direction dx = Write)) (dx, data) (\<lambda>_.
      try_st (sub_w (dbg env) (len data) (range_len hdr)) (dx, data) (\<lambda>b.
      try_st (sub_w (dbg env) b (aead_expansion env (dx_aead dx))) (dx, data) (\<lambda>body_len.
      try_st (debug_assert (dbg env) (body_len \<le> 0xffff)) (dx, data) (\<lambda>_.
      try_st (dx_adjust env body_len dx) (dx, data) (\<lambda>dx.
      bind_st (dx_invoked dx) (\<lambda>_ dx.
        try_st (split_at data (range_end hdr)) (dx, data) (\<lambda>(prev, rest).
        try_st (slice prev hdr) (dx, data) (\<lambda>aad.
          let (r, rest) = aead_encrypt_in_place env (dx_aead dx) pn aad rest;
              data = prev @ rest in
          try_st (from_crypto env r) (dx, data) (\<lambda>n.
          try_st (debug_assert (dbg env) (pn = dx_next_pn dx)) (dx, data) (\<lambda>_.
          bind_st (dx_used env pn dx) (\<lambda>_ dx. (Ok n, dx, data)) (\<lambda>dx. (dx, data)))))))
        (\<lambda>dx. (dx, data))))))))"

definition dx_expansion :: "('k, 'a, 'h) crypto_env \<Rightarrow> ('a, 'h) dx \<Rightarrow> usize" where
  "dx_expansion env dx = aead_expansion env (dx_aead dx)"

definition dx_decrypt ::
  "('k, 'a, 'h) crypto_env \<Rightarrow> u64 \<Rightarrow> usize range \<Rightarrow> ('a, 'h) dx \<times> bytes \<Rightarrow>
   (transport_error, usize) result \<times> ('a, 'h) dx \<times> bytes" where
  "dx_decrypt env pn hdr st =
     (let (dx, data) = st in
      try_st (debug_assert (dbg env) (dx_direction dx = Read)) (dx, data) (\<lambda>_.
      bind_st (dx_invoked dx) (\<lambda>_ dx.
        try_st (split_at data (range_end hdr)) (dx, data) (\<lambda>(hd, rest).
          let (r, rest) = aead_decrypt_in_place env (dx_aead dx) pn hd rest;
              data = hd @ rest in
          try_st (from_crypto env r) (dx, data) (\<lambda>n.
          bind_st (dx_used env pn dx) (\<lambda>_ dx. (Ok n, dx, data)) (\<lambda>dx. (dx, data)))))
        (\<lambda>dx. (dx, data))))"

definition dx_extra_padding :: "('k, 'a, 'h) crypto_env \<Rightarrow> ('a, 'h) dx \<Rightarrow> usize" where
  "dx_extra_padding env dx = saturating_sub (hp_sample_size env) (dx_expansion env dx)"

section \<open>The packet number window\<close>

text \<open>
  What every operation keeps: the window starts at or above the smallest number allowed, it does not
  end before it starts, and the packet size that the invocation limit is based on never shrinks.
\<close>

definition dx_wf :: "('a, 'h) dx \<Rightarrow> bool" where
  "dx_wf dx \<longleftrightarrow> min_pn dx \<le> range_start (used_pn dx) \<and>
     range_start (used_pn dx) \<le> range_end (used_pn dx) \<and>
     INITIAL_LARGEST_PACKET_LEN \<le> largest_packet_len dx"

text \<open>A packet number that \<^verbatim>\<open>used\<close> can record: adding one to it does not wrap, or is checked.\<close>

definition pn_ok :: "('k, 'a, 'h) crypto_env \<Rightarrow> u64 \<Rightarrow> bool" where
  "pn_ok env pn \<longleftrightarrow> dbg env \<or> pn \<noteq> - 1"

lemma dx_used_effect:
  assumes "dx_used env pn dx = (Ok u, dx')" and "pn_ok env pn"
  obtains s e where "min_pn dx \<le> pn" and "dx' = dx\<lparr>used_pn := mk_range s e\<rparr>"
    and "s = (if range_start (used_pn dx) = range_end (used_pn dx) then pn
              else range_start (used_pn dx))"
    and "unat e = max (Suc (unat pn)) (unat (range_end (used_pn dx)))"
proof -
  let ?s = "if range_start (used_pn dx) = range_end (used_pn dx) then pn
            else range_start (used_pn dx)"
  from assms(1) obtain q where q: "add_w (dbg env) pn 1 = (Ok q :: (transport_error, u64) result)"
    and le: "min_pn dx \<le> pn"
    and dx': "dx' = dx\<lparr>used_pn := mk_range ?s (max q (range_end (used_pn dx)))\<rparr>"
    by (auto simp: dx_used_def rust_simps Let_def not_less split: if_splits)
  have "unat q = Suc (unat pn)"
    using q assms(2) by (auto simp: pn_ok_def intro: add_one_Ok)
  then have "unat (max q (range_end (used_pn dx))) =
      max (Suc (unat pn)) (unat (range_end (used_pn dx)))"
    by (simp add: max_def word_le_nat_alt)
  with that [OF le dx'] show thesis by simp
qed

lemma dx_used_wf:
  assumes "dx_used env pn dx = (Ok u, dx')" and "pn_ok env pn" and "dx_wf dx"
  shows "dx_wf dx'"
  using assms by (elim dx_used_effect) (auto simp: dx_wf_def word_le_nat_alt)

lemma dx_used_next:
  assumes "dx_used env pn dx = (Ok u, dx')" and "pn_ok env pn"
  shows "min_pn dx' = min_pn dx"
    and "unat (dx_next_pn dx') = max (Suc (unat pn)) (unat (dx_next_pn dx))"
proof -
  obtain s e where dx': "dx' = dx\<lparr>used_pn := mk_range s e\<rparr>"
    and e: "unat e = max (Suc (unat pn)) (unat (range_end (used_pn dx)))"
    using assms by (rule dx_used_effect)
  show "min_pn dx' = min_pn dx" by (simp add: dx')
  show "unat (dx_next_pn dx') = max (Suc (unat pn)) (unat (dx_next_pn dx))"
    by (simp add: dx' dx_next_pn_def e)
qed

lemma dx_new_Ok:
  assumes "dx_new env version direction epoch secret cipher pn0 = Ok dx"
  shows "dx_version dx = version" and "dx_direction dx = direction"
    and "dx_epoch dx = epoch_usize epoch" and "used_pn dx = mk_range pn0 pn0" and "min_pn dx = pn0"
    and "largest_packet_len dx = INITIAL_LARGEST_PACKET_LEN"
    and "limit env direction cipher = Ok (invocations dx)"
    and "aead_new env (TLS_VERSION_1_3 (nss_hdr env)) cipher secret (label_prefix env version)
           (mode_from direction) = Ok (dx_aead dx)"
    and "hp_extract env (TLS_VERSION_1_3 (nss_hdr env)) cipher secret
           (label_prefix env version @ ''hp'') = Ok (dx_hpkey dx)"
  using assms by (auto simp: dx_new_def Let_def rust_simps from_crypto_def)

lemma dx_new_wf: "dx_new env version direction epoch secret cipher pn0 = Ok dx \<Longrightarrow> dx_wf dx"
  using dx_new_Ok(4,5,6) [of env version direction epoch secret cipher pn0 dx]
  by (simp add: dx_wf_def)

lemma dx_new_initial_Ok:
  assumes "dx_new_initial env version direction label dcid pn0 = Ok dx"
  shows "dx_wf dx" and "dx_direction dx = direction" and "dx_epoch dx = 0"
    and "dx_version dx = version" and "used_pn dx = mk_range pn0 pn0" and "min_pn dx = pn0"
  using assms dx_new_Ok(1-5) dx_new_wf
  by (fastforce simp: dx_new_initial_def Let_def rust_simps)+

lemma dx_next_Ok:
  assumes "dx_next env dx secret cipher = Ok dx'"
  shows "dx_version dx' = dx_version dx" and "dx_direction dx' = dx_direction dx"
    and "add_w (dbg env) (dx_epoch dx) 1 = (Ok (dx_epoch dx') :: (transport_error, u64) result)"
    and "used_pn dx' = mk_range (dx_next_pn dx) (dx_next_pn dx)" and "min_pn dx' = dx_next_pn dx"
    and "largest_packet_len dx' = INITIAL_LARGEST_PACKET_LEN"
    and "aead_new env (TLS_VERSION_1_3 (nss_hdr env)) cipher secret
           (label_prefix env (dx_version dx)) (mode_from (dx_direction dx)) = Ok (dx_aead dx')"
    and "hp_try_clone env (dx_hpkey dx) = Ok (dx_hpkey dx')"
    and "dx_direction dx = Read \<Longrightarrow> invocations dx' = invocations dx"
    and "dx_direction dx = Write \<Longrightarrow> limit env Write cipher = Ok (invocations dx')"
  using assms by (auto simp: dx_next_def Let_def rust_simps from_crypto_def)

lemma dx_next_wf: "dx_next env dx secret cipher = Ok dx' \<Longrightarrow> dx_wf dx'"
  using dx_next_Ok(4,5,6) [of env dx secret cipher dx'] by (simp add: dx_wf_def)

lemma dx_continuation_Ok:
  assumes "dx_continuation env dx prev = (Ok u, dx')"
  obtains e where "dx' = dx\<lparr>min_pn := dx_next_pn prev, used_pn := mk_range (dx_next_pn prev) e\<rparr>"
    and "e = (if range_is_empty (used_pn dx) then dx_next_pn prev else range_end (used_pn dx))"
    and "range_is_empty (used_pn dx) \<or> dx_next_pn prev \<le> range_start (used_pn dx)"
  using assms
  by (auto simp: dx_continuation_def rust_simps Let_def not_less dx_next_pn_def split: if_splits)

lemma dx_continuation_wf:
  assumes "dx_continuation env dx prev = (Ok u, dx')" and "dx_wf dx"
  shows "dx_wf dx'"
  using assms by (elim dx_continuation_Ok) (auto simp: dx_wf_def range_is_empty_def not_less)

lemma dx_continuation_Err:
  assumes "dx_continuation env dx prev = (Err e, dx')"
  shows "e = PacketNumberOverlap" and "dx' = dx\<lparr>min_pn := dx_next_pn prev\<rparr>"
    and "\<not> range_is_empty (used_pn dx)" and "range_start (used_pn dx) < dx_next_pn prev"
  using assms
  by (auto simp: dx_continuation_def rust_simps Let_def dx_next_pn_def split: if_splits)

section \<open>The confidentiality budget\<close>

text \<open>
  The bytes that may still be protected: the invocations left, each charged with the largest packet
  so far, rounded up to a power of two.
\<close>

definition dx_budget :: "('a, 'h) dx \<Rightarrow> nat" where
  "dx_budget dx = unat (invocations dx) * 2 ^ bit_len (unat (largest_packet_len dx) - 1)"

text \<open>The number of bytes \<^verbatim>\<open>encrypt\<close> protects for a buffer and a header.\<close>

definition dx_body_len ::
  "('k, 'a, 'h) crypto_env \<Rightarrow> ('a, 'h) dx \<Rightarrow> usize range \<Rightarrow> bytes \<Rightarrow> usize" where
  "dx_body_len env dx hdr data = len data - range_len hdr - dx_expansion env dx"

lemma div_power_budget:
  assumes "l \<le> b"
  shows "(n :: nat) div 2 ^ (b - l) * 2 ^ b \<le> n * 2 ^ l"
proof -
  have "n div 2 ^ (b - l) * 2 ^ b = (n div 2 ^ (b - l) * 2 ^ (b - l)) * 2 ^ l"
    using assms by (simp add: mult.assoc flip: power_add)
  also have "\<dots> \<le> n * 2 ^ l"
    by (intro mult_le_mono1) simp
  finally show ?thesis .
qed

lemma dx_adjust_Ok:
  assumes "dx_adjust env body_len dx = Ok dx'" and wf: "dx_wf dx"
  obtains n m where "dx' = dx\<lparr>invocations := n, largest_packet_len := m\<rparr>"
    and "dx_wf dx'" and "body_len \<le> m" and "dx_budget dx' \<le> dx_budget dx"
proof (cases "body_len > largest_packet_len dx")
  case False
  with assms have "dx' = dx" by (simp add: dx_adjust_def)
  with False wf that [of "largest_packet_len dx" "invocations dx"] show thesis
    by (simp add: not_less)
next
  case True
  let ?l = "unat (largest_packet_len dx)" and ?b = "unat body_len"
  have l: "2048 \<le> ?l"
    using wf by (simp add: dx_wf_def INITIAL_LARGEST_PACKET_LEN_def word_le_nat_alt push_bit_eq_mult)
  have lb: "?l < ?b" using True by (simp add: word_less_nat_alt)
  have one: "unat (largest_packet_len dx - 1) = ?l - 1" "unat (body_len - 1) = ?b - 1"
    using l lb by (auto simp: unat_minus_one unat_eq_zero [symmetric])
  let ?k = "bit_len (?b - 1) - bit_len (?l - 1)"
  have mono: "bit_len (?l - 1) \<le> bit_len (?b - 1)"
    using lb by (intro bit_len_mono) simp
  have b64: "bit_len (?b - 1) \<le> 64"
    using bit_len_u64 [of "body_len - 1"] one by simp
  have l11: "11 \<le> bit_len (?l - 1)"
    using bit_len_le_iff [of "?l - 1" 10] l by auto
  have zeros: "unat (leading_zeros (largest_packet_len dx - 1) - leading_zeros (body_len - 1)) = ?k"
    using mono b64 by (subst unat_sub) (simp_all add: word_le_nat_alt unat_leading_zeros one)
  from assms(1) True have "dx' = dx\<lparr>invocations := drop_bit ?k (invocations dx),
      largest_packet_len := body_len\<rparr>"
    using zeros l11 b64 by (auto simp: dx_adjust_def rust_simps shr_w_def split: if_splits)
  moreover from this have "dx_budget dx' \<le> dx_budget dx"
    using div_power_budget [OF mono, of "unat (invocations dx)"]
    by (simp add: dx_budget_def unat_drop_bit_eq drop_bit_eq_div [where 'a = nat])
  ultimately show thesis
    using that wf True by (auto simp: dx_wf_def)
qed

lemma dx_invoked_Ok:
  assumes "dx_invoked dx = (Ok u, dx')"
  shows "dx' = dx\<lparr>invocations := invocations dx - 1\<rparr>" and "0 < unat (invocations dx)"
    and "unat (invocations dx') = unat (invocations dx) - 1"
  using assms by (auto simp: dx_invoked_def rust_simps unat_minus_one unat_gt_0)

lemma dx_invoked_Err: "dx_invoked dx = (Err e, dx') \<Longrightarrow> e = KeysExhausted \<and> dx' = dx \<and> invocations dx = 0"
  by (auto simp: dx_invoked_def rust_simps)

lemma dx_invoked_not_Panic: "dx_invoked dx \<noteq> (Panic, dx')"
  by (simp add: dx_invoked_def rust_simps)

lemma dx_invoked_budget:
  assumes "dx_invoked dx = (Ok u, dx')" and "dx_wf dx"
  shows "dx_budget dx' + unat (largest_packet_len dx) \<le> dx_budget dx"
proof -
  let ?l = "unat (largest_packet_len dx)"
  have "0 < ?l"
    using assms(2) by (auto simp: dx_wf_def INITIAL_LARGEST_PACKET_LEN_def word_le_nat_alt)
  with less_two_pow_bit_len [of "?l - 1"] have l: "?l \<le> 2 ^ bit_len (?l - 1)" by simp
  obtain m where m: "unat (invocations dx) = Suc m"
    using dx_invoked_Ok(2) [OF assms(1)] by (cases "unat (invocations dx)") auto
  have "dx_budget dx' = m * 2 ^ bit_len (?l - 1)"
    using dx_invoked_Ok [OF assms(1)] m by (simp add: dx_budget_def)
  moreover have "dx_budget dx = m * 2 ^ bit_len (?l - 1) + 2 ^ bit_len (?l - 1)"
    by (simp add: dx_budget_def m)
  ultimately show ?thesis using l by simp
qed

lemma dx_encrypt_Ok:
  assumes "dx_encrypt env pn hdr (dx, data) = (Ok n, dx', data')" and "dx_wf dx" and "pn_ok env pn"
  obtains "dx_wf dx'"
    and "dx_budget dx' + max 2048 (unat (dx_body_len env dx hdr data)) \<le> dx_budget dx"
    and "min_pn dx \<le> pn" and "unat (dx_next_pn dx') = max (Suc (unat pn)) (unat (dx_next_pn dx))"
    and "dbg env \<Longrightarrow> pn = dx_next_pn dx" and "dx_aead dx' = dx_aead dx"
    and "unat (range_end hdr) \<le> length data"
    and "aead_encrypt_in_place env (dx_aead dx) pn
           (drop (unat (range_start hdr)) (take (unat (range_end hdr)) data))
           (drop (unat (range_end hdr)) data) = (Ok n, drop (unat (range_end hdr)) data')"
    and "take (unat (range_end hdr)) data' = take (unat (range_end hdr)) data"
proof -
  let ?h = "unat (range_end hdr)"
  from assms(1) obtain dx1 dx2 rest where
    adj: "dx_adjust env (dx_body_len env dx hdr data) dx = Ok dx1"
    and inv: "dx_invoked dx1 = (Ok (), dx2)"
    and h: "?h \<le> length data"
    and aead: "aead_encrypt_in_place env (dx_aead dx2) pn
           (drop (unat (range_start hdr)) (take ?h data)) (drop ?h data) = (Ok n, rest)"
    and pn: "dbg env \<longrightarrow> pn = dx_next_pn dx2"
    and us: "dx_used env pn dx2 = (Ok (), dx')" and data': "data' = take ?h data @ rest"
    by (clarsimp simp: dx_encrypt_def dx_body_len_def dx_expansion_def rust_simps Let_def
        from_crypto_def case_prod_beta) (metis prod.collapse)
  from adj assms(2) obtain k m where dx1: "dx1 = dx\<lparr>invocations := k, largest_packet_len := m\<rparr>"
    and wf1: "dx_wf dx1" and m: "dx_body_len env dx hdr data \<le> m" and b1: "dx_budget dx1 \<le> dx_budget dx"
    by (rule dx_adjust_Ok)
  have dx2: "dx2 = dx1\<lparr>invocations := invocations dx1 - 1\<rparr>" and wf2: "dx_wf dx2"
    using dx_invoked_Ok [OF inv] wf1 by (auto simp: dx_wf_def)
  from us assms(3) obtain s e where dx': "dx' = dx2\<lparr>used_pn := mk_range s e\<rparr>"
    and "min_pn dx2 \<le> pn" and e: "unat e = max (Suc (unat pn)) (unat (range_end (used_pn dx2)))"
    by (rule dx_used_effect)
  have "2048 \<le> unat m"
    using wf1 dx1 by (simp add: dx_wf_def INITIAL_LARGEST_PACKET_LEN_def word_le_nat_alt push_bit_eq_mult)
  then have budget: "dx_budget dx' + max 2048 (unat (dx_body_len env dx hdr data)) \<le> dx_budget dx"
    using dx_invoked_budget [OF inv wf1] b1 m dx1 by (simp add: dx' dx_budget_def word_le_nat_alt)
  show thesis
    by (rule that [OF dx_used_wf [OF us assms(3) wf2] budget])
      (use dx1 dx2 dx' \<open>min_pn dx2 \<le> pn\<close> e pn aead data' h in
        \<open>auto simp: dx_next_pn_def\<close>)
qed

lemma dx_used_Err: "dx_used env pn dx = (Err e, dx') \<Longrightarrow> e = PacketNumberOverlap \<and> dx' = dx \<and> pn < min_pn dx"
  by (auto simp: dx_used_def rust_simps Let_def split: if_splits)

lemma dx_adjust_not_Err [simp]: "dx_adjust env b dx \<noteq> Err e"
  by (auto simp: dx_adjust_def rust_simps)

lemma dx_encrypt_Err:
  assumes "dx_encrypt env pn hdr (dx, data) = (Err e, dx', data')" and "dx_wf dx"
  obtains "dx_wf dx'" and "dx_budget dx' \<le> dx_budget dx" and "dx_next_pn dx' = dx_next_pn dx"
    and "min_pn dx' = min_pn dx"
proof -
  from assms(1) obtain dx1 where adj: "dx_adjust env (dx_body_len env dx hdr data) dx = Ok dx1"
    and dx': "dx' = dx1 \<or> (\<exists>u. dx_invoked dx1 = (Ok u, dx'))"
    by (auto simp: dx_encrypt_def dx_body_len_def dx_expansion_def rust_simps Let_def
        case_prod_beta dest: dx_invoked_Err dx_used_Err)
  from adj assms(2) obtain k m where dx1: "dx1 = dx\<lparr>invocations := k, largest_packet_len := m\<rparr>"
    and wf1: "dx_wf dx1" and b1: "dx_budget dx1 \<le> dx_budget dx"
    by (rule dx_adjust_Ok)
  from dx' show thesis
  proof
    assume "dx' = dx1"
    with dx1 wf1 b1 show thesis by (intro that) (auto simp: dx_next_pn_def)
  next
    assume "\<exists>u. dx_invoked dx1 = (Ok u, dx')"
    then obtain u where u: "dx_invoked dx1 = (Ok u, dx')" by blast
    have "dx_budget dx' \<le> dx_budget dx1"
      using dx_invoked_budget [OF u wf1] by simp
    moreover have "dx' = dx1\<lparr>invocations := invocations dx1 - 1\<rparr>"
      by (rule dx_invoked_Ok(1) [OF u])
    ultimately show thesis
      using dx1 wf1 b1 by (intro that) (auto simp: dx_wf_def dx_next_pn_def)
  qed
qed

section \<open>Runs of encryptions under one key\<close>

text \<open>
  A caller that protects one packet after another with the same key. The log has the packet number
  and the number of protected bytes of each packet that \<^verbatim>\<open>encrypt\<close> accepted; a panic ends the run.
\<close>

fun seal_run ::
  "('k, 'a, 'h) crypto_env \<Rightarrow> (u64 \<times> usize range \<times> bytes) list \<Rightarrow> ('a, 'h) dx \<Rightarrow>
   (u64 \<times> usize) list \<times> ('a, 'h) dx" where
  "seal_run env [] dx = ([], dx)"
| "seal_run env ((pn, hdr, data) # ps) dx =
     (case dx_encrypt env pn hdr (dx, data) of
        (Ok n, dx', _) \<Rightarrow>
          (let (log, dx'') = seal_run env ps dx' in ((pn, dx_body_len env dx hdr data) # log, dx''))
      | (Err e, dx', _) \<Rightarrow> seal_run env ps dx'
      | (Panic, dx', _) \<Rightarrow> ([], dx'))"

text \<open>The bytes protected, a packet below 2048 bytes counted as one of 2048.\<close>

definition sealed_bytes :: "(u64 \<times> usize) list \<Rightarrow> nat" where
  "sealed_bytes log = sum_list (map (\<lambda>(pn, b). max 2048 (unat b)) log)"

lemma seal_run_budget:
  assumes "seal_run env ps dx = (log, dx')" and "dx_wf dx" and "\<forall>p \<in> set ps. pn_ok env (fst p)"
  shows "sealed_bytes log \<le> dx_budget dx"
  using assms
proof (induction env ps dx arbitrary: log dx' rule: seal_run.induct)
  case (1 env dx)
  then show ?case by (simp add: sealed_bytes_def)
next
  case (2 env pn hdr data ps dx)
  obtain r dx1 data1 where enc: "dx_encrypt env pn hdr (dx, data) = (r, dx1, data1)"
    by (metis surj_pair)
  have pn: "pn_ok env pn" and rest: "\<forall>p \<in> set ps. pn_ok env (fst p)"
    using "2.prems"(3) by simp_all
  show ?case
  proof (cases r)
    case (Ok n)
    obtain log1 dx2 where run: "seal_run env ps dx1 = (log1, dx2)" by (metis surj_pair)
    note ok = dx_encrypt_Ok [OF enc [unfolded Ok] "2.prems"(2) pn]
    have wf: "dx_wf dx1" by (rule ok)
    have b: "dx_budget dx1 + max 2048 (unat (dx_body_len env dx hdr data)) \<le> dx_budget dx"
      by (rule ok)
    have "sealed_bytes log1 \<le> dx_budget dx1"
      using "2.IH"(1) [OF enc [symmetric] Ok refl run wf rest] .
    with b "2.prems"(1) show ?thesis by (auto simp: enc Ok run sealed_bytes_def)
  next
    case (Err e)
    note er = dx_encrypt_Err [OF enc [unfolded Err] "2.prems"(2)]
    have wf: "dx_wf dx1" by (rule er)
    have b: "dx_budget dx1 \<le> dx_budget dx" by (rule er)
    from "2.prems"(1) have run: "seal_run env ps dx1 = (log, dx')" by (simp add: enc Err)
    have "sealed_bytes log \<le> dx_budget dx1"
      using "2.IH"(2) [OF enc [symmetric] Err refl run wf rest] .
    with b show ?thesis by simp
  next
    case Panic
    with "2.prems"(1) show ?thesis by (simp add: enc sealed_bytes_def)
  qed
qed

lemma seal_run_consecutive:
  assumes "seal_run env ps dx = (log, dx')" and "dx_wf dx" and "dbg env"
  shows "map (unat \<circ> fst) log = [unat (dx_next_pn dx) ..< unat (dx_next_pn dx) + length log]"
  using assms
proof (induction env ps dx arbitrary: log dx' rule: seal_run.induct)
  case (1 env dx)
  then show ?case by simp
next
  case (2 env pn hdr data ps dx)
  obtain r dx1 data1 where enc: "dx_encrypt env pn hdr (dx, data) = (r, dx1, data1)"
    by (metis surj_pair)
  have pn: "pn_ok env pn" using "2.prems"(3) by (simp add: pn_ok_def)
  show ?case
  proof (cases r)
    case (Ok n)
    obtain log1 dx2 where run: "seal_run env ps dx1 = (log1, dx2)" by (metis surj_pair)
    note ok = dx_encrypt_Ok [OF enc [unfolded Ok] "2.prems"(2) pn]
    have wf: "dx_wf dx1" by (rule ok)
    have eq: "pn = dx_next_pn dx" by (rule ok) (use "2.prems"(3) in blast)
    have "unat (dx_next_pn dx1) = max (Suc (unat pn)) (unat (dx_next_pn dx))" by (rule ok)
    then have nx: "unat (dx_next_pn dx1) = Suc (unat (dx_next_pn dx))" by (simp add: eq)
    have "map (unat \<circ> fst) log1 =
        [Suc (unat (dx_next_pn dx)) ..< Suc (unat (dx_next_pn dx)) + length log1]"
      by (rule "2.IH"(1) [OF enc [symmetric] Ok refl run wf "2.prems"(3), unfolded nx])
    moreover have "log = (pn, dx_body_len env dx hdr data) # log1"
      using "2.prems"(1) by (simp add: enc Ok run)
    ultimately show ?thesis by (simp add: eq upt_conv_Cons comp_def del: upt_Suc)
  next
    case (Err e)
    note er = dx_encrypt_Err [OF enc [unfolded Err] "2.prems"(2)]
    have wf: "dx_wf dx1" by (rule er)
    have "dx_next_pn dx1 = dx_next_pn dx" by (rule er)
    moreover from "2.prems"(1) have "seal_run env ps dx1 = (log, dx')" by (simp add: enc Err)
    ultimately show ?thesis
      using "2.IH"(2) [OF enc [symmetric] Err refl _ wf "2.prems"(3)] by simp
  next
    case Panic
    with "2.prems"(1) show ?thesis by (simp add: enc)
  qed
qed

section \<open>Runs of received packet numbers\<close>

text \<open>The packet numbers \<^verbatim>\<open>used\<close> accepts, in the order they arrive, and the state it leaves.\<close>

fun used_run ::
  "('k, 'a, 'h) crypto_env \<Rightarrow> u64 list \<Rightarrow> ('a, 'h) dx \<Rightarrow> u64 list \<times> ('a, 'h) dx" where
  "used_run env [] dx = ([], dx)"
| "used_run env (pn # pns) dx =
     (case dx_used env pn dx of
        (Ok _, dx') \<Rightarrow> (let (acc, dx'') = used_run env pns dx' in (pn # acc, dx''))
      | (_, dx') \<Rightarrow> used_run env pns dx')"

lemma dx_used_enabled:
  assumes "min_pn dx \<le> pn" and "pn \<noteq> - 1"
  obtains dx' where "dx_used env pn dx = (Ok (), dx')"
proof -
  have "unat pn + 1 < 2 ^ 64"
    using unat_plus_one [OF assms(2)] unsigned_less [of "pn + 1", where 'a = nat] by simp
  then have "add_w (dbg env) pn 1 = (Ok (pn + 1) :: (transport_error, u64) result)"
    by (simp add: add_w_def)
  with assms(1) that show thesis by (simp add: dx_used_def Let_def not_less [symmetric])
qed

lemma used_run_window:
  assumes "used_run env pns dx = (acc, dx')" and "dx_wf dx" and "- 1 \<notin> set pns"
  shows "acc = filter (\<lambda>pn. min_pn dx \<le> pn) pns \<and> dx_wf dx' \<and> min_pn dx' = min_pn dx \<and>
     unat (dx_next_pn dx') = fold max (map (Suc \<circ> unat) acc) (unat (dx_next_pn dx))"
  using assms
proof (induction env pns dx arbitrary: acc dx' rule: used_run.induct)
  case (1 env dx)
  then show ?case by simp
next
  case (2 env pn pns dx)
  have pn: "pn \<noteq> - 1" and rest: "- 1 \<notin> set pns" and ok: "pn_ok env pn"
    using "2.prems"(3) by (auto simp: pn_ok_def)
  show ?case
  proof (cases "min_pn dx \<le> pn")
    case True
    then obtain dx1 where us: "dx_used env pn dx = (Ok (), dx1)"
      using pn by (rule dx_used_enabled)
    have wf: "dx_wf dx1" using us ok "2.prems"(2) by (rule dx_used_wf)
    note eff = dx_used_next [OF us ok]
    obtain acc1 dx2 where run: "used_run env pns dx1 = (acc1, dx2)" by (metis surj_pair)
    have "acc = pn # acc1" and "dx' = dx2"
      using "2.prems"(1) by (simp_all add: us run)
    with "2.IH"(1) [OF us [symmetric] refl run wf rest] True eff show ?thesis
      by (simp add: comp_def)
  next
    case False
    then have us: "dx_used env pn dx = (Err PacketNumberOverlap, dx)"
      by (simp add: dx_used_def not_le)
    from "2.IH"(2) [OF us [symmetric] refl _ "2.prems"(2) rest, of acc dx'] "2.prems"(1) False
    show ?thesis by (simp add: us)
  qed
qed

section \<open>Decryption\<close>

lemma dx_decrypt_Ok:
  assumes "dx_decrypt env pn hdr (dx, data) = (Ok n, dx', data')" and "dx_wf dx" and "pn_ok env pn"
  obtains "dx_wf dx'" and "invocations dx' = invocations dx - 1" and "invocations dx \<noteq> 0"
    and "min_pn dx \<le> pn" and "min_pn dx' = min_pn dx"
    and "unat (dx_next_pn dx') = max (Suc (unat pn)) (unat (dx_next_pn dx))"
proof -
  from assms(1) obtain dx1 where inv: "dx_invoked dx = (Ok (), dx1)"
    and us: "dx_used env pn dx1 = (Ok (), dx')"
    by (clarsimp simp: dx_decrypt_def rust_simps Let_def case_prod_beta)
  have dx1: "dx1 = dx\<lparr>invocations := invocations dx - 1\<rparr>" and pos: "invocations dx \<noteq> 0"
    using dx_invoked_Ok [OF inv] by auto
  then have "dx_wf dx1" using assms(2) by (simp add: dx_wf_def)
  with us assms(3) have "dx_wf dx'" by (rule dx_used_wf)
  from us assms(3) show thesis
    by (rule dx_used_effect) (use \<open>dx_wf dx'\<close> dx1 pos that in \<open>auto simp: dx_next_pn_def\<close>)
qed

text \<open>
  What an AEAD promises: a buffer of plaintext followed by room for the tag is sealed over its whole
  length, and opening the result with the same number and header gives the plaintext back.
\<close>

definition aead_opens :: "('k, 'a, 'h) crypto_env \<Rightarrow> 'a \<Rightarrow> 'a \<Rightarrow> bool" where
  "aead_opens env w r \<longleftrightarrow>
     (\<forall>pn aad buf n ct. aead_encrypt_in_place env w pn aad buf = (Ok n, ct) \<longrightarrow>
        unat n = length buf \<and> length ct = length buf \<and>
        (\<exists>m pt. aead_decrypt_in_place env r pn aad ct = (Ok m, pt) \<and>
           unat m + unat (aead_expansion env w) = length buf \<and>
           take (unat m) pt = take (unat m) buf))"

lemma dx_decrypt_enabled:
  assumes "dx_direction dx = Read" and "invocations dx \<noteq> 0" and "min_pn dx \<le> pn" and "pn \<noteq> - 1"
    and "unat (range_end hdr) \<le> length data"
    and "aead_decrypt_in_place env (dx_aead dx) pn (take (unat (range_end hdr)) data)
           (drop (unat (range_end hdr)) data) = (Ok m, pt)"
  obtains dx' where
    "dx_decrypt env pn hdr (dx, data) = (Ok m, dx', take (unat (range_end hdr)) data @ pt)"
proof -
  let ?dx = "dx\<lparr>invocations := invocations dx - 1\<rparr>"
  have inv: "dx_invoked dx = (Ok (), ?dx)"
    using assms(2) by (simp add: dx_invoked_def checked_sub_def one_le_word)
  obtain dx' where "dx_used env pn ?dx = (Ok (), dx')"
    using dx_used_enabled [of ?dx pn] assms(3,4) by auto
  with inv assms that show thesis
    by (simp add: dx_decrypt_def split_at_def from_crypto_def)
qed

lemma unprotect_protected:
  assumes "dx_encrypt env pn (mk_range 0 h) (tx, data) = (Ok n, tx', ct)" and "dx_wf tx"
    and "aead_opens env (dx_aead tx) (dx_aead rx)" and "dx_direction rx = Read"
    and "invocations rx \<noteq> 0" and "min_pn rx \<le> pn" and "pn \<noteq> - 1"
  shows "\<exists>m rx' pt. dx_decrypt env pn (mk_range 0 h) (rx, ct) = (Ok m, rx', pt) \<and>
     unat h + unat m + unat (dx_expansion env tx) = length data \<and>
     take (unat h + unat m) pt = take (unat h + unat m) data"
proof -
  have ok: "pn_ok env pn" using assms(7) by (simp add: pn_ok_def)
  note enc = dx_encrypt_Ok [OF assms(1,2) ok]
  have h: "unat h \<le> length data" by (rule enc) simp
  have hd: "take (unat h) ct = take (unat h) data" by (rule enc) simp
  have "aead_encrypt_in_place env (dx_aead tx) pn (take (unat h) data) (drop (unat h) data) =
      (Ok n, drop (unat h) ct)" by (rule enc) simp
  with assms(3) obtain m pt where n: "length (drop (unat h) ct) = length (drop (unat h) data)"
    and dec: "aead_decrypt_in_place env (dx_aead rx) pn (take (unat h) data) (drop (unat h) ct) = (Ok m, pt)"
    and m: "unat m + unat (aead_expansion env (dx_aead tx)) = length (drop (unat h) data)"
    and pt: "take (unat m) pt = take (unat m) (drop (unat h) data)"
    unfolding aead_opens_def by blast
  have hct: "unat h \<le> length ct"
    using hd h by (metis length_take min.absorb2 min.cobounded1)
  obtain rx' where "dx_decrypt env pn (mk_range 0 h) (rx, ct) = (Ok m, rx', take (unat h) ct @ pt)"
    using dx_decrypt_enabled [OF assms(4-7), of "mk_range 0 h" ct env m pt] hct dec hd by auto
  moreover have "take (unat h + unat m) (take (unat h) ct @ pt) = take (unat h + unat m) data"
    using h pt by (simp add: hd take_add)
  ultimately show ?thesis
    using m h by (auto simp: dx_expansion_def)
qed

section \<open>A debug build that does not panic computes what a release build computes\<close>

lemma dx_used_agrees [build_simps]:
  "agrees_st (dx_used (debug_build env) pn dx)
             (dx_used (release_build env) pn dx)"
  by (auto simp: dx_used_def Let_def intro!: build_simps)

lemma dx_continuation_agrees [build_simps]:
  "agrees_st (dx_continuation (debug_build env) dx prev)
             (dx_continuation (release_build env) dx prev)"
  by (auto simp: dx_continuation_def Let_def intro!: build_simps)

lemma limit_build [simp]: "limit (env\<lparr>debug_assertions := b\<rparr>) = limit env"
  by (simp add: limit_def fun_eq_iff)

lemma from_crypto_build [simp]: "from_crypto (env\<lparr>debug_assertions := b\<rparr>) = from_crypto env"
  by (simp add: from_crypto_def fun_eq_iff)

lemma dx_next_agrees [build_simps]:
  "agrees (dx_next (debug_build env) dx secret cipher)
          (dx_next (release_build env) dx secret cipher)"
  by (auto simp: dx_next_def Let_def intro!: build_simps)

lemma dx_adjust_agrees [build_simps]:
  "agrees (dx_adjust (debug_build env) n dx)
          (dx_adjust (release_build env) n dx)"
  by (auto simp: dx_adjust_def intro!: build_simps)

lemma dx_encrypt_agrees [build_simps]:
  "agrees_st (dx_encrypt (debug_build env) pn hdr st)
             (dx_encrypt (release_build env) pn hdr st)"
  by (cases st) (auto simp: dx_encrypt_def Let_def intro!: build_simps split: prod.split)

lemma dx_decrypt_agrees [build_simps]:
  "agrees_st (dx_decrypt (debug_build env) pn hdr st)
             (dx_decrypt (release_build env) pn hdr st)"
  by (cases st) (auto simp: dx_decrypt_def Let_def intro!: build_simps split: prod.split)

section \<open>A concrete instance\<close>

text \<open>
  An instance of the called code, so that the statements below can be evaluated: keys are lists of
  numbers, deriving a key from another prepends to it, and the AEAD leaves the bytes as they are and
  only accounts for a 16 byte tag. The header values are those of the TLS registries.
\<close>

definition sample_hdr :: headers where
  "sample_hdr name =
     (if name = ''SSL_LIBRARY_VERSION_TLS_1_3'' then 0x0304
      else if name = ''TLS_AES_128_GCM_SHA256'' then 0x1301
      else if name = ''TLS_AES_256_GCM_SHA384'' then 0x1302
      else if name = ''TLS_CHACHA20_POLY1305_SHA256'' then 0x1303
      else if name = ''ssl_ct_handshake'' then 22 else 0)"

definition sample_seal :: "bool \<Rightarrow> nat list \<Rightarrow> u64 \<Rightarrow> bytes \<Rightarrow> bytes \<Rightarrow> (nss_error, usize) result \<times> bytes" where
  "sample_seal sealing key pn aad buf =
     (if 16 \<le> length buf \<and> length buf < 2 ^ 64
      then (Ok (if sealing then len buf else len buf - 16), buf) else (Err (NssError 0), buf))"

definition sample_env :: "bool \<Rightarrow> (nat list, nat list, nat list) crypto_env" where
  "sample_env d =
     \<lparr>debug_assertions = d, nss_hdr = sample_hdr, from_crypto_error = CryptoError,
      version_values = [Version2, Version1, Draft29],
      label_prefix = (\<lambda>v. case v of Version2 \<Rightarrow> ''quicv2 '' | _ \<Rightarrow> ''quic ''),
      initial_salt = (\<lambda>v. case v of Version2 \<Rightarrow> [2] | _ \<Rightarrow> [1]),
      hkdf_import_key = (\<lambda>v b. Ok (map unat b)),
      hkdf_extract = (\<lambda>v c salt ikm. Ok (ikm @ (case salt of None \<Rightarrow> [] | Some s \<Rightarrow> s))),
      hkdf_expand_label = (\<lambda>v c key hash label. Ok (length label # key)),
      aead_new = (\<lambda>v c key prefix m. Ok key), aead_expansion = (\<lambda>_. 16),
      aead_encrypt_in_place = sample_seal True, aead_decrypt_in_place = sample_seal False,
      hp_extract = (\<lambda>v c key label. Ok key), hp_try_clone = Ok, hp_mask = (\<lambda>_ s. Ok s),
      hp_sample_size = 16\<rparr>"

lemma sample_env_sel [simp]:
  "debug_assertions (sample_env d) = d" "nss_hdr (sample_env d) = sample_hdr"
  "from_crypto_error (sample_env d) = CryptoError"
  "version_values (sample_env d) = [Version2, Version1, Draft29]"
  "hkdf_import_key (sample_env d) v b = Ok (map unat b)"
  "hkdf_extract (sample_env d) v c s k = Ok (k @ (case s of None \<Rightarrow> [] | Some s \<Rightarrow> s))"
  "hkdf_expand_label (sample_env d) v c k h l = Ok (length l # k)"
  "aead_new (sample_env d) v c k p m = Ok k" "aead_expansion (sample_env d) a = 16"
  "aead_encrypt_in_place (sample_env d) = sample_seal True"
  "aead_decrypt_in_place (sample_env d) = sample_seal False"
  "hp_extract (sample_env d) v c k l = Ok k" "hp_try_clone (sample_env d) hk = Ok hk"
  by (simp_all add: sample_env_def)

lemma sample_hdr_sel [simp]:
  "TLS_AES_128_GCM_SHA256 sample_hdr = 0x1301" "TLS_AES_256_GCM_SHA384 sample_hdr = 0x1302"
  "TLS_CHACHA20_POLY1305_SHA256 sample_hdr = 0x1303" "TLS_VERSION_1_3 sample_hdr = 0x0304"
  "TLS_CT_HANDSHAKE sample_hdr = 22"
  by (simp_all add: sample_hdr_def TLS_AES_128_GCM_SHA256_def TLS_AES_256_GCM_SHA384_def
      TLS_CHACHA20_POLY1305_SHA256_def TLS_VERSION_1_3_def TLS_CT_HANDSHAKE_def remap16_def remap8_def)

definition sample_dx :: "direction \<Rightarrow> (nat list, nat list) dx" where
  "sample_dx dir =
     \<lparr>dx_version = Version1, dx_direction = dir, dx_epoch = 3, dx_aead = [7], dx_hpkey = [7],
      used_pn = mk_range 0 0, min_pn = 0,
      invocations = (case dir of Read \<Rightarrow> push_bit 52 1 | Write \<Rightarrow> push_bit 28 1),
      largest_packet_len = 2048\<rparr>"

lemma sample_dx_new: "dx_new (sample_env d) Version1 dir ApplicationData [7] 0x1301 0 = Ok (sample_dx dir)"
  by (cases dir)
    (simp_all add: dx_new_def sample_dx_def from_crypto_def limit_def
      INITIAL_LARGEST_PACKET_LEN_def push_bit_eq_mult)

lemmas dx_eval =
  dx_encrypt_def dx_decrypt_def sample_dx_def len_def range_len_def sub_w_def
  dx_adjust_def dx_invoked_def checked_sub_def split_at_def slice_def sample_seal_def from_crypto_def
  dx_used_def add_w_def dx_next_pn_def dx_body_len_def dx_expansion_def

lemma sample_run:
  "fst (seal_run (sample_env d) [(0, mk_range 0 4, replicate 30 5), (1, mk_range 2 6, replicate 40 5)]
     (sample_dx Write)) = [(0, 10), (1, 20)]"
  by (simp add: dx_eval)

lemma sample_aead_opens: "aead_opens (sample_env d) w r"
  by (auto simp: aead_opens_def sample_seal_def len_def unat_sub word_le_nat_alt
      unat_of_nat)

section \<open>Properties\<close>

text \<open>
  C5. However many packets a caller protects with one AES-GCM write key, and whatever their sizes,
  \<^verbatim>\<open>encrypt\<close> accepts at most 2^28 of them and protects at most 2^39 bytes, a packet below 2048 bytes
  counted as 2048: the invocation limit for 2^11 byte packets, scaled down when packets grow.
\<close>

theorem write_key_byte_limit:
  assumes "dx_new env version Write epoch secret cipher pn0 = Ok dx"
    and "cipher = TLS_AES_128_GCM_SHA256 (nss_hdr env) \<or> cipher = TLS_AES_256_GCM_SHA384 (nss_hdr env)"
    and "seal_run env ps dx = (log, dx')" and "\<forall>p \<in> set ps. pn_ok env (fst p)"
  shows "sealed_bytes log \<le> 2 ^ 39 \<and> length log \<le> 2 ^ 28"
proof -
  have "invocations dx = push_bit 28 1" and l: "largest_packet_len dx = INITIAL_LARGEST_PACKET_LEN"
    using dx_new_Ok(6,7) [OF assms(1)] assms(2) by (auto simp: limit_def Let_def split: if_splits)
  moreover have "bit_len 2047 = 11"
    by (simp add: bit_len.simps)
  ultimately have "dx_budget dx = 2 ^ 39"
    by (simp add: dx_budget_def INITIAL_LARGEST_PACKET_LEN_def push_bit_eq_mult)
  then have total: "sealed_bytes log \<le> 2 ^ 39"
    using seal_run_budget [OF assms(3) dx_new_wf [OF assms(1)] assms(4)] by simp
  have "2048 * length log \<le> sealed_bytes log"
    by (induction log) (auto simp: sealed_bytes_def)
  with total show ?thesis by simp
qed

theorem write_key_byte_limit_witness:
  "\<exists>log dx'. seal_run (sample_env False)
       [(0, mk_range 0 4, replicate 30 5), (1, mk_range 2 6, replicate 40 5)] (sample_dx Write) = (log, dx') \<and>
     log = [(0, 10), (1, 20)] \<and> sealed_bytes log \<le> 2 ^ 39 \<and> length log \<le> 2 ^ 28"
proof -
  let ?ps = "[(0, mk_range 0 4, replicate 30 5), (1, mk_range 2 6, replicate 40 5)] ::
    (u64 \<times> usize range \<times> bytes) list"
  obtain log dx' where run: "seal_run (sample_env False) ?ps (sample_dx Write) = (log, dx')"
    by (metis surj_pair)
  have "(0x1301 :: cipher) = TLS_AES_128_GCM_SHA256 (nss_hdr (sample_env False))"
    by simp
  then have "sealed_bytes log \<le> 2 ^ 39 \<and> length log \<le> 2 ^ 28"
    using write_key_byte_limit [OF sample_dx_new _ run] by (simp add: pn_ok_def)
  with run sample_run [of False] show ?thesis by simp
qed

text \<open>
  C23. In a build with debug assertions, the packets accepted by \<^verbatim>\<open>encrypt\<close> under one key carry
  consecutive packet numbers from \<^verbatim>\<open>next_pn\<close> on, so no AEAD nonce is used twice under the key.
\<close>

theorem debug_nonces_consecutive:
  assumes "dbg env" and "dx_wf dx" and "seal_run env ps dx = (log, dx')"
  shows "map (unat \<circ> fst) log = [unat (dx_next_pn dx) ..< unat (dx_next_pn dx) + length log] \<and>
     distinct (map fst log)"
proof -
  have eq: "map (unat \<circ> fst) log = [unat (dx_next_pn dx) ..< unat (dx_next_pn dx) + length log]"
    by (rule seal_run_consecutive [OF assms(3,2,1)])
  then have "distinct (map unat (map fst log))" by simp
  with eq show ?thesis by (simp only: distinct_map)
qed

theorem debug_nonces_consecutive_witness:
  "\<exists>log dx'. seal_run (sample_env True)
       [(0, mk_range 0 4, replicate 30 5), (1, mk_range 2 6, replicate 40 5)] (sample_dx Write) = (log, dx') \<and>
     log = [(0, 10), (1, 20)] \<and>
     map (unat \<circ> fst) log = [unat (dx_next_pn (sample_dx Write)) ..<
       unat (dx_next_pn (sample_dx Write)) + length log] \<and> distinct (map fst log)"
proof -
  have "dbg (sample_env True)" "dx_wf (sample_dx Write)"
    by (simp_all add: sample_dx_def dx_wf_def INITIAL_LARGEST_PACKET_LEN_def
        push_bit_eq_mult)
  note dn = debug_nonces_consecutive [OF this]
  let ?ps = "[(0, mk_range 0 4, replicate 30 5), (1, mk_range 2 6, replicate 40 5)] ::
    (u64 \<times> usize range \<times> bytes) list"
  obtain log dx' where run: "seal_run (sample_env True) ?ps (sample_dx Write) = (log, dx')"
    by (metis surj_pair)
  have "log = [(0, 10), (1, 20)]" using run sample_run [of True] by simp
  with dn [OF run] run show ?thesis by blast
qed

text \<open>
  C18. A packet protected by \<^verbatim>\<open>encrypt\<close> is opened by \<^verbatim>\<open>decrypt\<close> at a receiver whose key is the
  matching one, has invocations left and has not closed its window above the packet number: header
  and plaintext come back, and the lengths add up.
\<close>

theorem protect_unprotect:
  assumes "dx_encrypt env pn (mk_range 0 h) (tx, data) = (Ok n, tx', ct)" and "dx_wf tx"
    and "aead_opens env (dx_aead tx) (dx_aead rx)" and "dx_direction rx = Read"
    and "invocations rx \<noteq> 0" and "min_pn rx \<le> pn" and "pn \<noteq> - 1"
  shows "\<exists>m rx' pt. dx_decrypt env pn (mk_range 0 h) (rx, ct) = (Ok m, rx', pt) \<and>
     unat h + unat m + unat (dx_expansion env tx) = length data \<and>
     take (unat h + unat m) pt = take (unat h + unat m) data"
  using assms by (rule unprotect_protected)

theorem protect_unprotect_witness:
  "\<exists>n tx' ct m rx' pt.
     dx_encrypt (sample_env True) 0 (mk_range 0 4) (sample_dx Write, replicate 30 5) = (Ok n, tx', ct) \<and>
     dx_decrypt (sample_env True) 0 (mk_range 0 4) (sample_dx Read, ct) = (Ok m, rx', pt) \<and>
     unat m = 10 \<and> take 14 pt = replicate 14 5"
proof -
  obtain tx' ct where enc:
    "dx_encrypt (sample_env True) 0 (mk_range 0 4) (sample_dx Write, replicate 30 5) = (Ok 26, tx', ct)"
    by (simp add: dx_eval)
  have wf: "dx_wf (sample_dx Write)"
    by (simp add: sample_dx_def dx_wf_def INITIAL_LARGEST_PACKET_LEN_def push_bit_eq_mult)
  have rx: "dx_direction (sample_dx Read) = Read" "invocations (sample_dx Read) \<noteq> 0"
    "min_pn (sample_dx Read) \<le> 0" "(0 :: u64) \<noteq> - 1"
    and exp: "dx_expansion (sample_env True) (sample_dx Write) = 16"
    by (simp_all add: sample_dx_def dx_expansion_def)
  from protect_unprotect [OF enc wf sample_aead_opens rx]
  obtain m rx' pt where "dx_decrypt (sample_env True) 0 (mk_range 0 4) (sample_dx Read, ct) = (Ok m, rx', pt)"
    and "4 + unat m + 16 = 30" and "take (4 + unat m) pt = take (4 + unat m) (replicate 30 (5 :: u8))"
    by (auto simp: exp)
  moreover from this have "unat m = 10" by simp
  ultimately show ?thesis using enc by (auto simp: min_def)
qed

text \<open>
  Whatever packet numbers arrive, \<^verbatim>\<open>used\<close> accepts exactly those not below \<^verbatim>\<open>min_pn\<close>, in any order
  and however often, and afterwards \<^verbatim>\<open>next_pn\<close> is one more than the largest number accepted, or what
  it was if that is larger; the window stays well formed.
\<close>

lemma used_window:
  assumes "used_run env pns dx = (acc, dx')" and "dx_wf dx" and "- 1 \<notin> set pns"
  shows "acc = filter (\<lambda>pn. min_pn dx \<le> pn) pns \<and> dx_wf dx' \<and>
     unat (dx_next_pn dx') = fold max (map (Suc \<circ> unat) acc) (unat (dx_next_pn dx))"
  using used_run_window [OF assms] by simp

lemma used_window_example:
  "fst (used_run (sample_env True) [9, 3, 9, 5] ((sample_dx Read)\<lparr>used_pn := mk_range 4 4, min_pn := 4\<rparr>)) =
     [9, 9, 5] \<and>
   dx_next_pn (snd (used_run (sample_env True) [9, 3, 9, 5]
     ((sample_dx Read)\<lparr>used_pn := mk_range 4 4, min_pn := 4\<rparr>))) = 10"
proof -
  let ?dx = "(sample_dx Read)\<lparr>used_pn := mk_range 4 4, min_pn := 4\<rparr>"
  have wf: "dx_wf ?dx" and m: "min_pn ?dx = 4" and n: "dx_next_pn ?dx = 4"
    by (simp_all add: sample_dx_def dx_wf_def INITIAL_LARGEST_PACKET_LEN_def push_bit_eq_mult
        dx_next_pn_def)
  obtain acc dx' where run: "used_run (sample_env True) [9, 3, 9, 5] ?dx = (acc, dx')"
    by (metis surj_pair)
  have acc: "acc = [9, 9, 5]" and next_pn: "unat (dx_next_pn dx') = 10"
    using used_window [OF run wf] by (simp_all add: m n)
  have "dx_next_pn dx' = 10"
    using next_pn by (simp add: word_unat_eq_iff)
  with run acc show ?thesis by (simp del: used_run.simps)
qed


text \<open>
  \<^verbatim>\<open>needs_update\<close> is documented to hold when exactly one packet was processed. It still holds after
  the same packet number was processed any number of times more.
\<close>

lemma needs_update_repeats:
  assumes "dx_needs_update env dx = Ok True" and "range_start (used_pn dx) = pn" and "min_pn dx \<le> pn"
    and "pn \<noteq> - 1"
  shows "dx_used env pn dx = (Ok (), dx)"
proof -
  have "pn + 1 = range_end (used_pn dx)" "pn \<noteq> range_end (used_pn dx)"
    using assms by (auto simp: dx_needs_update_def rust_simps add_w_def split: if_splits)
  moreover have "unat pn + unat (1 :: u64) < 2 ^ 64"
    using unat_plus_one [OF assms(4)] unsigned_less [where ?'a = nat and w = "pn + 1"] by simp
  ultimately show ?thesis
    using assms(2,3) by (simp add: dx_used_def add_w_def)
qed

lemma needs_update_repeats_witness:
  "dx_used (sample_env True) 4 ((sample_dx Read)\<lparr>dx_epoch := 4, used_pn := mk_range 4 5\<rparr>) =
     (Ok (), (sample_dx Read)\<lparr>dx_epoch := 4, used_pn := mk_range 4 5\<rparr>)"
  by (rule needs_update_repeats) (simp_all add: dx_needs_update_def add_w_def sample_dx_def)

end
