(* ===== verification/Crypto_States.thy ===== *)
theory Crypto_States
  imports Crypto_Dx
begin

text \<open>
  \<^verbatim>\<open>CryptoDxAppData\<close> and \<^verbatim>\<open>CryptoStates\<close> of \<^verbatim>\<open>neqo-transport/src/crypto.rs\<close>: all keys of a
  connection, how one is chosen for a packet, how they are installed and discarded, and the key
  update. A function that returns a mutable reference to one of the stored key states returns its
  \<open>place\<close>, to be read with \<open>deref\<close> and written with \<open>assign\<close>.
\<close>

section \<open>Application data keys\<close>

record ('k, 'a, 'h) app_data =
  app_dx :: "('a, 'h) dx"
  app_cipher :: cipher
  app_next_secret :: 'k

definition update_secret ::
  "('k, 'a, 'h) crypto_env \<Rightarrow> cipher \<Rightarrow> 'k \<Rightarrow> (transport_error, 'k) result" where
  "update_secret env cipher secret =
     from_crypto env
       (hkdf_expand_label env (TLS_VERSION_1_3 (nss_hdr env)) cipher secret [] ''quic ku'')"

definition app_new ::
  "('k, 'a, 'h) crypto_env \<Rightarrow> version \<Rightarrow> direction \<Rightarrow> 'k \<Rightarrow> cipher \<Rightarrow>
   (transport_error, ('k, 'a, 'h) app_data) result" where
  "app_new env version dir secret cipher =
     bind_res (dx_new env version dir ApplicationData secret cipher 0) (\<lambda>dx.
     bind_res (update_secret env cipher secret) (\<lambda>next_secret.
       Ok \<lparr>app_dx = dx, app_cipher = cipher, app_next_secret = next_secret\<rparr>))"

definition app_next ::
  "('k, 'a, 'h) crypto_env \<Rightarrow> ('k, 'a, 'h) app_data \<Rightarrow>
   (transport_error, ('k, 'a, 'h) app_data) result" where
  "app_next env app =
     (if dx_epoch (app_dx app) = - 1 then Err KeysExhausted
      else
        bind_res (update_secret env (app_cipher app) (app_next_secret app)) (\<lambda>next_secret.
        bind_res (dx_next env (app_dx app) (app_next_secret app) (app_cipher app)) (\<lambda>dx.
          Ok \<lparr>app_dx = dx, app_cipher = app_cipher app, app_next_secret = next_secret\<rparr>)))"

definition app_epoch :: "('k, 'a, 'h) app_data \<Rightarrow> usize" where
  "app_epoch app = dx_epoch (app_dx app)"

section \<open>All keys of a connection\<close>

record ('a, 'h) crypto_state =
  cs_tx :: "('a, 'h) dx"
  cs_rx :: "('a, 'h) dx"

record ('k, 'a, 'h) crypto_states =
  initials :: "version \<Rightarrow> ('a, 'h) crypto_state option"
  handshake_keys :: "('a, 'h) crypto_state option"
  zero_rtt :: "('a, 'h) dx option"
  states_cipher :: cipher
  app_write :: "('k, 'a, 'h) app_data option"
  app_read :: "('k, 'a, 'h) app_data option"
  app_read_next :: "('k, 'a, 'h) app_data option"
  read_update_time :: "instant option"

definition crypto_states_default :: "('k, 'a, 'h) crypto_states" where
  "crypto_states_default =
     \<lparr>initials = (\<lambda>_. None), handshake_keys = None, zero_rtt = None, states_cipher = 0,
      app_write = None, app_read = None, app_read_next = None, read_update_time = None\<rparr>"

definition initials_is_empty :: "('k, 'a, 'h) crypto_env \<Rightarrow> ('k, 'a, 'h) crypto_states \<Rightarrow> bool" where
  "initials_is_empty env st \<longleftrightarrow>
     length (filter (\<lambda>v. initials st v \<noteq> None) (version_values env)) = 0"

subsection \<open>Places\<close>

datatype place =
    InitialTx version | InitialRx version | HandshakeTx | HandshakeRx | ZeroRttKeys
  | AppWrite | AppRead | AppReadNext

fun deref :: "place \<Rightarrow> ('k, 'a, 'h) crypto_states \<Rightarrow> ('a, 'h) dx option" where
  "deref (InitialTx v) st = map_option cs_tx (initials st v)"
| "deref (InitialRx v) st = map_option cs_rx (initials st v)"
| "deref HandshakeTx st = map_option cs_tx (handshake_keys st)"
| "deref HandshakeRx st = map_option cs_rx (handshake_keys st)"
| "deref ZeroRttKeys st = zero_rtt st"
| "deref AppWrite st = map_option app_dx (app_write st)"
| "deref AppRead st = map_option app_dx (app_read st)"
| "deref AppReadNext st = map_option app_dx (app_read_next st)"

fun assign :: "place \<Rightarrow> ('a, 'h) dx \<Rightarrow> ('k, 'a, 'h) crypto_states \<Rightarrow> ('k, 'a, 'h) crypto_states" where
  "assign (InitialTx v) dx st =
     st\<lparr>initials := (initials st)(v := map_option (cs_tx_update (\<lambda>_. dx)) (initials st v))\<rparr>"
| "assign (InitialRx v) dx st =
     st\<lparr>initials := (initials st)(v := map_option (cs_rx_update (\<lambda>_. dx)) (initials st v))\<rparr>"
| "assign HandshakeTx dx st =
     st\<lparr>handshake_keys := map_option (cs_tx_update (\<lambda>_. dx)) (handshake_keys st)\<rparr>"
| "assign HandshakeRx dx st =
     st\<lparr>handshake_keys := map_option (cs_rx_update (\<lambda>_. dx)) (handshake_keys st)\<rparr>"
| "assign ZeroRttKeys dx st = st\<lparr>zero_rtt := map_option (\<lambda>_. dx) (zero_rtt st)\<rparr>"
| "assign AppWrite dx st = st\<lparr>app_write := map_option (app_dx_update (\<lambda>_. dx)) (app_write st)\<rparr>"
| "assign AppRead dx st = st\<lparr>app_read := map_option (app_dx_update (\<lambda>_. dx)) (app_read st)\<rparr>"
| "assign AppReadNext dx st =
     st\<lparr>app_read_next := map_option (app_dx_update (\<lambda>_. dx)) (app_read_next st)\<rparr>"

text \<open>A reference into a stored option: its place, if there is something there.\<close>

definition as_mut :: "place \<Rightarrow> ('k, 'a, 'h) crypto_states \<Rightarrow> place option" where
  "as_mut p st = map_option (\<lambda>_. p) (deref p st)"

definition filter_mut ::
  "(('a, 'h) dx \<Rightarrow> bool) \<Rightarrow> place \<Rightarrow> ('k, 'a, 'h) crypto_states \<Rightarrow> place option" where
  "filter_mut P p st = map_option (\<lambda>_. p) (filter_option P (deref p st))"

subsection \<open>Choosing keys\<close>

fun tx_mut :: "('k, 'a, 'h) crypto_states \<Rightarrow> version \<Rightarrow> epoch \<Rightarrow> place option" where
  "tx_mut st version Initial = as_mut (InitialTx version) st"
| "tx_mut st version ZeroRtt = filter_mut (\<lambda>z. dx_direction z = Write) ZeroRttKeys st"
| "tx_mut st version Handshake = as_mut HandshakeTx st"
| "tx_mut st version ApplicationData = as_mut AppWrite st"

fun select_tx_mut ::
  "('k, 'a, 'h) crypto_states \<Rightarrow> version \<Rightarrow> packet_number_space \<Rightarrow> (epoch \<times> place) option" where
  "select_tx_mut st version InitialSpace = map_option (\<lambda>p. (Initial, p)) (tx_mut st version Initial)"
| "select_tx_mut st version HandshakeSpace =
     map_option (\<lambda>p. (Handshake, p)) (tx_mut st version Handshake)"
| "select_tx_mut st version ApplicationDataSpace =
     (case app_write st of
        Some app \<Rightarrow> Some (ApplicationData, AppWrite)
      | None \<Rightarrow> map_option (\<lambda>p. (ZeroRtt, p)) (as_mut ZeroRttKeys st))"

fun tx :: "('k, 'a, 'h) crypto_states \<Rightarrow> version \<Rightarrow> epoch \<Rightarrow> ('a, 'h) dx option" where
  "tx st version Initial = map_option cs_tx (initials st version)"
| "tx st version ZeroRtt = filter_option (\<lambda>z. dx_direction z = Write) (zero_rtt st)"
| "tx st version Handshake = map_option cs_tx (handshake_keys st)"
| "tx st version ApplicationData = map_option app_dx (app_write st)"

fun select_tx ::
  "('k, 'a, 'h) crypto_states \<Rightarrow> version \<Rightarrow> packet_number_space \<Rightarrow> (epoch \<times> ('a, 'h) dx) option" where
  "select_tx st version InitialSpace = map_option (\<lambda>dx. (Initial, dx)) (tx st version Initial)"
| "select_tx st version HandshakeSpace = map_option (\<lambda>dx. (Handshake, dx)) (tx st version Handshake)"
| "select_tx st version ApplicationDataSpace =
     (case app_write st of
        None \<Rightarrow> map_option (\<lambda>dx. (ZeroRtt, dx)) (zero_rtt st)
      | Some app \<Rightarrow> Some (ApplicationData, app_dx app))"

fun rx :: "('k, 'a, 'h) crypto_states \<Rightarrow> version \<Rightarrow> epoch \<Rightarrow> bool \<Rightarrow> place option" where
  "rx st version Initial key_phase = as_mut (InitialRx version) st"
| "rx st version ZeroRtt key_phase = filter_mut (\<lambda>z. dx_direction z = Read) ZeroRttKeys st"
| "rx st version Handshake key_phase = as_mut HandshakeRx st"
| "rx st version ApplicationData key_phase =
     xor_option (filter_mut (\<lambda>dx. dx_key_phase dx = key_phase) AppRead st)
                (filter_mut (\<lambda>dx. dx_key_phase dx = key_phase) AppReadNext st)"

definition maybe_continue_initial_rx ::
  "('k, 'a, 'h) crypto_env \<Rightarrow> version \<Rightarrow> ('k, 'a, 'h) crypto_states \<Rightarrow>
   (transport_error, unit) result \<times> ('k, 'a, 'h) crypto_states" where
  "maybe_continue_initial_rx env version st =
     (case initials st version of
        None \<Rightarrow> (Ok (), st)
      | Some dx \<Rightarrow>
          if dx_next_pn (cs_rx dx) \<noteq> 0 then (Ok (), st)
          else
            (case find (\<lambda>k. case initials st k of None \<Rightarrow> False | Some z \<Rightarrow> dx_next_pn (cs_rx z) > 0)
                    (version_values env) of
               None \<Rightarrow> (Ok (), st)
             | Some other \<Rightarrow>
                 try_st (debug_assert (dbg env) (version \<noteq> other)) st (\<lambda>_.
                   (case (initials (st\<lparr>initials := (initials st)(version := None)\<rparr>) other) of
                      None \<Rightarrow> (Ok (), st)
                    | Some prev \<Rightarrow>
                        bind_st (ignore_err (dx_continuation env (cs_rx dx) (cs_rx prev)))
                          (\<lambda>_ rx'. (Ok (), st\<lparr>initials := (initials st)(version \<mapsto> dx\<lparr>cs_rx := rx'\<rparr>)\<rparr>))
                          (\<lambda>_. st\<lparr>initials := (initials st)(version := None)\<rparr>)))))"

definition rx_hp ::
  "('k, 'a, 'h) crypto_env \<Rightarrow> version \<Rightarrow> epoch \<Rightarrow> ('k, 'a, 'h) crypto_states \<Rightarrow>
   (transport_error, place option) result \<times> ('k, 'a, 'h) crypto_states" where
  "rx_hp env version epoch st =
     (case epoch of
        ApplicationData \<Rightarrow> (Ok (as_mut AppRead st), st)
      | Initial \<Rightarrow>
          bind_st (maybe_continue_initial_rx env version st) (\<lambda>_ st. (Ok (rx st version epoch False), st)) id
      | _ \<Rightarrow> (Ok (rx st version epoch False), st))"

fun rx_pending :: "('k, 'a, 'h) crypto_env \<Rightarrow> ('k, 'a, 'h) crypto_states \<Rightarrow> epoch \<Rightarrow> bool" where
  "rx_pending env st Initial = False"
| "rx_pending env st ZeroRtt = False"
| "rx_pending env st Handshake = (handshake_keys st = None \<and> \<not> initials_is_empty env st)"
| "rx_pending env st ApplicationData = (app_read st = None)"

subsection \<open>Initial keys\<close>

text \<open>The first packet number of the client's Initial packets, from two random bytes.\<close>

definition first_pn :: "bool \<Rightarrow> u8 \<times> u8 \<Rightarrow> u64" where
  "first_pn randomize_first_pn r =
     (if randomize_first_pn
      then ucast (fst r AND 0x1f) + push_bit 5 (ucast (saturating_sub (snd r) 224)) + 1
      else 0)"

definition init_labels :: "role \<Rightarrow> string \<times> string" where
  "init_labels role =
     (case role of Client \<Rightarrow> (''client in'', ''server in'') | Server \<Rightarrow> (''server in'', ''client in''))"

text \<open>The body of the loop of \<^verbatim>\<open>init\<close>, for one version.\<close>

definition init_version ::
  "('k, 'a, 'h) crypto_env \<Rightarrow> string \<times> string \<Rightarrow> bytes \<Rightarrow> u64 \<Rightarrow> version \<Rightarrow>
   ('k, 'a, 'h) crypto_states \<Rightarrow> (transport_error, unit) result \<times> ('k, 'a, 'h) crypto_states" where
  "init_version env labels dcid pn0 v st =
     try_st (dx_new_initial env v Write (fst labels) dcid pn0) st (\<lambda>tx.
     try_st (dx_new_initial env v Read (snd labels) dcid 0) st (\<lambda>rx.
       (case initials st v of
          None \<Rightarrow> (Ok (), st\<lparr>initials := (initials st)(v \<mapsto> \<lparr>cs_tx = tx, cs_rx = rx\<rparr>)\<rparr>)
        | Some prev \<Rightarrow>
            bind_st (dx_continuation env rx (cs_rx prev)) (\<lambda>_ rx.
            bind_st (dx_continuation env tx (cs_tx prev)) (\<lambda>_ tx.
              (Ok (), st\<lparr>initials := (initials st)(v \<mapsto> \<lparr>cs_tx = tx, cs_rx = rx\<rparr>)\<rparr>))
            (\<lambda>_. st)) (\<lambda>_. st))))"

fun init_versions ::
  "('k, 'a, 'h) crypto_env \<Rightarrow> string \<times> string \<Rightarrow> bytes \<Rightarrow> u64 \<Rightarrow> version list \<Rightarrow>
   ('k, 'a, 'h) crypto_states \<Rightarrow> (transport_error, unit) result \<times> ('k, 'a, 'h) crypto_states" where
  "init_versions env labels dcid pn0 [] st = (Ok (), st)"
| "init_versions env labels dcid pn0 (v # vs) st =
     bind_st (init_version env labels dcid pn0 v st) (\<lambda>_. init_versions env labels dcid pn0 vs) id"

definition states_init ::
  "('k, 'a, 'h) crypto_env \<Rightarrow> version list \<Rightarrow> role \<Rightarrow> bytes \<Rightarrow> bool \<Rightarrow> u8 \<times> u8 \<Rightarrow>
   ('k, 'a, 'h) crypto_states \<Rightarrow> (transport_error, unit) result \<times> ('k, 'a, 'h) crypto_states" where
  "states_init env versions role dcid randomize_first_pn r st =
     init_versions env (init_labels role) dcid (first_pn randomize_first_pn r) versions st"

definition init_server ::
  "('k, 'a, 'h) crypto_env \<Rightarrow> version \<Rightarrow> bytes \<Rightarrow> bool \<Rightarrow> u8 \<times> u8 \<Rightarrow>
   ('k, 'a, 'h) crypto_states \<Rightarrow> (transport_error, unit) result \<times> ('k, 'a, 'h) crypto_states" where
  "init_server env version dcid randomize_first_pn r st =
     (if initials st version = None then states_init env [version] Server dcid randomize_first_pn r st
      else (Ok (), st))"

text \<open>
  The keys of the original version are taken out first and put back last: an error in between
  returns without them.
\<close>

definition states_confirm_version ::
  "('k, 'a, 'h) crypto_env \<Rightarrow> version \<Rightarrow> version \<Rightarrow> ('k, 'a, 'h) crypto_states \<Rightarrow>
   (transport_error, unit) result \<times> ('k, 'a, 'h) crypto_states" where
  "states_confirm_version env orig confirmed st =
     (if orig = confirmed then (Ok (), st)
      else
        (case initials st orig of
           None \<Rightarrow> (Ok (), st)
         | Some prev \<Rightarrow>
             (let st1 = st\<lparr>initials := (initials st)(orig := None)\<rparr> in
              try_st (ok_or (initials st1 confirmed) VersionNegotiation) st1 (\<lambda>next.
              bind_st (dx_continuation env (cs_rx next) (cs_rx prev)) (\<lambda>_ rx.
              bind_st (dx_continuation env (cs_tx next) (cs_tx prev)) (\<lambda>_ tx.
                (Ok (), st1\<lparr>initials := (initials st1)
                   (confirmed \<mapsto> \<lparr>cs_tx = tx, cs_rx = rx\<rparr>, orig \<mapsto> prev)\<rparr>))
              (\<lambda>tx. st1\<lparr>initials := (initials st1)(confirmed \<mapsto> \<lparr>cs_tx = tx, cs_rx = rx\<rparr>)\<rparr>))
              (\<lambda>rx. st1\<lparr>initials := (initials st1)(confirmed \<mapsto> next\<lparr>cs_rx := rx\<rparr>)\<rparr>)))))"

subsection \<open>Installing and discarding keys\<close>

definition set_0rtt_keys ::
  "('k, 'a, 'h) crypto_env \<Rightarrow> version \<Rightarrow> direction \<Rightarrow> 'k \<Rightarrow> cipher \<Rightarrow>
   ('k, 'a, 'h) crypto_states \<Rightarrow> (transport_error, unit) result \<times> ('k, 'a, 'h) crypto_states" where
  "set_0rtt_keys env version dir secret cipher st =
     try_st (dx_new env version dir ZeroRtt secret cipher 0) st (\<lambda>dx.
       (Ok (), st\<lparr>zero_rtt := Some dx\<rparr>))"

fun states_discard ::
  "('k, 'a, 'h) crypto_env \<Rightarrow> packet_number_space \<Rightarrow> ('k, 'a, 'h) crypto_states \<Rightarrow>
   (transport_error, bool) result \<times> ('k, 'a, 'h) crypto_states" where
  "states_discard env InitialSpace st =
     (Ok (\<not> initials_is_empty env st), st\<lparr>initials := (\<lambda>_. None)\<rparr>)"
| "states_discard env HandshakeSpace st =
     (Ok (handshake_keys st \<noteq> None), st\<lparr>handshake_keys := None\<rparr>)"
| "states_discard env ApplicationDataSpace st = (Panic, st)"

definition discard_0rtt_keys ::
  "('k, 'a, 'h) crypto_states \<Rightarrow> (transport_error, unit) result \<times> ('k, 'a, 'h) crypto_states" where
  "discard_0rtt_keys st =
     try_st (assert_that (app_read st = None)) st (\<lambda>_. (Ok (), st\<lparr>zero_rtt := None\<rparr>))"

definition set_handshake_keys ::
  "('k, 'a, 'h) crypto_env \<Rightarrow> version \<Rightarrow> 'k \<Rightarrow> 'k \<Rightarrow> cipher \<Rightarrow>
   ('k, 'a, 'h) crypto_states \<Rightarrow> (transport_error, unit) result \<times> ('k, 'a, 'h) crypto_states" where
  "set_handshake_keys env version write_secret read_secret cipher st =
     (let st = st\<lparr>states_cipher := cipher\<rparr> in
      try_st (dx_new env version Write Handshake write_secret cipher 0) st (\<lambda>tx.
      try_st (dx_new env version Read Handshake read_secret cipher 0) st (\<lambda>rx.
        (Ok (), st\<lparr>handshake_keys := Some \<lparr>cs_tx = tx, cs_rx = rx\<rparr>\<rparr>))))"

definition set_application_write_key ::
  "('k, 'a, 'h) crypto_env \<Rightarrow> version \<Rightarrow> 'k \<Rightarrow>
   ('k, 'a, 'h) crypto_states \<Rightarrow> (transport_error, unit) result \<times> ('k, 'a, 'h) crypto_states" where
  "set_application_write_key env version secret st =
     try_st (debug_assert (dbg env) (app_write st = None)) st (\<lambda>_.
     try_st (debug_assert (dbg env) (states_cipher st \<noteq> 0)) st (\<lambda>_.
     try_st (app_new env version Write secret (states_cipher st)) st (\<lambda>app.
       (let done = (\<lambda>dx. st\<lparr>zero_rtt := None, app_write := Some (app\<lparr>app_dx := dx\<rparr>)\<rparr>) in
        (case zero_rtt st of
           Some z \<Rightarrow>
             if dx_direction z = Write
             then bind_st (dx_continuation env (app_dx app) z) (\<lambda>_ dx. (Ok (), done dx)) (\<lambda>_. st)
             else (Ok (), done (app_dx app))
         | None \<Rightarrow> (Ok (), done (app_dx app)))))))"

definition set_application_read_key ::
  "('k, 'a, 'h) crypto_env \<Rightarrow> version \<Rightarrow> 'k \<Rightarrow> instant \<Rightarrow>
   ('k, 'a, 'h) crypto_states \<Rightarrow> (transport_error, unit) result \<times> ('k, 'a, 'h) crypto_states" where
  "set_application_read_key env version secret expire_0rtt st =
     try_st (debug_assert (dbg env) (app_write st \<noteq> None)) st (\<lambda>_.
     try_st (debug_assert (dbg env) (app_read st = None)) st (\<lambda>_.
     try_st (app_new env version Read secret (states_cipher st)) st (\<lambda>app.
       (let done = (\<lambda>app st.
              try_st (app_next env app) st (\<lambda>next.
                (Ok (), st\<lparr>app_read_next := Some next, app_read := Some app\<rparr>))) in
        (case zero_rtt st of
           None \<Rightarrow> done app st
         | Some z \<Rightarrow>
             if dx_direction z = Read
             then bind_st (dx_continuation env (app_dx app) z)
                    (\<lambda>_ dx. done (app\<lparr>app_dx := dx\<rparr>) (st\<lparr>read_update_time := Some expire_0rtt\<rparr>)) (\<lambda>_. st)
             else done app (st\<lparr>read_update_time := Some expire_0rtt\<rparr>))))))"

subsection \<open>Key update\<close>

definition maybe_update_write ::
  "('k, 'a, 'h) crypto_env \<Rightarrow>
   ('k, 'a, 'h) crypto_states \<Rightarrow> (transport_error, bool) result \<times> ('k, 'a, 'h) crypto_states" where
  "maybe_update_write env st =
     try_st (debug_assert (dbg env) (read_update_time st = None)) st (\<lambda>_.
     try_st (ok_or (app_write st) Internal) st (\<lambda>write.
     try_st (ok_or (app_read st) Internal) st (\<lambda>read.
       if app_epoch write = app_epoch read
       then try_st (app_next env write) st (\<lambda>next. (Ok True, st\<lparr>app_write := Some next\<rparr>))
       else (Ok False, st))))"

definition initiate_key_update ::
  "('k, 'a, 'h) crypto_env \<Rightarrow> u64 option \<Rightarrow>
   ('k, 'a, 'h) crypto_states \<Rightarrow> (transport_error, unit) result \<times> ('k, 'a, 'h) crypto_states" where
  "initiate_key_update env largest_acknowledged st =
     try_st (ok_or (app_write st) Internal) st (\<lambda>write.
       if dx_can_update (app_dx write) largest_acknowledged \<and> read_update_time st = None
       then bind_st (maybe_update_write env st)
              (\<lambda>updated st. if updated then (Ok (), st) else (Err KeyUpdateBlocked, st)) id
       else (Err KeyUpdateBlocked, st))"

definition auto_update ::
  "('k, 'a, 'h) crypto_env \<Rightarrow>
   ('k, 'a, 'h) crypto_states \<Rightarrow> (transport_error, unit) result \<times> ('k, 'a, 'h) crypto_states" where
  "auto_update env st =
     (case app_write st of
        None \<Rightarrow> (Ok (), st)
      | Some app \<Rightarrow>
          try_st (dx_should_update env (app_dx app)) st (\<lambda>due.
            if due
            then bind_st (maybe_update_write env st)
                   (\<lambda>updated st. if updated then (Ok (), st) else (Err KeysExhausted, st)) id
            else (Ok (), st)))"

definition has_0rtt_read :: "('k, 'a, 'h) crypto_states \<Rightarrow> bool" where
  "has_0rtt_read st \<longleftrightarrow> (case zero_rtt st of None \<Rightarrow> False | Some z \<Rightarrow> dx_direction z = Read)"

definition key_update_received ::
  "('k, 'a, 'h) crypto_env \<Rightarrow> instant \<Rightarrow>
   ('k, 'a, 'h) crypto_states \<Rightarrow> (transport_error, unit) result \<times> ('k, 'a, 'h) crypto_states" where
  "key_update_received env expiration st =
     bind_st (maybe_update_write env st) (\<lambda>_ st.
       try_st (debug_assert (dbg env) ((read_update_time st \<noteq> None) = has_0rtt_read st)) st (\<lambda>_.
         (let st = (if has_0rtt_read st then st\<lparr>zero_rtt := None\<rparr> else st) in
          (Ok (), st\<lparr>read_update_time := Some expiration\<rparr>)))) id"

definition check_key_update ::
  "('k, 'a, 'h) crypto_env \<Rightarrow> instant \<Rightarrow>
   ('k, 'a, 'h) crypto_states \<Rightarrow> (transport_error, unit) result \<times> ('k, 'a, 'h) crypto_states" where
  "check_key_update env now st =
     (case read_update_time st of
        None \<Rightarrow> (Ok (), st)
      | Some expiry \<Rightarrow>
          if now \<ge> expiry then
            if has_0rtt_read st
            then (Ok (), st\<lparr>zero_rtt := None, read_update_time := None\<rparr>)
            else
              (let st = st\<lparr>app_read := app_read_next st, app_read_next := app_read st\<rparr> in
               try_st (ok_or (app_read st) Internal) st (\<lambda>read.
               try_st (app_next env read) st (\<lambda>next.
                 (Ok (), st\<lparr>app_read_next := Some next, read_update_time := None\<rparr>))))
          else (Ok (), st))"

definition get_epochs :: "('k, 'a, 'h) crypto_states \<Rightarrow> usize option \<times> usize option" where
  "get_epochs st = (map_option app_epoch (app_write st), map_option app_epoch (app_read st))"

definition check_pn_overlap ::
  "('k, 'a, 'h) crypto_env \<Rightarrow>
   ('k, 'a, 'h) crypto_states \<Rightarrow> (transport_error, unit) result \<times> ('k, 'a, 'h) crypto_states" where
  "check_pn_overlap env st =
     (if read_update_time st = None then (Ok (), st)
      else
        try_st (ok_or (app_read_next st) Internal) st (\<lambda>next.
        try_st (ok_or (app_read st) Internal) st (\<lambda>read.
          bind_st (dx_continuation env (app_dx next) (app_dx read))
            (\<lambda>_ dx. (Ok (), st\<lparr>app_read_next := Some (next\<lparr>app_dx := dx\<rparr>)\<rparr>))
            (\<lambda>dx. st\<lparr>app_read_next := Some (next\<lparr>app_dx := dx\<rparr>)\<rparr>))))"

section \<open>References behave like memory\<close>

interpretation keys: store deref assign
proof (standard, goal_cases)
  case (1 p s u v)
  then show ?case by (cases p) (auto simp: map_option_case split: option.splits)
next
  case (2 p q v s)
  then show ?case by (cases p; cases q) (auto simp: map_option_case split: option.splits)
qed

lemma as_mut_Some [simp]: "as_mut p st = Some q \<longleftrightarrow> q = p \<and> deref p st \<noteq> None"
  by (auto simp: as_mut_def)

lemma filter_mut_Some [simp]:
  "filter_mut P p st = Some q \<longleftrightarrow> q = p \<and> (\<exists>dx. deref p st = Some dx \<and> P dx)"
  by (auto simp: filter_mut_def)

lemma filter_mut_None [simp]: "filter_mut P p st = None \<longleftrightarrow> (\<forall>dx. deref p st = Some dx \<longrightarrow> \<not> P dx)"
  by (cases "deref p st") (auto simp: filter_mut_def)

lemma tx_mut_deref: "map_option (\<lambda>p. deref p st) (tx_mut st version epoch) = map_option Some (tx st version epoch)"
  by (cases epoch)
    (auto simp: as_mut_def filter_mut_def filter_option_def map_option_case split: option.splits)

lemma select_tx_mut_deref:
  "map_option (\<lambda>(e, p). (e, deref p st)) (select_tx_mut st version space) =
   map_option (\<lambda>(e, dx). (e, Some dx)) (select_tx st version space)"
  by (cases space) (auto simp: as_mut_def option.map_comp comp_def map_option_case split: option.splits)

section \<open>What the installed keys look like\<close>

lemma app_new_Ok:
  assumes "app_new env version dir secret cipher = Ok app"
  shows "dx_new env version dir ApplicationData secret cipher 0 = Ok (app_dx app)"
    and "app_cipher app = cipher" and "update_secret env cipher secret = Ok (app_next_secret app)"
  using assms by (auto simp: app_new_def rust_simps)

lemma app_next_Ok:
  assumes "app_next env app = Ok app'"
  shows "dx_epoch (app_dx app) \<noteq> - 1"
    and "dx_next env (app_dx app) (app_next_secret app) (app_cipher app) = Ok (app_dx app')"
    and "app_cipher app' = app_cipher app"
    and "update_secret env (app_cipher app) (app_next_secret app) = Ok (app_next_secret app')"
  using assms by (auto simp: app_next_def rust_simps split: if_splits)

lemma app_next_epoch:
  assumes "app_next env app = Ok app'"
  shows "unat (app_epoch app') = Suc (unat (app_epoch app))"
  using add_one_Ok [OF dx_next_Ok(3) [OF app_next_Ok(2) [OF assms]]] app_next_Ok(1) [OF assms]
  by (simp add: app_epoch_def)

lemma app_new_epoch: "app_new env version dir secret cipher = Ok a \<Longrightarrow> app_epoch a = 3"
  using dx_new_Ok(3) [OF app_new_Ok(1)] by (fastforce simp: app_epoch_def)

lemma key_phase_parity: "dx_key_phase dx \<longleftrightarrow> even (unat (dx_epoch dx))"
proof -
  have "dx_epoch dx AND 1 = of_bool (odd (dx_epoch dx))"
    by (simp add: and_one_eq mod_2_eq_odd)
  moreover have "even (dx_epoch dx) \<longleftrightarrow> even (unat (dx_epoch dx))"
    by (metis bit_0 bit_unsigned_iff len_gt_0 possible_bit_nat)
  ultimately show ?thesis by (simp add: dx_key_phase_def)
qed

section \<open>The two builds agree\<close>

lemma keys_build [simp]:
  "dx_new (env\<lparr>debug_assertions := b\<rparr>) = dx_new env"
  "dx_new_initial (env\<lparr>debug_assertions := b\<rparr>) = dx_new_initial env"
  "update_secret (env\<lparr>debug_assertions := b\<rparr>) = update_secret env"
  "app_new (env\<lparr>debug_assertions := b\<rparr>) = app_new env"
  by (simp_all add: fun_eq_iff dx_new_def dx_new_initial_def update_secret_def app_new_def)

lemma app_next_agrees [build_simps]:
  "agrees (app_next (debug_build env) app) (app_next (release_build env) app)"
  by (auto simp: app_next_def intro!: build_simps)

lemma dx_should_update_agrees [build_simps]:
  "agrees (dx_should_update (debug_build env) dx) (dx_should_update (release_build env) dx)"
  by (auto simp: dx_should_update_def intro!: build_simps)

lemma maybe_update_write_agrees [build_simps]:
  "agrees_st (maybe_update_write (debug_build env) st) (maybe_update_write (release_build env) st)"
  by (auto simp: maybe_update_write_def intro!: build_simps)

lemma init_version_agrees [build_simps]:
  "agrees_st (init_version (debug_build env) labels dcid pn0 v st)
     (init_version (release_build env) labels dcid pn0 v st)"
  by (auto simp: init_version_def intro!: build_simps split: option.split)

lemma init_versions_agrees [build_simps]:
  "agrees_st (init_versions (debug_build env) labels dcid pn0 vs st)
     (init_versions (release_build env) labels dcid pn0 vs st)"
  by (induction vs arbitrary: st) (auto intro!: build_simps)

lemma maybe_continue_initial_rx_agrees [build_simps]:
  "agrees_st (maybe_continue_initial_rx (debug_build env) version st)
     (maybe_continue_initial_rx (release_build env) version st)"
  by (auto simp: maybe_continue_initial_rx_def intro!: build_simps split: option.split)


section \<open>A concrete instance\<close>

definition sample_app :: "direction \<Rightarrow> (nat list, nat list, nat list) app_data" where
  "sample_app dir = \<lparr>app_dx = sample_dx dir, app_cipher = 0x1301, app_next_secret = [7, 7]\<rparr>"

lemma sample_update_secret [simp]: "update_secret (sample_env d) cipher k = Ok (7 # k)"
  by (simp add: update_secret_def from_crypto_def)

lemma sample_app_new: "app_new (sample_env d) Version1 dir [7] 0x1301 = Ok (sample_app dir)"
  by (simp add: app_new_def sample_dx_new sample_app_def)

lemma sample_app_next:
  assumes "app_cipher a = 0x1301" and "unat (app_epoch a) < 100"
  shows "\<exists>a'. app_next (sample_env d) a = Ok a' \<and> app_cipher a' = 0x1301"
proof -
  have "dx_epoch (app_dx a) \<noteq> - 1"
    using assms(2) by (auto simp: app_epoch_def unsigned_minus_1_eq_mask mask_eq_exp_minus_1)
  moreover have "limit (sample_env d) Write 0x1301 = Ok (push_bit 28 1)"
    by (simp add: limit_def)
  ultimately show ?thesis
    using assms
    by (cases "dx_direction (app_dx a)")
      (auto simp: app_next_def dx_next_def from_crypto_def add_w_def app_epoch_def Let_def)
qed

section \<open>Initial keys\<close>

text \<open>
  The randomised first packet number is at least 1 and at most 1024, and it is at most 32 unless the
  second random byte is above 224, as it is one time in eight; without randomisation it is 0.
\<close>

lemma first_pn_bounds:
  "1 \<le> unat (first_pn True (a, b)) \<and> unat (first_pn True (a, b)) \<le> 1024 \<and>
   unat (first_pn True (a, b)) \<le> 32 + 32 * (unat b - 224) \<and> first_pn False (a, b) = 0"
proof -
  let ?y = "saturating_sub b 224"
  have "a AND 0x1f = take_bit 5 a"
    by (simp add: take_bit_eq_mask mask_eq_exp_minus_1)
  then have "unat (a AND 0x1f) = take_bit 5 (unat a)"
    by (simp only: unsigned_take_bit_eq)
  then have x: "unat (a AND 0x1f) < 32"
    using take_bit_nat_less_exp [of 5 "unat a"] by simp
  have y: "unat ?y = unat b - 224" by (simp add: saturating_sub_unat)
  moreover have "unat b < 256" using unsigned_less [of b] by simp
  ultimately have y32: "unat ?y < 32" by simp
  have uc: "unat (ucast w :: u64) = unat w" for w :: u8
    using order.strict_trans [of "unat w" "2 ^ 8" "2 ^ 64"] unsigned_less [where ?'a = nat and w = w]
    by (simp add: unsigned_ucast_eq unsigned_take_bit_eq take_bit_nat_eq_self_iff)
  have "unat (first_pn True (a, b)) = unat (a AND 0x1f) + 32 * unat ?y + 1"
    using x y32 by (simp add: first_pn_def unat_word_ariths uc push_bit_eq_mult)
  with x y y32 show ?thesis by (simp add: first_pn_def word_le_nat_alt)
qed


text \<open>
  Deriving Initial keys again for a version that already has them, after a Retry, continues the
  packet numbers in both directions: no number that was used or seen under the old keys is used or
  accepted under the new ones.
\<close>

lemma init_continues:
  assumes "states_init env [v] role dcid rand r st = (Ok u, st')" and "initials st v = Some p"
  shows "\<exists>s. initials st' v = Some s \<and>
     dx_next_pn (cs_tx s) = dx_next_pn (cs_tx p) \<and> min_pn (cs_tx s) = dx_next_pn (cs_tx p) \<and>
     dx_next_pn (cs_rx s) = dx_next_pn (cs_rx p) \<and> min_pn (cs_rx s) = dx_next_pn (cs_rx p)"
proof -
  from assms(1,2) obtain t q t' q' where
    new: "dx_new_initial env v Write (fst (init_labels role)) dcid (first_pn rand r) = Ok t"
      "dx_new_initial env v Read (snd (init_labels role)) dcid 0 = Ok q"
    and cont: "dx_continuation env q (cs_rx p) = (Ok (), q')" "dx_continuation env t (cs_tx p) = (Ok (), t')"
    and st': "st' = st\<lparr>initials := (initials st)(v \<mapsto> \<lparr>cs_tx = t', cs_rx = q'\<rparr>)\<rparr>"
    by (auto simp: states_init_def init_version_def rust_simps)
  have e: "range_is_empty (used_pn t)" "range_is_empty (used_pn q)"
    using new dx_new_initial_Ok(5) by (fastforce simp: range_is_empty_def)+
  have "dx_next_pn t' = dx_next_pn (cs_tx p) \<and> min_pn t' = dx_next_pn (cs_tx p)"
    using cont(2) by (rule dx_continuation_Ok) (simp add: e dx_next_pn_def)
  moreover have "dx_next_pn q' = dx_next_pn (cs_rx p) \<and> min_pn q' = dx_next_pn (cs_rx p)"
    using cont(1) by (rule dx_continuation_Ok) (simp add: e dx_next_pn_def)
  ultimately show ?thesis using st' by simp
qed

text \<open>
  C35. \<^verbatim>\<open>confirm_version\<close> for a version without Initial keys fails with \<^verbatim>\<open>VersionNegotiation\<close>, and the
  keys of the original version, taken out to satisfy the borrow checker, are not put back.
\<close>

theorem confirm_version_loses_keys:
  assumes "orig \<noteq> confirmed" and "initials st confirmed = None" and "initials st orig = Some p"
  shows "states_confirm_version env orig confirmed st =
     (Err VersionNegotiation, st\<lparr>initials := (initials st)(orig := None)\<rparr>)"
  using assms by (simp add: states_confirm_version_def)

theorem confirm_version_loses_keys_witness:
  "states_confirm_version (sample_env True) Version1 Version2
     (crypto_states_default\<lparr>initials := [Version1 \<mapsto> \<lparr>cs_tx = sample_dx Write, cs_rx = sample_dx Read\<rparr>]\<rparr>) =
   (Err VersionNegotiation, crypto_states_default)"
  using confirm_version_loses_keys [of Version1 Version2
      "crypto_states_default\<lparr>initials := [Version1 \<mapsto> \<lparr>cs_tx = sample_dx Write, cs_rx = sample_dx Read\<rparr>]\<rparr>"
      _ "sample_env True"]
  by (simp add: crypto_states_default_def)

lemma init_continues_example:
  "\<exists>st' s. states_init (sample_env True) [Version1] Client [1, 2] True (7, 0)
       (crypto_states_default\<lparr>initials := [Version1 \<mapsto>
          \<lparr>cs_tx = (sample_dx Write)\<lparr>used_pn := mk_range 3 9\<rparr>, cs_rx = sample_dx Read\<rparr>]\<rparr>) = (Ok (), st') \<and>
     initials st' Version1 = Some s \<and> dx_next_pn (cs_tx s) = 9 \<and> min_pn (cs_tx s) = 9"
proof -
  let ?p = "\<lparr>cs_tx = (sample_dx Write)\<lparr>used_pn := mk_range 3 9\<rparr>, cs_rx = sample_dx Read\<rparr>"
  let ?st = "crypto_states_default\<lparr>initials := [Version1 \<mapsto> ?p]\<rparr>"
  have new: "\<exists>dx. dx_new_initial (sample_env True) Version1 dir label dcid n = Ok dx \<and>
      range_is_empty (used_pn dx) \<and> dx_direction dx = dir" for dir label dcid n
    by (cases dir) (simp_all add: dx_new_initial_def dx_new_def from_crypto_def limit_def range_is_empty_def Let_def)
  have "\<exists>st'. states_init (sample_env True) [Version1] Client [1, 2] True (7, 0) ?st = (Ok (), st')"
    using new [of Write "fst (init_labels Client)" "[1, 2]" "first_pn True (7, 0)"]
      new [of Read "snd (init_labels Client)" "[1, 2]" 0]
    by (auto simp: states_init_def init_version_def dx_continuation_def sample_dx_def Let_def)
  then obtain st' where st': "states_init (sample_env True) [Version1] Client [1, 2] True (7, 0) ?st = (Ok (), st')"
    by blast
  have "\<exists>s. initials st' Version1 = Some s \<and> dx_next_pn (cs_tx s) = dx_next_pn (cs_tx ?p) \<and>
      min_pn (cs_tx s) = dx_next_pn (cs_tx ?p) \<and> dx_next_pn (cs_rx s) = dx_next_pn (cs_rx ?p) \<and>
      min_pn (cs_rx s) = dx_next_pn (cs_rx ?p)"
    by (rule init_continues [OF st']) simp
  with st' show ?thesis by (auto simp: dx_next_pn_def)
qed

end
