(* ===== verification/Keys_Invariant.thy ===== *)
theory Keys_Invariant
  imports Crypto_States
begin

text \<open>
  The invariant of \<^verbatim>\<open>CryptoStates\<close>. Every key is of the direction and epoch of the place it is kept in
  and its packet number window is well formed; the write keys, the read keys and the prepared next
  read keys are in step with each other. \<open>states_step\<close> has one rule for each operation a connection
  performs, and every rule keeps the invariant.
\<close>

section \<open>The invariant of the connection's keys\<close>

text \<open>The direction and epoch that belong to a place.\<close>

fun place_ok :: "place \<Rightarrow> ('a, 'h) dx \<Rightarrow> bool" where
  "place_ok (InitialTx v) dx \<longleftrightarrow> dx_direction dx = Write \<and> dx_epoch dx = 0"
| "place_ok (InitialRx v) dx \<longleftrightarrow> dx_direction dx = Read \<and> dx_epoch dx = 0"
| "place_ok HandshakeTx dx \<longleftrightarrow> dx_direction dx = Write \<and> dx_epoch dx = 2"
| "place_ok HandshakeRx dx \<longleftrightarrow> dx_direction dx = Read \<and> dx_epoch dx = 2"
| "place_ok ZeroRttKeys dx \<longleftrightarrow> dx_epoch dx = 1"
| "place_ok AppWrite dx \<longleftrightarrow> dx_direction dx = Write \<and> 3 \<le> dx_epoch dx"
| "place_ok AppRead dx \<longleftrightarrow> dx_direction dx = Read \<and> 3 \<le> dx_epoch dx"
| "place_ok AppReadNext dx \<longleftrightarrow> dx_direction dx = Read \<and> 3 < dx_epoch dx"

definition key_ok :: "place \<Rightarrow> ('a, 'h) dx \<Rightarrow> bool" where
  "key_ok p dx \<longleftrightarrow> place_ok p dx \<and> dx_wf dx"

definition keys_inv :: "('k, 'a, 'h) crypto_states \<Rightarrow> bool" where
  "keys_inv st \<longleftrightarrow> (\<forall>p dx. deref p st = Some dx \<longrightarrow> key_ok p dx)"

text \<open>
  The application keys: the prepared read keys are one epoch ahead of the read keys, the write keys
  are at one of these two epochs, and while the timer runs the peer's update has been followed,
  unless the timer is the one for the 0-RTT keys.
\<close>

definition epochs_inv :: "('k, 'a, 'h) crypto_states \<Rightarrow> bool" where
  "epochs_inv st \<longleftrightarrow>
     (app_read st = None \<longrightarrow> app_read_next st = None \<and> read_update_time st = None \<and>
        (\<forall>w. app_write st = Some w \<longrightarrow> app_epoch w = 3)) \<and>
     (\<forall>r. app_read st = Some r \<longrightarrow>
        (\<exists>n w. app_read_next st = Some n \<and> app_write st = Some w \<and>
           unat (app_epoch n) = Suc (unat (app_epoch r)) \<and>
           (app_epoch w = app_epoch r \<or> app_epoch w = app_epoch n) \<and>
           (read_update_time st \<noteq> None \<longrightarrow> has_0rtt_read st \<or> app_epoch w = app_epoch n))) \<and>
     (\<forall>z. zero_rtt st = Some z \<and> dx_direction z = Write \<longrightarrow> app_write st = None)"

definition states_inv :: "('k, 'a, 'h) crypto_states \<Rightarrow> bool" where
  "states_inv st \<longleftrightarrow> keys_inv st \<and> epochs_inv st"

text \<open>
  What a connection does with its keys: every operation, on every path that does not panic in a
  debug build. An operation other than \<^verbatim>\<open>encrypt\<close> and \<^verbatim>\<open>decrypt\<close> that fails ends the connection and
  makes no step. 0-RTT keys are for one direction: a client installs them before its application write
  keys, and nobody installs them after the application read keys.
\<close>

inductive states_step ::
  "('k, 'a, 'h) crypto_env \<Rightarrow> ('k, 'a, 'h) crypto_states \<Rightarrow> ('k, 'a, 'h) crypto_states \<Rightarrow> bool"
  for env where
  Init: "states_init (debug_build env) vs role dcid rand r st = (Ok u, st') \<Longrightarrow> states_step env st st'"
| Init_Server:
    "init_server (debug_build env) v dcid rand r st = (Ok u, st') \<Longrightarrow> states_step env st st'"
| Confirm_Version:
    "states_confirm_version (debug_build env) v v' st = (Ok u, st') \<Longrightarrow> states_step env st st'"
| Rx_Hp: "rx_hp (debug_build env) v ep st = (Ok p, st') \<Longrightarrow> states_step env st st'"
| Set_0rtt:
    "set_0rtt_keys (debug_build env) v dir secret cipher st = (Ok u, st') \<Longrightarrow> app_read st = None \<Longrightarrow>
     dir = Write \<longrightarrow> app_write st = None \<Longrightarrow> states_step env st st'"
| Discard: "states_discard (debug_build env) space st = (Ok d, st') \<Longrightarrow> states_step env st st'"
| Discard_0rtt: "discard_0rtt_keys st = (Ok u, st') \<Longrightarrow> states_step env st st'"
| Set_Handshake:
    "set_handshake_keys (debug_build env) v wsecret rsecret cipher st = (Ok u, st') \<Longrightarrow>
     states_step env st st'"
| Set_Write:
    "set_application_write_key (debug_build env) v secret st = (Ok u, st') \<Longrightarrow> states_step env st st'"
| Set_Read:
    "set_application_read_key (debug_build env) v secret expire st = (Ok u, st') \<Longrightarrow>
     states_step env st st'"
| Initiate: "initiate_key_update (debug_build env) la st = (Ok u, st') \<Longrightarrow> states_step env st st'"
| Auto: "auto_update (debug_build env) st = (Ok u, st') \<Longrightarrow> states_step env st st'"
| Received: "key_update_received (debug_build env) expire st = (Ok u, st') \<Longrightarrow> states_step env st st'"
| Check_Update: "check_key_update (debug_build env) now st = (Ok u, st') \<Longrightarrow> states_step env st st'"
| Check_Overlap: "check_pn_overlap (debug_build env) st = (Ok u, st') \<Longrightarrow> states_step env st st'"
| Encrypt:
    "select_tx_mut st v space = Some (ep, p) \<Longrightarrow> deref p st = Some dx \<Longrightarrow>
     dx_encrypt (debug_build env) pn hdr (dx, data) = (res, dx', data') \<Longrightarrow> res \<noteq> Panic \<Longrightarrow>
     states_step env st (assign p dx' st)"
| Decrypt:
    "rx st v ep phase = Some p \<Longrightarrow> deref p st = Some dx \<Longrightarrow>
     dx_decrypt (debug_build env) pn hdr (dx, data) = (res, dx', data') \<Longrightarrow> res \<noteq> Panic \<Longrightarrow>
     states_step env st (assign p dx' st)"

subsection \<open>What protecting and unprotecting a packet keeps\<close>

definition same_key :: "('a, 'h) dx \<Rightarrow> ('a, 'h) dx \<Rightarrow> bool" where
  "same_key dx dx' \<longleftrightarrow> dx_version dx' = dx_version dx \<and> dx_direction dx' = dx_direction dx \<and>
     dx_epoch dx' = dx_epoch dx \<and> dx_aead dx' = dx_aead dx \<and> dx_hpkey dx' = dx_hpkey dx"

lemma key_ok_same: "same_key dx dx' \<Longrightarrow> dx_wf dx' \<Longrightarrow> key_ok p dx \<Longrightarrow> key_ok p dx'"
  by (cases p) (simp_all add: same_key_def key_ok_def)

lemma same_key_refl [simp]: "same_key dx dx"
  by (simp add: same_key_def)

lemma same_key_trans: "same_key a b \<Longrightarrow> same_key b c \<Longrightarrow> same_key a c"
  by (simp add: same_key_def)

lemma dx_invoked_same: "dx_invoked dx = (r, dx') \<Longrightarrow> same_key dx dx'"
  by (cases r) (auto simp: dx_invoked_def rust_simps same_key_def)

lemma dx_used_same: "dx_used env pn dx = (r, dx') \<Longrightarrow> same_key dx dx'"
  by (cases r) (auto simp: dx_used_def rust_simps same_key_def Let_def split: if_splits)

lemma dx_adjust_same: "dx_adjust env n dx = Ok dx' \<Longrightarrow> same_key dx dx'"
  by (auto simp: dx_adjust_def rust_simps same_key_def split: if_splits)

lemma dx_continuation_same: "dx_continuation env dx prev = (r, dx') \<Longrightarrow> same_key dx dx'"
  by (cases r) (auto simp: dx_continuation_def rust_simps same_key_def Let_def split: if_splits)

lemmas dx_same = dx_invoked_same dx_used_same dx_adjust_same

lemma dx_decrypt_same: "dx_decrypt env pn hdr (dx, data) = (r, dx', data') \<Longrightarrow> same_key dx dx'"
  by (cases r) (auto simp: dx_decrypt_def rust_simps Let_def case_prod_beta
      dest!: dx_same intro: same_key_trans)

lemma dx_encrypt_same: "dx_encrypt env pn hdr (dx, data) = (r, dx', data') \<Longrightarrow> same_key dx dx'"
  by (cases r) (auto simp: dx_encrypt_def rust_simps Let_def case_prod_beta
      dest!: dx_same intro: same_key_trans)

lemma dx_decrypt_Err:
  assumes "dx_decrypt env pn hdr (dx, data) = (Err e, dx', data')"
  shows "\<exists>n. dx' = dx\<lparr>invocations := n\<rparr>"
  using assms
  by (auto simp: dx_decrypt_def rust_simps Let_def case_prod_beta
      dest!: dx_invoked_Ok(1) dx_invoked_Err dx_used_Err) (metis dx.surjective dx.update_convs(8))+

lemma crypt_wf:
  assumes "dx_wf dx" and "r \<noteq> Panic"
  shows "dx_encrypt (debug_build env) pn hdr (dx, data) = (r, dx', data') \<Longrightarrow> dx_wf dx'"
    and "dx_decrypt (debug_build env) pn hdr (dx, data) = (r, dx', data') \<Longrightarrow> dx_wf dx'"
proof -
  have pn: "pn_ok (debug_build env) pn" by (simp add: pn_ok_def)
  show "dx_encrypt (debug_build env) pn hdr (dx, data) = (r, dx', data') \<Longrightarrow> dx_wf dx'"
    using assms pn by (cases r) (auto elim: dx_encrypt_Ok dx_encrypt_Err)
  show "dx_decrypt (debug_build env) pn hdr (dx, data) = (r, dx', data') \<Longrightarrow> dx_wf dx'"
    using assms pn
    by (cases r) (auto elim: dx_decrypt_Ok dest!: dx_decrypt_Err simp: dx_wf_def)
qed


subsection \<open>Every operation keeps the invariant\<close>

lemma keys_inv_iff:
  "keys_inv st \<longleftrightarrow>
     (\<forall>v s. initials st v = Some s \<longrightarrow> key_ok (InitialTx v) (cs_tx s) \<and> key_ok (InitialRx v) (cs_rx s)) \<and>
     (\<forall>s. handshake_keys st = Some s \<longrightarrow> key_ok HandshakeTx (cs_tx s) \<and> key_ok HandshakeRx (cs_rx s)) \<and>
     (\<forall>z. zero_rtt st = Some z \<longrightarrow> key_ok ZeroRttKeys z) \<and>
     (\<forall>a. app_write st = Some a \<longrightarrow> key_ok AppWrite (app_dx a)) \<and>
     (\<forall>a. app_read st = Some a \<longrightarrow> key_ok AppRead (app_dx a)) \<and>
     (\<forall>a. app_read_next st = Some a \<longrightarrow> key_ok AppReadNext (app_dx a))"
  (is "_ \<longleftrightarrow> ?R")
proof
  assume "keys_inv st"
  then have K: "deref p st = Some dx \<Longrightarrow> key_ok p dx" for p dx by (simp add: keys_inv_def)
  show ?R
    using K [of "InitialTx v" for v] K [of "InitialRx v" for v] K [of HandshakeTx] K [of HandshakeRx]
      K [of ZeroRttKeys] K [of AppWrite] K [of AppRead] K [of AppReadNext]
    by simp
next
  assume R: ?R
  show "keys_inv st"
    unfolding keys_inv_def
  proof (intro allI impI)
    fix p dx
    assume "deref p st = Some dx"
    with R show "key_ok p dx" by (cases p) auto
  qed
qed


lemma keys_invD:
  assumes "keys_inv st"
  shows "initials st v = Some s \<Longrightarrow> key_ok (InitialTx v) (cs_tx s)"
    and "initials st v = Some s \<Longrightarrow> key_ok (InitialRx v) (cs_rx s)"
    and "app_write st = Some a \<Longrightarrow> key_ok AppWrite (app_dx a)"
    and "app_read st = Some a \<Longrightarrow> key_ok AppRead (app_dx a)"
    and "app_read_next st = Some a \<Longrightarrow> key_ok AppReadNext (app_dx a)"
    and "zero_rtt st = Some z \<Longrightarrow> key_ok ZeroRttKeys z"
  using assms by (auto simp: keys_inv_iff)

lemma keys_inv_initials [simp]:
  "keys_inv st \<Longrightarrow> keys_inv (st\<lparr>initials := (initials st)(v := None)\<rparr>)"
  "keys_inv st \<Longrightarrow> keys_inv (st\<lparr>initials := Map.empty\<rparr>)"
  "keys_inv st \<Longrightarrow> key_ok (InitialTx v) (cs_tx s) \<Longrightarrow> key_ok (InitialRx v) (cs_rx s) \<Longrightarrow>
   keys_inv (st\<lparr>initials := (initials st)(v \<mapsto> s)\<rparr>)"
  by (simp_all add: keys_inv_iff)

lemma epochs_inv_initials [simp]:
  "epochs_inv (st\<lparr>initials := i\<rparr>) = epochs_inv st"
  "epochs_inv (st\<lparr>handshake_keys := h\<rparr>) = epochs_inv st"
  "epochs_inv (st\<lparr>states_cipher := c\<rparr>) = epochs_inv st"
  by (simp_all add: epochs_inv_def has_0rtt_read_def)

lemma key_ok_continuation:
  assumes "dx_continuation env dx prev = (Ok u, dx')" and "key_ok p dx"
  shows "key_ok p dx'"
  using assms dx_continuation_same key_ok_same dx_continuation_wf by (metis key_ok_def)

lemma key_ok_new:
  assumes "dx_new env v dir ep secret cipher pn0 = Ok dx"
  shows "dir = Write \<Longrightarrow> ep = Handshake \<Longrightarrow> key_ok HandshakeTx dx"
    and "dir = Read \<Longrightarrow> ep = Handshake \<Longrightarrow> key_ok HandshakeRx dx"
    and "ep = ZeroRtt \<Longrightarrow> key_ok ZeroRttKeys dx"
    and "dir = Write \<Longrightarrow> ep = ApplicationData \<Longrightarrow> key_ok AppWrite dx"
    and "dir = Read \<Longrightarrow> ep = ApplicationData \<Longrightarrow> key_ok AppRead dx"
  using dx_new_Ok(2,3) [OF assms] dx_new_wf [OF assms] by (simp_all add: key_ok_def)

lemma key_ok_new_initial:
  assumes "dx_new_initial env v dir label dcid pn0 = Ok dx"
  shows "dir = Write \<Longrightarrow> key_ok (InitialTx v') dx" and "dir = Read \<Longrightarrow> key_ok (InitialRx v') dx"
  using dx_new_initial_Ok(1-3) [OF assms] by (simp_all add: key_ok_def)

lemma key_ok_next:
  assumes "app_next env a = Ok b"
  shows "key_ok AppRead (app_dx a) \<Longrightarrow> key_ok AppReadNext (app_dx b)"
    and "key_ok AppWrite (app_dx a) \<Longrightarrow> key_ok AppWrite (app_dx b)"
proof -
  have "unat (dx_epoch (app_dx b)) = Suc (unat (dx_epoch (app_dx a)))"
    using app_next_epoch [OF assms] by (simp add: app_epoch_def)
  then show "key_ok AppRead (app_dx a) \<Longrightarrow> key_ok AppReadNext (app_dx b)"
    "key_ok AppWrite (app_dx a) \<Longrightarrow> key_ok AppWrite (app_dx b)"
    using dx_next_Ok(2) [OF app_next_Ok(2) [OF assms]] dx_next_wf [OF app_next_Ok(2) [OF assms]]
    by (auto simp: key_ok_def word_le_nat_alt word_less_nat_alt)
qed


lemma init_version_inv:
  assumes "init_version env labels dcid pn0 v st = (Ok u, st')" and "keys_inv st"
  shows "keys_inv st' \<and> (\<exists>i. st' = st\<lparr>initials := i\<rparr>)"
proof -
  from assms(1) obtain t r where t: "dx_new_initial env v Write (fst labels) dcid pn0 = Ok t"
    and r: "dx_new_initial env v Read (snd labels) dcid 0 = Ok r"
    by (auto simp: init_version_def rust_simps)
  note ok = key_ok_new_initial(1) [OF t refl, of v] key_ok_new_initial(2) [OF r refl, of v]
  show ?thesis
  proof (cases "initials st v")
    case None
    with assms ok show ?thesis by (auto simp: init_version_def t r)
  next
    case (Some p)
    with assms(1) obtain r' t' where "dx_continuation env r (cs_rx p) = (Ok (), r')"
      and "dx_continuation env t (cs_tx p) = (Ok (), t')"
      and "st' = st\<lparr>initials := (initials st)(v \<mapsto> \<lparr>cs_tx = t', cs_rx = r'\<rparr>)\<rparr>"
      by (auto simp: init_version_def t r rust_simps)
    moreover from this have "key_ok (InitialTx v) t'" "key_ok (InitialRx v) r'"
      using ok key_ok_continuation by blast+
    ultimately show ?thesis
      using assms(2) by auto
  qed
qed

lemma init_versions_inv:
  assumes "init_versions env labels dcid pn0 vs st = (Ok u, st')" and "keys_inv st"
  shows "keys_inv st' \<and> (\<exists>i. st' = st\<lparr>initials := i\<rparr>)"
  using assms
proof (induction vs arbitrary: st)
  case Nil
  then show ?case by (auto intro: exI [of _ "initials st"])
next
  case (Cons v vs)
  then obtain t where "init_version env labels dcid pn0 v st = (Ok (), t)"
    and "init_versions env labels dcid pn0 vs t = (Ok u, st')"
    by (auto simp: rust_simps)
  with Cons.IH [of t] Cons.prems(2) init_version_inv show ?case by fastforce
qed

lemma states_confirm_version_inv:
  assumes "states_confirm_version env v v' st = (Ok u, st')" and "keys_inv st"
  shows "keys_inv st' \<and> (\<exists>i. st' = st\<lparr>initials := i\<rparr>)"
proof (cases "v = v' \<or> initials st v = None")
  case True
  with assms show ?thesis
    by (auto simp: states_confirm_version_def intro: exI [of _ "initials st"] split: if_splits)
next
  case False
  then obtain p where p: "initials st v = Some p" and "v \<noteq> v'" by auto
  with assms(1) obtain n r' t' where n: "initials st v' = Some n"
    and c: "dx_continuation env (cs_rx n) (cs_rx p) = (Ok (), r')"
      "dx_continuation env (cs_tx n) (cs_tx p) = (Ok (), t')"
    and st': "st' = st\<lparr>initials := (initials st)(v' \<mapsto> \<lparr>cs_tx = t', cs_rx = r'\<rparr>, v \<mapsto> p)\<rparr>"
    by (auto simp: states_confirm_version_def rust_simps Let_def)
  note k = keys_invD(1,2) [OF assms(2) p] keys_invD(1,2) [OF assms(2) n]
  have "keys_inv (st\<lparr>initials := (initials st)(v' \<mapsto> \<lparr>cs_tx = t', cs_rx = r'\<rparr>)\<rparr>)" (is "keys_inv ?t")
    using assms(2) key_ok_continuation [OF c(1) k(4)] key_ok_continuation [OF c(2) k(3)] by simp
  then have "keys_inv (?t\<lparr>initials := (initials ?t)(v \<mapsto> p)\<rparr>)"
    using k(1,2) by (rule keys_inv_initials(3))
  with st' show ?thesis by auto
qed

lemma maybe_continue_initial_rx_inv:
  assumes "maybe_continue_initial_rx env v st = (Ok u, st')" and "keys_inv st"
  shows "keys_inv st' \<and> (\<exists>i. st' = st\<lparr>initials := i\<rparr>)"
proof (cases "st' = st")
  case True
  with assms show ?thesis by (auto intro: exI [of _ "initials st"])
next
  case False
  with assms(1) obtain n p r r' where n: "initials st v = Some n" and zero: "dx_next_pn (cs_rx n) = 0"
    and r: "dx_continuation env (cs_rx n) p = (r, r')" and "r \<noteq> Panic"
    and st': "st' = st\<lparr>initials := (initials st)(v \<mapsto> n\<lparr>cs_rx := r'\<rparr>)\<rparr>"
    by (auto simp: maybe_continue_initial_rx_def rust_simps split: option.splits if_splits)
  note k = keys_invD(1,2) [OF assms(2) n]
  have "range_is_empty (used_pn (cs_rx n))"
    using k(2) zero by (auto simp: key_ok_def dx_wf_def range_is_empty_def dx_next_pn_def)
  with r \<open>r \<noteq> Panic\<close> have "r = Ok ()"
    using dx_continuation_Err(3) [of env "cs_rx n" p] by (cases r) auto
  with r k have "key_ok (InitialRx v) r'"
    by (auto intro: key_ok_continuation)
  with st' assms(2) k(1) show ?thesis by auto
qed


lemma rx_hp_inv:
  assumes "rx_hp env v ep st = (Ok p, st')" and "keys_inv st"
  shows "keys_inv st' \<and> (\<exists>i. st' = st\<lparr>initials := i\<rparr>)"
  using assms maybe_continue_initial_rx_inv [of env v st]
  by (cases ep) (auto simp: rx_hp_def rust_simps intro: exI [of _ "initials st"])

lemma initials_only_inv:
  assumes "keys_inv st' \<and> (\<exists>i. st' = st\<lparr>initials := i\<rparr>)" and "states_inv st"
  shows "states_inv st'"
  using assms by (auto simp: states_inv_def)

lemma set_application_write_key_inv:
  assumes "set_application_write_key (debug_build env) v secret st = (Ok u, st')" and "states_inv st"
  shows "states_inv st'"
proof -
  from assms(1) obtain a where w: "app_write st = None"
    and a: "app_new env v Write secret (states_cipher st) = Ok a"
    by (auto simp: set_application_write_key_def rust_simps)
  with assms(1) obtain dx where
    dx: "dx = app_dx a \<or> (\<exists>z. dx_continuation (debug_build env) (app_dx a) z = (Ok (), dx))"
    and st': "st' = st\<lparr>zero_rtt := None, app_write := Some (a\<lparr>app_dx := dx\<rparr>)\<rparr>"
  proof (cases "\<exists>z. zero_rtt st = Some z \<and> dx_direction z = Write")
    case True
    with assms(1) a that show thesis by (auto simp: set_application_write_key_def rust_simps) blast
  next
    case False
    with assms(1) a that [of "app_dx a"] show thesis
      by (auto simp: set_application_write_key_def rust_simps split: option.splits)
  qed
  have "key_ok AppWrite (app_dx a)"
    using key_ok_new(4) [OF app_new_Ok(1) [OF a]] by simp
  with dx have "key_ok AppWrite dx" by (auto intro: key_ok_continuation)
  moreover have "dx_epoch dx = 3"
    using dx app_new_epoch [OF a] by (auto simp: app_epoch_def dest: dx_continuation_same simp: same_key_def)
  ultimately show ?thesis
    using assms(2) w st' by (auto simp: states_inv_def keys_inv_iff epochs_inv_def app_epoch_def)
qed

lemma set_application_read_key_inv:
  assumes "set_application_read_key (debug_build env) v secret expire st = (Ok u, st')" and "states_inv st"
  shows "states_inv st'"
proof -
  from assms(1) obtain a where w: "app_write st \<noteq> None" and r: "app_read st = None"
    and a: "app_new env v Read secret (states_cipher st) = Ok a"
    by (auto simp: set_application_read_key_def rust_simps)
  with assms(1) obtain dx n t where
    dx: "dx = app_dx a \<or> (\<exists>z. dx_continuation (debug_build env) (app_dx a) z = (Ok (), dx))"
    and n: "app_next (debug_build env) (a\<lparr>app_dx := dx\<rparr>) = Ok n"
    and t: "t = None \<or> zero_rtt st \<noteq> None"
    and st': "st' = st\<lparr>read_update_time := t, app_read_next := Some n, app_read := Some (a\<lparr>app_dx := dx\<rparr>)\<rparr>"
  proof (cases "zero_rtt st")
    case None
    with assms(1) a w r that [of "app_dx a" _ "read_update_time st"] assms(2) show thesis
      by (auto simp: set_application_read_key_def rust_simps states_inv_def epochs_inv_def)
  next
    case (Some z)
    with assms(1) a w r that [of _ _ "Some expire"] that [of "app_dx a" _ "Some expire"] show thesis
      by (cases "dx_direction z") (auto simp: set_application_read_key_def rust_simps)
  qed
  have "key_ok AppRead (app_dx a)"
    using key_ok_new(5) [OF app_new_Ok(1) [OF a]] by simp
  with dx have dx_ok: "key_ok AppRead dx" by (auto intro: key_ok_continuation)
  moreover have "key_ok AppReadNext (app_dx n)"
    using key_ok_next(1) [OF n] dx_ok by simp
  moreover have e: "dx_epoch dx = 3"
    using dx app_new_epoch [OF a] by (auto simp: app_epoch_def dest: dx_continuation_same simp: same_key_def)
  moreover have "unat (app_epoch n) = 4"
    using app_next_epoch [OF n] e by (simp add: app_epoch_def)
  moreover have "has_0rtt_read st" if "t \<noteq> None"
    using that t w assms(2)
    by (cases "zero_rtt st"; cases "dx_direction (the (zero_rtt st))")
      (auto simp: states_inv_def epochs_inv_def has_0rtt_read_def)
  ultimately show ?thesis
    using assms(2) w r st' by (auto simp: states_inv_def keys_inv_iff epochs_inv_def app_epoch_def has_0rtt_read_def)
qed

lemma maybe_update_write_inv:
  assumes "maybe_update_write (debug_build env) st = (Ok b, st')" and "states_inv st"
  shows "states_inv st'" and "read_update_time st' = None" and "read_update_time st = None"
    and "\<exists>r n w. app_read st' = Some r \<and> app_read_next st' = Some n \<and> app_write st' = Some w \<and>
       app_epoch w = app_epoch n"
proof -
  from assms(1) obtain w r where t: "read_update_time st = None" and w: "app_write st = Some w"
    and r: "app_read st = Some r"
    and upd: "if app_epoch w = app_epoch r
      then \<exists>w'. app_next (debug_build env) w = Ok w' \<and> st' = st\<lparr>app_write := Some w'\<rparr> else st' = st"
    by (auto simp: maybe_update_write_def rust_simps split: if_splits)
  from assms(2) r w obtain n where n: "app_read_next st = Some n"
    and e: "unat (app_epoch n) = Suc (unat (app_epoch r))" "app_epoch w = app_epoch r \<or> app_epoch w = app_epoch n"
    by (auto simp: states_inv_def epochs_inv_def)
  have k: "key_ok AppWrite (app_dx w)"
    using assms(2) w by (auto simp: states_inv_def intro: keys_invD)
  show t': "read_update_time st' = None" and "read_update_time st = None"
    using upd t by (auto split: if_splits)
  obtain w' where w': "st' = st\<lparr>app_write := Some w'\<rparr>" "key_ok AppWrite (app_dx w')" "app_epoch w' = app_epoch n"
  proof (cases "app_epoch w = app_epoch r")
    case True
    with upd obtain w' where nx: "app_next (debug_build env) w = Ok w'" and "st' = st\<lparr>app_write := Some w'\<rparr>"
      by auto
    then show thesis
      using that key_ok_next(2) [OF nx k] app_next_epoch [OF nx] e True by (simp add: word_unat_eq_iff)
  next
    case False
    with upd e k w that [of w] show thesis by simp
  qed
  show "states_inv st'"
    using assms(2) w' r n e(1) w t
    by (auto simp: states_inv_def keys_inv_iff epochs_inv_def has_0rtt_read_def)
  show "\<exists>r n w. app_read st' = Some r \<and> app_read_next st' = Some n \<and> app_write st' = Some w \<and>
       app_epoch w = app_epoch n"
    using w' r n by simp
qed


lemma key_update_received_inv:
  assumes "key_update_received (debug_build env) expire st = (Ok u, st')" and "states_inv st"
  shows "states_inv st'"
proof -
  from assms(1) obtain b s where m: "maybe_update_write (debug_build env) st = (Ok b, s)"
    and st': "st' = s\<lparr>read_update_time := Some expire\<rparr>"
    by (auto simp: key_update_received_def rust_simps Let_def dest: maybe_update_write_inv(2) [OF _ assms(2)])
  show ?thesis
    using maybe_update_write_inv [OF m assms(2)] st'
    by (auto simp: states_inv_def keys_inv_iff epochs_inv_def has_0rtt_read_def)
qed

lemma check_key_update_inv:
  assumes "check_key_update env now st = (Ok u, st')" and "states_inv st"
  shows "states_inv st'"
proof (cases "\<exists>expiry. read_update_time st = Some expiry \<and> expiry \<le> now")
  case False
  with assms show ?thesis by (auto simp: check_key_update_def split: option.splits if_splits)
next
  case True
  then have t: "read_update_time st \<noteq> None" by auto
  with assms(2) obtain r n w where r: "app_read st = Some r" and n: "app_read_next st = Some n"
    and w: "app_write st = Some w" and e: "has_0rtt_read st \<or> app_epoch w = app_epoch n"
    by (cases "app_read st") (auto simp: states_inv_def epochs_inv_def)
  show ?thesis
  proof (cases "has_0rtt_read st")
    case True
    with assms t show ?thesis
      by (auto simp: check_key_update_def states_inv_def keys_inv_iff epochs_inv_def split: if_splits)
  next
    case False
    with assms(1) True t n obtain m where m: "app_next env n = Ok m"
      and st': "st' = st\<lparr>app_read := Some n, app_read_next := Some m, read_update_time := None\<rparr>"
      by (auto simp: check_key_update_def rust_simps Let_def r)
    have k: "key_ok AppRead (app_dx n)"
      using assms(2) n by (auto simp: states_inv_def key_ok_def dest!: keys_invD(5))
    show ?thesis
      using assms(2) st' key_ok_next(1) [OF m k] k app_next_epoch [OF m] e False w n r
      by (auto simp: states_inv_def keys_inv_iff epochs_inv_def)
  qed
qed

lemma check_pn_overlap_inv:
  assumes "check_pn_overlap env st = (Ok u, st')" and "states_inv st"
  shows "states_inv st'"
proof (cases "read_update_time st")
  case None
  with assms show ?thesis by (simp add: check_pn_overlap_def)
next
  case (Some t)
  with assms(1) obtain n r d where n: "app_read_next st = Some n"
    and d: "dx_continuation env (app_dx n) r = (Ok (), d)"
    and st': "st' = st\<lparr>app_read_next := Some (n\<lparr>app_dx := d\<rparr>)\<rparr>"
    by (auto simp: check_pn_overlap_def rust_simps)
  have k: "key_ok AppReadNext d"
    using key_ok_continuation [OF d keys_invD(5) [OF _ n]] assms(2) by (simp add: states_inv_def)
  have "dx_epoch d = dx_epoch (app_dx n)"
    using dx_continuation_same [OF d] by (simp add: same_key_def)
  with assms(2) st' k n show ?thesis
    by (auto simp: states_inv_def keys_inv_iff epochs_inv_def has_0rtt_read_def app_epoch_def)
qed

lemma assign_inv:
  assumes "states_inv st" and "deref p st = Some dx" and "same_key dx dx'" and "dx_wf dx'"
  shows "states_inv (assign p dx' st)"
proof -
  have "key_ok p dx'"
    using assms by (auto simp: states_inv_def keys_inv_def intro: key_ok_same)
  then have "keys_inv (assign p dx' st)"
    using assms(1,2) keys.put_keeps_all [of st key_ok p dx dx']
    by (auto simp: states_inv_def keys_inv_def)
  moreover have "epochs_inv (assign p dx' st)"
    using assms(1-3)
    by (cases p) (auto simp: states_inv_def epochs_inv_def has_0rtt_read_def app_epoch_def same_key_def
        split: option.splits)
  ultimately show ?thesis by (simp add: states_inv_def)
qed

lemma update_only_inv:
  assumes "states_inv st"
  shows "initiate_key_update (debug_build env) la st = (Ok u, st') \<Longrightarrow> states_inv st'"
    and "auto_update (debug_build env) st = (Ok u, st') \<Longrightarrow> states_inv st'"
  using assms maybe_update_write_inv(1)
  by (auto simp: initiate_key_update_def auto_update_def rust_simps split: if_splits option.splits)

lemma install_inv:
  assumes "states_inv st"
  shows "set_0rtt_keys env v dir secret cipher st = (Ok u, st') \<Longrightarrow> app_read st = None \<Longrightarrow>
     dir = Write \<longrightarrow> app_write st = None \<Longrightarrow> states_inv st'"
    and "states_discard env space st = (Ok d, st') \<Longrightarrow> states_inv st'"
    and "discard_0rtt_keys st = (Ok u, st') \<Longrightarrow> states_inv st'"
    and "set_handshake_keys env v wsecret rsecret cipher st = (Ok u, st') \<Longrightarrow> states_inv st'"
proof -
  show "set_0rtt_keys env v dir secret cipher st = (Ok u, st') \<Longrightarrow> app_read st = None \<Longrightarrow>
     dir = Write \<longrightarrow> app_write st = None \<Longrightarrow> states_inv st'"
    using assms key_ok_new(3) [OF _ refl] dx_new_Ok(2) [of env v dir ZeroRtt secret cipher 0]
    by (auto simp: set_0rtt_keys_def rust_simps states_inv_def keys_inv_iff epochs_inv_def)
  show "states_discard env space st = (Ok d, st') \<Longrightarrow> states_inv st'"
    using assms by (cases space) (auto simp: states_inv_def keys_inv_iff)
  show "discard_0rtt_keys st = (Ok u, st') \<Longrightarrow> states_inv st'"
    using assms by (auto simp: discard_0rtt_keys_def rust_simps states_inv_def keys_inv_iff epochs_inv_def)
  show "set_handshake_keys env v wsecret rsecret cipher st = (Ok u, st') \<Longrightarrow> states_inv st'"
    using assms key_ok_new(1) [of env v Write Handshake] key_ok_new(2) [of env v Read Handshake]
    by (auto simp: set_handshake_keys_def rust_simps Let_def states_inv_def keys_inv_iff)
qed

interpretation key_states: machine "states_step env" states_inv for env
proof
  fix s t :: "('a, 'b, 'c) crypto_states"
  assume "states_step env s t" and "states_inv s"
  then show "states_inv t"
  proof (cases rule: states_step.cases)
    case (Init vs role dcid rand r u)
    with \<open>states_inv s\<close> show ?thesis
      unfolding states_init_def by (metis init_versions_inv initials_only_inv states_inv_def)
  next
    case (Init_Server v dcid rand r u)
    with \<open>states_inv s\<close> show ?thesis
      unfolding states_init_def init_server_def
      by (metis init_versions_inv initials_only_inv states_inv_def Pair_inject)
  next
    case (Confirm_Version v v' u)
    with \<open>states_inv s\<close> show ?thesis
      by (metis states_confirm_version_inv initials_only_inv states_inv_def)
  next
    case (Rx_Hp v ep p)
    with \<open>states_inv s\<close> show ?thesis
      by (metis rx_hp_inv initials_only_inv states_inv_def)
  next
    case (Encrypt v space ep p dx pn hdr data res dx' data')
    with \<open>states_inv s\<close> show ?thesis
      by (metis assign_inv crypt_wf(1) dx_encrypt_same keys_inv_def key_ok_def states_inv_def)
  next
    case (Decrypt v ep phase p dx pn hdr data res dx' data')
    with \<open>states_inv s\<close> show ?thesis
      by (metis assign_inv crypt_wf(2) dx_decrypt_same keys_inv_def key_ok_def states_inv_def)
  qed (use \<open>states_inv s\<close> in \<open>auto intro: install_inv update_only_inv key_update_received_inv
      check_key_update_inv check_pn_overlap_inv set_application_write_key_inv set_application_read_key_inv\<close>)
qed

section \<open>Reachable states\<close>

lemma crypto_states_default_inv: "states_inv crypto_states_default"
  by (simp add: states_inv_def keys_inv_iff epochs_inv_def crypto_states_default_def)

lemmas reachable_inv = key_states.steps_inv [OF _ crypto_states_default_inv]

definition sample_hs :: "direction \<Rightarrow> (nat list, nat list) dx" where
  "sample_hs dir = (sample_dx dir)\<lparr>dx_epoch := 2\<rparr>"

definition sample_next :: "direction \<Rightarrow> (nat list, nat list, nat list) app_data" where
  "sample_next dir =
     \<lparr>app_dx = (sample_dx dir)\<lparr>dx_epoch := 4, dx_aead := [7, 7]\<rparr>, app_cipher = 0x1301,
      app_next_secret = [7, 7, 7]\<rparr>"

definition sample_states :: "(nat list, nat list, nat list) crypto_states" where
  "sample_states = crypto_states_default
     \<lparr>handshake_keys := Some \<lparr>cs_tx = sample_hs Write, cs_rx = sample_hs Read\<rparr>,
      states_cipher := 0x1301, app_write := Some (sample_app Write), app_read := Some (sample_app Read),
      app_read_next := Some (sample_next Read)\<rparr>"

lemma sample_next_app: "app_next (sample_env d) (sample_app dir) = Ok (sample_next dir)"
  by (cases dir)
    (simp_all add: app_next_def sample_app_def sample_next_def dx_next_def sample_dx_def from_crypto_def
      add_w_def dx_next_pn_def INITIAL_LARGEST_PACKET_LEN_def push_bit_eq_mult limit_def)

lemma sample_hs_new:
  "dx_new (sample_env d) Version1 dir Handshake [7] 0x1301 0 = Ok (sample_hs dir)"
  by (cases dir)
    (simp_all add: dx_new_def sample_hs_def sample_dx_def from_crypto_def limit_def
      INITIAL_LARGEST_PACKET_LEN_def push_bit_eq_mult)

lemma sample_build [simp]: "(sample_env d)\<lparr>debug_assertions := b\<rparr> = sample_env b"
  by (simp add: sample_env_def)

lemma sample_reachable: "(states_step (sample_env d))\<^sup>*\<^sup>* crypto_states_default sample_states"
proof -
  let ?s1 = "crypto_states_default
     \<lparr>handshake_keys := Some \<lparr>cs_tx = sample_hs Write, cs_rx = sample_hs Read\<rparr>, states_cipher := 0x1301\<rparr>"
  let ?s2 = "?s1\<lparr>app_write := Some (sample_app Write)\<rparr>"
  let ?e = "sample_env True"
  have "set_handshake_keys ?e Version1 [7] [7] 0x1301 crypto_states_default = (Ok (), ?s1)"
    by (simp add: set_handshake_keys_def sample_hs_new Let_def)
  then have 1: "states_step (sample_env d) crypto_states_default ?s1"
    by (intro states_step.Set_Handshake) simp
  have "set_application_write_key ?e Version1 [7] ?s1 = (Ok (), ?s2)"
    by (simp add: set_application_write_key_def sample_app_new crypto_states_default_def)
  then have 2: "states_step (sample_env d) ?s1 ?s2"
    by (intro states_step.Set_Write) simp
  have "set_application_read_key ?e Version1 [7] 0 ?s2 = (Ok (), sample_states)"
    by (simp add: set_application_read_key_def sample_app_new sample_next_app crypto_states_default_def
        sample_states_def)
  then have 3: "states_step (sample_env d) ?s2 sample_states"
    by (intro states_step.Set_Read) simp
  from 1 2 3 show ?thesis by (meson converse_rtranclp_into_rtranclp rtranclp.rtrancl_refl)
qed

text \<open>
  C6. In every state a connection reaches, once the application read keys are installed the write keys
  and the prepared next read keys are too, the prepared keys are exactly one epoch ahead of the read
  keys, the write keys are at one of these two epochs, and while the timer for the old read keys runs
  the write keys have followed the peer's update, unless the timer is the one for 0-RTT keys.
\<close>

theorem app_epochs_in_step:
  assumes "(states_step env)\<^sup>*\<^sup>* crypto_states_default st" and "app_read st = Some r"
  shows "\<exists>n w. app_read_next st = Some n \<and> app_write st = Some w \<and>
     unat (app_epoch n) = Suc (unat (app_epoch r)) \<and>
     (app_epoch w = app_epoch r \<or> app_epoch w = app_epoch n) \<and>
     (read_update_time st \<noteq> None \<longrightarrow> has_0rtt_read st \<or> app_epoch w = app_epoch n)"
  using reachable_inv [OF assms(1)] assms(2) by (simp add: states_inv_def epochs_inv_def)

theorem app_epochs_in_step_witness:
  "\<exists>n w. app_read_next sample_states = Some n \<and> app_write sample_states = Some w \<and>
     unat (app_epoch n) = 4 \<and> app_epoch w = 3"
proof -
  have r: "app_read sample_states = Some (sample_app Read)"
    by (simp add: sample_states_def)
  from app_epochs_in_step [OF sample_reachable r] show ?thesis
    by (auto simp: sample_states_def sample_app_def sample_dx_def app_epoch_def sample_next_def)
qed

text \<open>
  In every state a connection reaches, \<^verbatim>\<open>rx\<close> finds exactly one application key for each value of
  the key phase bit: the current read keys for the current phase, the prepared ones for the other.
\<close>

lemma rx_one_key_per_phase:
  assumes "(states_step env)\<^sup>*\<^sup>* crypto_states_default st" and "app_read st = Some r"
  shows "rx st v ApplicationData (dx_key_phase (app_dx r)) = Some AppRead \<and>
     rx st v ApplicationData (\<not> dx_key_phase (app_dx r)) = Some AppReadNext"
proof -
  from reachable_inv [OF assms(1)] assms(2) obtain n where n: "app_read_next st = Some n"
    and "unat (app_epoch n) = Suc (unat (app_epoch r))"
    by (auto simp: states_inv_def epochs_inv_def)
  then have "dx_key_phase (app_dx n) \<longleftrightarrow> \<not> dx_key_phase (app_dx r)"
    by (simp add: key_phase_parity app_epoch_def)
  then show ?thesis using n assms(2) by (auto simp: filter_mut_def)
qed

lemma rx_one_key_per_phase_example:
  "rx sample_states Version1 ApplicationData False = Some AppRead \<and>
   rx sample_states Version1 ApplicationData True = Some AppReadNext"
proof -
  have r: "app_read sample_states = Some (sample_app Read)" "\<not> dx_key_phase (app_dx (sample_app Read))"
    by (simp_all add: sample_states_def sample_app_def sample_dx_def dx_key_phase_def)
  with rx_one_key_per_phase [OF sample_reachable r(1), of Version1] show ?thesis by simp
qed

text \<open>
  C29. In every state a connection reaches, the keys that \<^verbatim>\<open>rx\<close> finds for unprotecting a packet are
  read keys and those that \<^verbatim>\<open>tx\<close> finds for protecting one are write keys, of the epoch asked for, with
  a well-formed packet number window; so the direction checks of \<^verbatim>\<open>decrypt\<close> and \<^verbatim>\<open>encrypt\<close> cannot fail.
\<close>

theorem selected_keys_direction:
  assumes "(states_step env)\<^sup>*\<^sup>* crypto_states_default st"
  shows "(rx st v ep phase = Some p \<longrightarrow> (\<exists>dx. deref p st = Some dx \<and> dx_direction dx = Read \<and> dx_wf dx)) \<and>
     (tx st v ep = Some dx \<longrightarrow> dx_direction dx = Write \<and> dx_wf dx)"
proof
  note inv = reachable_inv [OF assms, unfolded states_inv_def, THEN conjunct1]
  have ok: "key_ok p dx" if "deref p st = Some dx" for p dx
    using inv that by (simp add: keys_inv_def)
  have "\<exists>dx. deref p st = Some dx \<and> dx_direction dx = Read" if "rx st v ep phase = Some p"
    using that inv by (cases ep; cases p) (auto simp: key_ok_def xor_option_Some keys_inv_iff)
  then show "rx st v ep phase = Some p \<longrightarrow> (\<exists>dx. deref p st = Some dx \<and> dx_direction dx = Read \<and> dx_wf dx)"
    using ok by (auto simp: key_ok_def)
  show "tx st v ep = Some dx \<longrightarrow> dx_direction dx = Write \<and> dx_wf dx"
    using inv by (cases ep) (auto simp: keys_inv_iff key_ok_def)
qed

theorem selected_keys_direction_witness:
  "(\<exists>dx. deref AppRead sample_states = Some dx \<and> dx_direction dx = Read \<and> dx_wf dx) \<and>
   dx_direction (sample_dx Write) = Write \<and> dx_wf (sample_dx Write)"
proof -
  have "rx sample_states Version1 ApplicationData False = Some AppRead"
    by (simp add: sample_states_def sample_app_def sample_dx_def dx_key_phase_def filter_mut_def
        sample_next_def)
  moreover have "tx sample_states Version1 ApplicationData = Some (sample_dx Write)"
    by (simp add: sample_states_def sample_app_def)
  ultimately show ?thesis
    using selected_keys_direction [OF sample_reachable] by blast
qed

end
