(* ===== verification/Key_Update.thy ===== *)
theory Key_Update
  imports Keys_Invariant
begin

text \<open>
  The QUIC key update as \<^verbatim>\<open>CryptoStates\<close> implements it. First the ladder of secrets behind the
  successive keys, then the invariant that ties the write keys, the read keys and the prepared next
  read keys together, and then what the packet number windows guarantee while keys of two epochs are
  in use for reading.
\<close>

section \<open>The key ladder\<close>

text \<open>
  Keys that are replaced by their successors: \<open>advance n\<close> replaces them \<open>n\<close> times.
\<close>

fun advance :: "('x \<Rightarrow> ('e, 'x) result) \<Rightarrow> nat \<Rightarrow> 'x \<Rightarrow> ('e, 'x) result" where
  "advance nxt 0 x = Ok x"
| "advance nxt (Suc n) x = bind_res (advance nxt n x) nxt"

locale ratchet =
  fixes nxt :: "'x \<Rightarrow> ('e, 'x) result"
    and rung :: "nat \<Rightarrow> 'x \<Rightarrow> bool"
  assumes nxt_rung: "rung n x \<Longrightarrow> nxt x = Ok y \<Longrightarrow> rung (Suc n) y"
begin

lemma advance_rung: "rung m x \<Longrightarrow> advance nxt n x = Ok y \<Longrightarrow> rung (m + n) y"
  by (induction n arbitrary: y) (auto simp: rust_simps dest: nxt_rung)

lemma rungs_bounded:
  assumes "\<And>n x. rung n x \<Longrightarrow> n < b" and "rung 0 x" and "advance nxt n x = Ok y"
  shows "n < b"
  using advance_rung [OF assms(2,3)] assms(1) by simp

end

text \<open>
  The application keys \<open>n\<close> key updates after those made from \<open>secret\<close>: epoch, AEAD and next secret have
  moved on, version, direction and the header protection key have not.
\<close>

definition on_ladder ::
  "('k, 'a, 'h) crypto_env \<Rightarrow> direction \<Rightarrow> version \<Rightarrow> 'k \<Rightarrow> cipher \<Rightarrow> nat \<Rightarrow> ('k, 'a, 'h) app_data \<Rightarrow> bool" where
  "on_ladder env dir version secret cipher n a \<longleftrightarrow>
     unat (app_epoch a) = 3 + n \<and> app_cipher a = cipher \<and> dx_version (app_dx a) = version \<and>
     dx_direction (app_dx a) = dir \<and>
     (\<exists>k. advance (update_secret env cipher) n secret = Ok k \<and>
        aead_new env (TLS_VERSION_1_3 (nss_hdr env)) cipher k (label_prefix env version)
          (mode_from dir) = Ok (dx_aead (app_dx a))) \<and>
     advance (update_secret env cipher) (Suc n) secret = Ok (app_next_secret a) \<and>
     hp_extract env (TLS_VERSION_1_3 (nss_hdr env)) cipher secret (label_prefix env version @ ''hp'') =
       Ok (dx_hpkey (app_dx a))"

definition clone_law :: "('k, 'a, 'h) crypto_env \<Rightarrow> bool" where
  "clone_law env \<longleftrightarrow> (\<forall>h. hp_try_clone env h = Ok h)"

lemma on_ladder_new:
  assumes "app_new env version dir secret cipher = Ok a"
  shows "on_ladder env dir version secret cipher 0 a"
  using app_new_Ok [OF assms] dx_new_Ok(1,2,8,9) [OF app_new_Ok(1) [OF assms]] app_new_epoch [OF assms]
  by (simp add: on_ladder_def)

lemma on_ladder_next:
  assumes "on_ladder env dir version secret cipher n a" and "app_next (env\<lparr>debug_assertions := d\<rparr>) a = Ok b"
    and "clone_law env"
  shows "on_ladder env dir version secret cipher (Suc n) b"
  using assms(1,3) app_next_Ok [OF assms(2)] dx_next_Ok(1,2,7,8) [OF app_next_Ok(2) [OF assms(2)]]
    app_next_epoch [OF assms(2)]
  by (auto simp: on_ladder_def clone_law_def)

lemma on_ladder_same_key:
  assumes "on_ladder env dir version secret cipher n a" and "same_key (app_dx a) dx"
  shows "on_ladder env dir version secret cipher n (a\<lparr>app_dx := dx\<rparr>)"
  using assms by (auto simp: on_ladder_def same_key_def app_epoch_def)

interpretation app_keys: ratchet "app_next env"
    "\<lambda>n a. clone_law env \<longrightarrow> on_ladder env dir version secret cipher n a" for env dir version secret cipher
  by standard (metis on_ladder_next crypto_env.surjective crypto_env.update_convs(1))

lemma on_ladder_advance:
  assumes "app_new env version dir secret cipher = Ok a0" and "clone_law env" and "advance (app_next env) n a0 = Ok a"
  shows "on_ladder env dir version secret cipher n a"
  using app_keys.advance_rung [of env dir version secret cipher 0 a0 n a] on_ladder_new [OF assms(1)] assms(2,3)
  by simp

text \<open>
  C20. After \<open>n\<close> key updates the application keys are at epoch 3 + n, the AEAD is keyed with the
  n-fold \<^verbatim>\<open>"quic ku"\<close> expansion of the secret the handshake produced, the secret kept for the next
  update is the one after it, the key phase bit is the parity of \<open>n\<close>, and the header protection key
  is still the one derived from the first secret.
\<close>

theorem key_ladder:
  assumes "app_new env version dir secret cipher = Ok a0" and "advance (app_next env) n a0 = Ok a"
    and "\<forall>h. hp_try_clone env h = Ok h"
  shows "unat (app_epoch a) = 3 + n \<and> (dx_key_phase (app_dx a) \<longleftrightarrow> odd n) \<and>
     (\<exists>k. advance (update_secret env cipher) n secret = Ok k \<and>
        aead_new env (TLS_VERSION_1_3 (nss_hdr env)) cipher k (label_prefix env version)
          (mode_from dir) = Ok (dx_aead (app_dx a))) \<and>
     advance (update_secret env cipher) (Suc n) secret = Ok (app_next_secret a) \<and>
     hp_extract env (TLS_VERSION_1_3 (nss_hdr env)) cipher secret (label_prefix env version @ ''hp'') =
       Ok (dx_hpkey (app_dx a))"
proof -
  have "on_ladder env dir version secret cipher n a"
    using on_ladder_advance [OF assms(1) _ assms(2)] assms(3) by (simp add: clone_law_def)
  then show ?thesis
    by (auto simp: on_ladder_def key_phase_parity app_epoch_def)
qed

theorem key_ladder_witness:
  "\<exists>a. advance (app_next (sample_env True)) 2 (sample_app Write) = Ok a \<and>
     unat (app_epoch a) = 5 \<and> \<not> dx_key_phase (app_dx a) \<and> dx_aead (app_dx a) = [7, 7, 7] \<and>
     app_next_secret a = [7, 7, 7, 7] \<and> dx_hpkey (app_dx a) = [7]"
proof -
  have s: "app_cipher (sample_app Write) = 0x1301" "unat (app_epoch (sample_app Write)) < 100"
    by (simp_all add: sample_app_def app_epoch_def sample_dx_def)
  then obtain b where b: "app_next (sample_env True) (sample_app Write) = Ok b" "app_cipher b = 0x1301"
    using sample_app_next by blast
  have "unat (app_epoch b) < 100"
    using app_next_epoch [OF b(1)] by (simp add: sample_app_def app_epoch_def sample_dx_def)
  with b(2) obtain a where a: "app_next (sample_env True) b = Ok a"
    using sample_app_next by blast
  have adv: "advance (app_next (sample_env True)) 2 (sample_app Write) = Ok a"
    by (simp add: numeral_2_eq_2 b a)
  have clone: "\<forall>h. hp_try_clone (sample_env True) h = Ok h" by simp
  from key_ladder [OF sample_app_new adv clone] adv show ?thesis
    by (auto simp: numeral_2_eq_2)
qed

section \<open>Packets protected with old and with new keys\<close>

text \<open>
  Receiving 1-RTT packets around a key update. Each packet that is unprotected is followed by
  \<^verbatim>\<open>check_pn_overlap\<close>, and the first one that the prepared keys unprotect by \<^verbatim>\<open>key_update_received\<close>
  before that. A packet that fails to unprotect is dropped. The log has the keys and the packet
  number of each packet, oldest first.
\<close>

inductive recv ::
  "('k, 'a, 'h) crypto_env \<Rightarrow> instant \<Rightarrow> ('k, 'a, 'h) crypto_states \<Rightarrow> (place \<times> u64) list \<Rightarrow>
   ('k, 'a, 'h) crypto_states \<Rightarrow> bool"
  for env expire st where
  Start: "recv env expire st [] st"
| Old:
    "recv env expire st log s \<Longrightarrow> deref AppRead s = Some dx \<Longrightarrow>
     dx_decrypt env pn hdr (dx, data) = (Ok n, dx', data') \<Longrightarrow>
     check_pn_overlap env (assign AppRead dx' s) = (Ok u, t) \<Longrightarrow>
     recv env expire st (log @ [(AppRead, pn)]) t"
| New:
    "recv env expire st log s \<Longrightarrow> deref AppReadNext s = Some dx \<Longrightarrow>
     dx_decrypt env pn hdr (dx, data) = (Ok n, dx', data') \<Longrightarrow>
     (if read_update_time s = None then key_update_received env expire (assign AppReadNext dx' s)
      else (Ok (), assign AppReadNext dx' s)) = (Ok u, s') \<Longrightarrow>
     check_pn_overlap env s' = (Ok u', t) \<Longrightarrow>
     recv env expire st (log @ [(AppReadNext, pn)]) t"
| Drop:
    "recv env expire st log s \<Longrightarrow> p = AppRead \<or> p = AppReadNext \<Longrightarrow> deref p s = Some dx \<Longrightarrow>
     dx_decrypt env pn hdr (dx, data) = (Err e, dx', data') \<Longrightarrow>
     recv env expire st log (assign p dx' s)"

text \<open>
  Between two packets: what the windows of the read keys \<open>r\<close> and of the prepared keys \<open>x\<close> say about
  the log, where \<open>timed\<close> tells whether the timer runs.
\<close>

definition old_pns :: "(place \<times> u64) list \<Rightarrow> u64 set" where
  "old_pns log = {pn. (AppRead, pn) \<in> set log}"

definition new_pns :: "(place \<times> u64) list \<Rightarrow> u64 set" where
  "new_pns log = {pn. (AppReadNext, pn) \<in> set log}"

lemma pns_append [simp]:
  "old_pns (log @ [(AppRead, pn)]) = insert pn (old_pns log)"
  "new_pns (log @ [(AppRead, pn)]) = new_pns log"
  "old_pns (log @ [(AppReadNext, pn)]) = old_pns log"
  "new_pns (log @ [(AppReadNext, pn)]) = insert pn (new_pns log)"
  by (auto simp: old_pns_def new_pns_def)

definition read_ok :: "('a, 'h) dx \<Rightarrow> bool" where
  "read_ok dx \<longleftrightarrow> dx_wf dx \<and> dx_direction dx = Read"

definition split_at_window :: "('a, 'h) dx \<Rightarrow> ('a, 'h) dx \<Rightarrow> bool" where
  "split_at_window r x \<longleftrightarrow> \<not> range_is_empty (used_pn x) \<and>
     range_start (used_pn x) = dx_next_pn r \<and> min_pn x = dx_next_pn r"

definition window_rel ::
  "u64 \<Rightarrow> u64 set \<Rightarrow> u64 set \<Rightarrow> ('a, 'h) dx \<Rightarrow> ('a, 'h) dx \<Rightarrow> bool \<Rightarrow> bool" where
  "window_rel low old new r x timed \<longleftrightarrow>
     read_ok r \<and> read_ok x \<and> low \<le> dx_next_pn r \<and> (\<forall>pn \<in> old. pn < dx_next_pn r) \<and>
     (if new = {} then range_is_empty (used_pn x)
      else timed \<and> split_at_window r x \<and> (\<forall>pn \<in> new. dx_next_pn r \<le> pn))"

definition windows :: "u64 \<Rightarrow> (place \<times> u64) list \<Rightarrow> ('k, 'a, 'h) crypto_states \<Rightarrow> bool" where
  "windows low log s \<longleftrightarrow>
     (\<exists>a b. app_read s = Some a \<and> app_read_next s = Some b \<and>
        window_rel low (old_pns log) (new_pns log) (app_dx a) (app_dx b) (read_update_time s \<noteq> None))"

lemma check_pn_overlap_dx:
  assumes "check_pn_overlap env s = (Ok u, t)" and "app_read s = Some a" and "app_read_next s = Some b"
  obtains x where "t = s\<lparr>app_read_next := Some (b\<lparr>app_dx := x\<rparr>)\<rparr>"
    and "read_update_time s = None \<longrightarrow> x = app_dx b"
    and "read_update_time s \<noteq> None \<longrightarrow> dx_continuation env (app_dx b) (app_dx a) = (Ok (), x)"
  using assms
proof (cases "read_update_time s")
  case None
  with assms that [of "app_dx b"] show thesis by (simp add: check_pn_overlap_def)
next
  case (Some e)
  with assms that show thesis by (auto simp: check_pn_overlap_def rust_simps)
qed

lemma key_update_received_dx:
  assumes "key_update_received env expire s = (Ok u, t)"
  shows "app_read t = app_read s" and "app_read_next t = app_read_next s" and "read_update_time t \<noteq> None"
  using assms
  by (auto simp: key_update_received_def maybe_update_write_def rust_simps Let_def split: if_splits)

lemma read_decrypt:
  assumes "dx_decrypt env pn hdr (dx, data) = (Ok n, dx', data')" and "dx_wf dx" and "pn_ok env pn"
  shows "dx_wf dx'" and "dx_direction dx' = dx_direction dx" and "min_pn dx' = min_pn dx" and "min_pn dx \<le> pn"
    and "dx_next_pn dx \<le> dx_next_pn dx'" and "pn < dx_next_pn dx'"
    and "range_start (used_pn dx') =
       (if range_start (used_pn dx) = range_end (used_pn dx) then pn else range_start (used_pn dx))"
proof -
  from assms(1) obtain dx1 where inv: "dx_invoked dx = (Ok (), dx1)"
    and us: "dx_used env pn dx1 = (Ok (), dx')"
    by (clarsimp simp: dx_decrypt_def rust_simps Let_def case_prod_beta)
  have dx1: "dx1 = dx\<lparr>invocations := invocations dx - 1\<rparr>"
    by (rule dx_invoked_Ok(1) [OF inv])
  note ok = dx_decrypt_Ok [OF assms]
  show "dx_wf dx'" and "min_pn dx' = min_pn dx" and "min_pn dx \<le> pn" by (rule ok; simp)+
  show "dx_direction dx' = dx_direction dx"
    using dx_decrypt_same [OF assms(1)] by (simp add: same_key_def)
  show "range_start (used_pn dx') =
       (if range_start (used_pn dx) = range_end (used_pn dx) then pn else range_start (used_pn dx))"
    using us assms(3) by (rule dx_used_effect) (simp add: dx1)
  have "unat (dx_next_pn dx') = max (Suc (unat pn)) (unat (dx_next_pn dx))" by (rule ok)
  then show "dx_next_pn dx \<le> dx_next_pn dx'" and "pn < dx_next_pn dx'"
    by (simp_all add: word_le_nat_alt word_less_nat_alt)
qed

lemma continuation_window:
  assumes "dx_continuation env x r = (Ok u, x')" and "read_ok x"
  shows "read_ok x'" and "range_is_empty (used_pn x) \<Longrightarrow> range_is_empty (used_pn x')"
    and "\<not> range_is_empty (used_pn x) \<Longrightarrow> split_at_window r x' \<and> dx_next_pn r \<le> range_start (used_pn x)"
proof -
  have "dx_wf x" and "dx_direction x = Read" using assms(2) by (simp_all add: read_ok_def)
  then show "read_ok x'"
    using dx_continuation_wf [OF assms(1)] dx_continuation_same [OF assms(1)]
    by (simp add: read_ok_def same_key_def)
  show "range_is_empty (used_pn x) \<Longrightarrow> range_is_empty (used_pn x')"
    using assms(1) by (rule dx_continuation_Ok) (simp add: range_is_empty_def)
  show "\<not> range_is_empty (used_pn x) \<Longrightarrow> split_at_window r x' \<and> dx_next_pn r \<le> range_start (used_pn x)"
    using assms(1) by (rule dx_continuation_Ok) (auto simp: range_is_empty_def split_at_window_def)
qed

lemma window_rel_Old:
  assumes "window_rel low old new r x timed" and "dx_decrypt env pn hdr (r, data) = (Ok n, r', data')"
    and "pn_ok env pn" and "if timed then dx_continuation env x r' = (Ok (), x') else x' = x"
  shows "window_rel low (insert pn old) new r' x' timed"
proof -
  have r: "dx_wf r" "read_ok x" using assms(1) by (simp_all add: window_rel_def read_ok_def)
  note d = read_decrypt [OF assms(2) r(1) assms(3)]
  have base: "read_ok r'" "low \<le> dx_next_pn r'" "\<forall>pn \<in> insert pn old. pn < dx_next_pn r'"
    using assms(1) d(1,2,5,6) by (auto simp: window_rel_def read_ok_def)
  show ?thesis
  proof (cases "new = {}")
    case True
    then have "range_is_empty (used_pn x)" using assms(1) by (simp add: window_rel_def)
    then have "range_is_empty (used_pn x')" "read_ok x'"
      using assms(4) r(2) continuation_window by (auto split: if_splits)
    with True base show ?thesis by (simp add: window_rel_def)
  next
    case False
    then have t: "timed" "split_at_window r x" "\<forall>pn \<in> new. dx_next_pn r \<le> pn"
      using assms(1) by (auto simp: window_rel_def)
    then have "\<not> range_is_empty (used_pn x)" "range_start (used_pn x) = dx_next_pn r"
      by (auto simp: split_at_window_def)
    moreover have cont: "dx_continuation env x r' = (Ok (), x')" using assms(4) t(1) by simp
    ultimately have "split_at_window r' x'" "dx_next_pn r' = dx_next_pn r"
      using continuation_window(3) [OF cont r(2)] d(5) by auto
    with False base t continuation_window(1) [OF cont r(2)] show ?thesis by (simp add: window_rel_def)
  qed
qed

lemma window_rel_New:
  assumes "window_rel low old new r x timed" and "dx_decrypt env pn hdr (x, data) = (Ok n, x1, data')"
    and "pn_ok env pn" and "dx_continuation env x1 r = (Ok (), x')"
  shows "window_rel low old (insert pn new) r x' True"
proof -
  have x: "dx_wf x" "dx_direction x = Read" using assms(1) by (simp_all add: window_rel_def read_ok_def)
  note d = read_decrypt [OF assms(2) x(1) assms(3)]
  have x1: "read_ok x1" using d(1,2) x by (simp add: read_ok_def)
  have start: "range_start (used_pn x1) \<le> pn"
  proof (cases "new = {}")
    case True
    then have "range_start (used_pn x) = range_end (used_pn x)"
      using assms(1) x(1) by (auto simp: window_rel_def range_is_empty_def dx_wf_def)
    then show ?thesis using d(7) by simp
  next
    case False
    then show ?thesis
      using assms(1) d(4,7) by (auto simp: window_rel_def split_at_window_def)
  qed
  then have ne: "\<not> range_is_empty (used_pn x1)"
    using d(6) by (auto simp: range_is_empty_def dx_next_pn_def)
  then have "split_at_window r x'" "dx_next_pn r \<le> pn"
    using continuation_window(3) [OF assms(4) x1] start by auto
  with assms(1) continuation_window(1) [OF assms(4) x1] show ?thesis
    by (auto simp: window_rel_def split: if_splits)
qed

lemma window_rel_invocations:
  "window_rel low old new (r\<lparr>invocations := m\<rparr>) x timed = window_rel low old new r x timed"
  "window_rel low old new r (x\<lparr>invocations := m\<rparr>) timed = window_rel low old new r x timed"
  by (simp_all add: window_rel_def read_ok_def dx_wf_def dx_next_pn_def split_at_window_def)

lemma recv_windows:
  assumes "recv env expire st log s" and "windows low [] st" and "\<forall>p \<in> set log. pn_ok env (snd p)"
  shows "windows low log s"
  using assms
proof (induction rule: recv.induct)
  case Start
  then show ?case by simp
next
  case (Old log s dx pn hdr data n dx' data' u t)
  then obtain a b where a: "app_read s = Some a" "dx = app_dx a" and b: "app_read_next s = Some b"
    and w: "window_rel low (old_pns log) (new_pns log) dx (app_dx b) (read_update_time s \<noteq> None)"
    by (auto simp: windows_def)
  obtain x where t: "t = (assign AppRead dx' s)\<lparr>app_read_next := Some (b\<lparr>app_dx := x\<rparr>)\<rparr>"
    and x: "read_update_time s = None \<longrightarrow> x = app_dx b"
      "read_update_time s \<noteq> None \<longrightarrow> dx_continuation env (app_dx b) dx' = (Ok (), x)"
    using check_pn_overlap_dx [OF Old.hyps(4), of "a\<lparr>app_dx := dx'\<rparr>" b] a b by auto
  show ?case
    using window_rel_Old [OF w Old.hyps(3), of x] Old.prems(2) x t a by (auto simp: windows_def split: if_splits)
next
  case (New log s dx pn hdr data n dx' data' u s' u' t)
  then obtain a b where a: "app_read s = Some a" and b: "app_read_next s = Some b" "dx = app_dx b"
    and w: "window_rel low (old_pns log) (new_pns log) (app_dx a) dx (read_update_time s \<noteq> None)"
    by (auto simp: windows_def)
  have s': "app_read s' = Some a" "app_read_next s' = Some (b\<lparr>app_dx := dx'\<rparr>)" "read_update_time s' \<noteq> None"
    using New.hyps(4) a b key_update_received_dx [of env expire "assign AppReadNext dx' s" u s']
    by (auto split: if_splits)
  obtain x where t: "t = s'\<lparr>app_read_next := Some (b\<lparr>app_dx := x\<rparr>)\<rparr>"
    and x: "dx_continuation env dx' (app_dx a) = (Ok (), x)"
    using check_pn_overlap_dx [OF New.hyps(5) s'(1,2)] s'(3) by auto
  show ?case
    using window_rel_New [OF w New.hyps(3) _ x] New.prems(2) s' t by (auto simp: windows_def)
next
  case (Drop log s p dx pn hdr data e dx' data')
  obtain m where "dx' = dx\<lparr>invocations := m\<rparr>"
    using dx_decrypt_Err [OF Drop.hyps(4)] by blast
  with Drop show ?case
    by (auto simp: windows_def window_rel_invocations)
qed


lemma reachable_windows:
  assumes "states_inv st" and "app_read st = Some r" and "app_read_next st = Some x"
    and "range_is_empty (used_pn (app_dx x))"
  shows "windows (dx_next_pn (app_dx r)) [] st"
  using assms keys_invD(4) [of st r] keys_invD(5) [of st x]
  by (simp add: windows_def window_rel_def old_pns_def new_pns_def read_ok_def states_inv_def key_ok_def)

lemma run_windows:
  assumes "(states_step env)\<^sup>*\<^sup>* crypto_states_default st" and "app_read st = Some r"
    and "app_read_next st = Some x" and "range_is_empty (used_pn (app_dx x))"
    and "recv env expire st log s" and "\<forall>p \<in> set log. pn_ok env (snd p)"
    and "(AppReadNext, n) \<in> set log"
  obtains a b where "app_read s = Some a" and "app_read_next s = Some b" and "n \<in> new_pns log"
    and "window_rel (dx_next_pn (app_dx r)) (old_pns log) (new_pns log) (app_dx a) (app_dx b) True"
    and "read_update_time s \<noteq> None"
proof -
  have "windows (dx_next_pn (app_dx r)) log s"
    by (rule recv_windows [OF assms(5) reachable_windows [OF reachable_inv [OF assms(1)] assms(2-4)] assms(6)])
  then obtain a b where ab: "app_read s = Some a" "app_read_next s = Some b"
    and w: "window_rel (dx_next_pn (app_dx r)) (old_pns log) (new_pns log) (app_dx a) (app_dx b)
      (read_update_time s \<noteq> None)"
    unfolding windows_def by blast
  have n: "n \<in> new_pns log" using assms(7) by (simp add: new_pns_def)
  then have "new_pns log \<noteq> {}" by blast
  then have "read_update_time s \<noteq> None" using w by (simp add: window_rel_def)
  with w ab n that show thesis by simp
qed

text \<open>
  C1. Starting from any state a connection reaches in which the prepared read keys have not been used
  yet, as long as \<^verbatim>\<open>check_pn_overlap\<close> after each packet succeeds, every packet unprotected with the new
  keys has a packet number above that of every packet unprotected with the old keys, those received
  before and those received after the update was noticed.
\<close>

theorem old_below_new:
  assumes "(states_step env)\<^sup>*\<^sup>* crypto_states_default st" and "app_read st = Some r"
    and "app_read_next st = Some x" and "range_is_empty (used_pn (app_dx x))"
    and "recv env expire st log s" and "\<forall>p \<in> set log. pn_ok env (snd p)"
    and "(AppReadNext, n) \<in> set log"
  shows "dx_next_pn (app_dx r) \<le> n \<and> (\<forall>pn. (AppRead, pn) \<in> set log \<longrightarrow> pn < n)"
proof -
  from assms obtain a b where "app_read s = Some a" and "app_read_next s = Some b" and "n \<in> new_pns log"
    and "window_rel (dx_next_pn (app_dx r)) (old_pns log) (new_pns log) (app_dx a) (app_dx b) True"
    by (rule run_windows)
  then have w: "dx_next_pn (app_dx r) \<le> dx_next_pn (app_dx a)" "dx_next_pn (app_dx a) \<le> n"
    "\<forall>pn \<in> old_pns log. pn < dx_next_pn (app_dx a)"
    by (auto simp: window_rel_def split: if_splits)
  show ?thesis
    using w(1,2) order.strict_trans2 [OF _ w(2)] w(3) by (auto simp: old_pns_def)
qed

text \<open>
  C30. Once a packet has been unprotected with the new keys, a delayed packet under the old keys whose
  number is not below all those seen under the old keys is unprotected and then makes
  \<^verbatim>\<open>check_pn_overlap\<close> fail, even if its number is below that of every packet under the new keys: the
  start of the new window was lowered to the end of the old one.
\<close>

theorem delayed_old_packet_fatal:
  assumes "(states_step env)\<^sup>*\<^sup>* crypto_states_default st" and "app_read st = Some r"
    and "app_read_next st = Some x" and "range_is_empty (used_pn (app_dx x))"
    and "recv env expire st log s" and "\<forall>p \<in> set log. pn_ok env (snd p)"
    and "(AppReadNext, n) \<in> set log" and "deref AppRead s = Some dx"
    and "dx_decrypt env pn hdr (dx, data) = (Ok k, dx', data')" and "pn_ok env pn"
    and "dx_next_pn dx \<le> pn"
  shows "\<exists>t. check_pn_overlap env (assign AppRead dx' s) = (Err PacketNumberOverlap, t)"
proof -
  from assms(1-7) obtain a b where "app_read s = Some a" and b: "app_read_next s = Some b"
    and "n \<in> new_pns log" and "read_update_time s \<noteq> None"
    and "window_rel (dx_next_pn (app_dx r)) (old_pns log) (new_pns log) (app_dx a) (app_dx b) True"
    by (rule run_windows)
  with assms(8) have a: "app_read s = Some a" "dx = app_dx a"
    and w: "read_ok dx" "read_ok (app_dx b)" "split_at_window dx (app_dx b)" "read_update_time s \<noteq> None"
    by (auto simp: window_rel_def split: if_splits)
  have "dx_next_pn dx < dx_next_pn dx'" "dx_direction dx' = Read"
    using read_decrypt(2,6) [OF assms(9) _ assms(10)] w(1) assms(11) by (auto simp: read_ok_def)
  then show ?thesis
    using w(2-4) a b
    by (auto simp: check_pn_overlap_def dx_continuation_def Let_def split_at_window_def read_ok_def
        dx_next_pn_def)
qed

subsection \<open>A concrete run\<close>

text \<open>Packet 96 under the old keys, then packet 100 under the new ones.\<close>

definition sample_old :: "(nat list, nat list) dx" where
  "sample_old = (sample_dx Read)\<lparr>used_pn := mk_range 96 97, invocations := push_bit 52 1 - 1\<rparr>"

definition sample_new :: "u64 \<Rightarrow> u64 \<Rightarrow> (nat list, nat list) dx" where
  "sample_new m k = (app_dx (sample_next Read))
     \<lparr>used_pn := mk_range k 101, min_pn := m, invocations := push_bit 52 1 - 1\<rparr>"

definition sample_seen_old :: "(nat list, nat list, nat list) crypto_states" where
  "sample_seen_old = assign AppRead sample_old sample_states"

definition sample_seen_new :: "(nat list, nat list, nat list) crypto_states" where
  "sample_seen_new = (assign AppReadNext (sample_new 97 97) sample_seen_old)
     \<lparr>app_write := Some (sample_next Write), read_update_time := Some 5\<rparr>"

lemma sample_decrypt:
  "dx_decrypt (sample_env d) 96 (mk_range 0 4) (sample_dx Read, replicate 30 5) =
     (Ok 10, sample_old, replicate 30 5)"
  "dx_decrypt (sample_env d) 100 (mk_range 0 4) (app_dx (sample_next Read), replicate 30 5) =
     (Ok 10, sample_new 0 100, replicate 30 5)"
  "dx_decrypt (sample_env d) 97 (mk_range 0 4) (sample_old, replicate 30 5) =
     (Ok 10, sample_old\<lparr>used_pn := mk_range 96 98, invocations := push_bit 52 1 - 2\<rparr>, replicate 30 5)"
  by (simp_all add: dx_eval sample_old_def sample_new_def sample_next_def flip: replicate_add)

lemmas sample_states_eval = sample_seen_old_def sample_seen_new_def sample_states_def sample_app_def
  crypto_states_default_def

lemma sample_recv:
  "recv (sample_env True) 5 sample_states [(AppRead, 96), (AppReadNext, 100)] sample_seen_new"
proof -
  have 0: "recv (sample_env True) 5 sample_states [] sample_states" by (rule recv.Start)
  have "check_pn_overlap (sample_env True) sample_seen_old = (Ok (), sample_seen_old)"
    by (simp add: check_pn_overlap_def sample_states_eval)
  then have "recv (sample_env True) 5 sample_states ([] @ [(AppRead, 96)]) sample_seen_old"
    unfolding sample_seen_old_def
    by (intro recv.Old [OF 0 _ sample_decrypt(1)]) (simp add: sample_states_eval)
  then have 1: "recv (sample_env True) 5 sample_states [(AppRead, 96)] sample_seen_old" by simp
  let ?s = "(assign AppReadNext (sample_new 0 100) sample_seen_old)
     \<lparr>app_write := Some (sample_next Write), read_update_time := Some 5\<rparr>"
  have t: "read_update_time sample_seen_old = None" by (simp add: sample_states_eval)
  have u: "key_update_received (sample_env True) 5 (assign AppReadNext (sample_new 0 100) sample_seen_old) =
      (Ok (), ?s)"
    using sample_next_app [of True Write]
    by (simp add: key_update_received_def maybe_update_write_def has_0rtt_read_def app_epoch_def
        sample_states_eval sample_old_def sample_dx_def)
  have c: "check_pn_overlap (sample_env True) ?s = (Ok (), sample_seen_new)"
    by (simp add: check_pn_overlap_def sample_states_eval sample_new_def sample_old_def dx_continuation_def
        sample_dx_def sample_next_def dx_next_pn_def range_is_empty_def)
  have d: "deref AppReadNext sample_seen_old = Some (app_dx (sample_next Read))"
    by (simp add: sample_states_eval)
  have "recv (sample_env True) 5 sample_states ([(AppRead, 96)] @ [(AppReadNext, 100)]) sample_seen_new"
    by (rule recv.New [OF 1 d sample_decrypt(2) _ c]) (simp only: t u simp_thms if_True)
  then show ?thesis by simp
qed

lemma sample_unused:
  "app_read sample_states = Some (sample_app Read)" "app_read_next sample_states = Some (sample_next Read)"
  "range_is_empty (used_pn (app_dx (sample_next Read)))"
  by (simp_all add: sample_states_def sample_next_def sample_dx_def range_is_empty_def)

theorem old_below_new_witness:
  "recv (sample_env True) 5 sample_states [(AppRead, 96), (AppReadNext, 100)] sample_seen_new \<and>
   (96 :: u64) < 100"
  using old_below_new [OF sample_reachable sample_unused sample_recv, of 100] sample_recv
  by (simp add: pn_ok_def)

theorem delayed_old_packet_fatal_witness:
  "\<exists>dx' t. dx_decrypt (sample_env True) 97 (mk_range 0 4) (sample_old, replicate 30 5) = (Ok 10, dx', replicate 30 5) \<and>
     deref AppRead sample_seen_new = Some sample_old \<and>
     check_pn_overlap (sample_env True) (assign AppRead dx' sample_seen_new) = (Err PacketNumberOverlap, t)"
proof -
  have old: "deref AppRead sample_seen_new = Some sample_old" and n: "dx_next_pn sample_old \<le> 97"
    by (simp_all add: sample_states_eval) (simp add: sample_old_def dx_next_pn_def)
  have "\<exists>t. check_pn_overlap (sample_env True)
      (assign AppRead (sample_old\<lparr>used_pn := mk_range 96 98, invocations := push_bit 52 1 - 2\<rparr>) sample_seen_new) =
      (Err PacketNumberOverlap, t)"
    by (rule delayed_old_packet_fatal [OF sample_reachable sample_unused sample_recv _ _ old sample_decrypt(3) _ n,
          where n = 100]) (simp_all add: pn_ok_def)
  with old sample_decrypt(3) [of True] show ?thesis by blast
qed

section \<open>A key update from start to end\<close>

text \<open>
  C15. A key update that the peer starts comes to an end: after \<^verbatim>\<open>key_update_received\<close> the write keys
  are at the epoch of the prepared read keys, \<^verbatim>\<open>check_key_update\<close> changes nothing before the timer
  expires, and the first call at or after it makes the prepared keys the read keys, prepares the
  next ones and stops the timer, so that read and write keys are at the same epoch again.
\<close>

theorem key_update_completes:
  assumes "(states_step env)\<^sup>*\<^sup>* crypto_states_default st" and "app_read_next st = Some n"
    and "key_update_received (debug_build env) expire st = (Ok u, s)"
    and "app_next (debug_build env) n = Ok m"
  shows "(now < expire \<longrightarrow> check_key_update (debug_build env) now s = (Ok (), s)) \<and>
     (expire \<le> now \<longrightarrow> (\<exists>t w. check_key_update (debug_build env) now s = (Ok (), t) \<and>
        app_read t = Some n \<and> app_read_next t = Some m \<and> read_update_time t = None \<and>
        app_write t = Some w \<and> app_epoch w = app_epoch n))"
proof -
  note inv = reachable_inv [OF assms(1)]
  from assms(3) obtain b s1 where mu: "maybe_update_write (debug_build env) st = (Ok b, s1)"
    and z: "\<not> has_0rtt_read s1" and s: "s = s1\<lparr>read_update_time := Some expire\<rparr>"
    using maybe_update_write_inv(2) [OF _ inv]
    by (auto simp: key_update_received_def rust_simps Let_def)
  obtain w where w: "app_write s1 = Some w" "app_read_next s1 = Some n" "app_epoch w = app_epoch n"
    using maybe_update_write_inv(4) [OF mu inv] key_update_received_dx(2) [OF assms(3)] assms(2) s by auto
  have "\<not> has_0rtt_read s" using z s by (simp add: has_0rtt_read_def)
  then show ?thesis
    using w s assms(4) by (auto simp: check_key_update_def Let_def)
qed

theorem key_update_completes_witness:
  "\<exists>s t. key_update_received (sample_env True) 5 sample_states = (Ok (), s) \<and>
     check_key_update (sample_env True) 4 s = (Ok (), s) \<and>
     check_key_update (sample_env True) 5 s = (Ok (), t) \<and> app_read t = Some (sample_next Read)"
proof -
  obtain s where s: "key_update_received (sample_env True) 5 sample_states = (Ok (), s)"
    using sample_next_app [of True Write]
    by (simp add: key_update_received_def maybe_update_write_def has_0rtt_read_def app_epoch_def
        sample_states_eval sample_dx_def)
  have c: "app_cipher (sample_next Read) = 0x1301" "unat (app_epoch (sample_next Read)) < 100"
    by (simp_all add: sample_next_def app_epoch_def)
  then obtain m where m: "app_next (sample_env True) (sample_next Read) = Ok m"
    using sample_app_next by blast
  from key_update_completes [OF sample_reachable [of True] sample_unused(2), of 5 "()" s m]
  have "check_key_update (sample_env True) 4 s = (Ok (), s)"
    and "\<exists>t. check_key_update (sample_env True) 5 s = (Ok (), t) \<and> app_read t = Some (sample_next Read)"
    using s m by auto
  with s show ?thesis by blast
qed



end
