(* ===== verification/Peers.thy ===== *)
theory Peers
  imports Key_Update
begin

text \<open>
  Two endpoints that run this code. A packet that one protects is unprotected by the other: the Initial
  keys both derive from the connection identifier, the keys both make from the same handshake secrets,
  and the application keys through any sequence of operations and key updates on either side.
\<close>

section \<open>Keys that belong together\<close>

text \<open>An AEAD made for opening opens what the AEAD made for sealing from the same secret sealed.\<close>

definition aead_law :: "('k, 'a, 'h) crypto_env \<Rightarrow> bool" where
  "aead_law env \<longleftrightarrow> (\<forall>v cipher k prefix w r.
     aead_new env v cipher k prefix Encrypt = Ok w \<longrightarrow> aead_new env v cipher k prefix Decrypt = Ok r \<longrightarrow>
     aead_opens env w r)"

text \<open>Write keys of one endpoint and read keys of the other, made from the same secret.\<close>

definition key_pair :: "('k, 'a, 'h) crypto_env \<Rightarrow> ('a, 'h) dx \<Rightarrow> ('a, 'h) dx \<Rightarrow> bool" where
  "key_pair env w r \<longleftrightarrow>
     dx_direction w = Write \<and> dx_direction r = Read \<and> dx_epoch w = dx_epoch r \<and> dx_hpkey w = dx_hpkey r \<and>
     (\<exists>v cipher k prefix. aead_new env v cipher k prefix Encrypt = Ok (dx_aead w) \<and>
        aead_new env v cipher k prefix Decrypt = Ok (dx_aead r))"

text \<open>
  What it means that the receiver's keys \<open>r\<close> open a packet that \<open>w\<close> protects: header and plaintext come
  back, as long as the receiver's keys have invocations left and its window admits the number.
\<close>

definition opens :: "('k, 'a, 'h) crypto_env \<Rightarrow> ('a, 'h) dx \<Rightarrow> ('a, 'h) dx \<Rightarrow> bool" where
  "opens env w r \<longleftrightarrow> dx_hpkey r = dx_hpkey w \<and>
     (\<forall>pn h data n w' ct. dx_encrypt env pn (mk_range 0 h) (w, data) = (Ok n, w', ct) \<longrightarrow>
        pn \<noteq> - 1 \<longrightarrow> invocations r \<noteq> 0 \<longrightarrow> min_pn r \<le> pn \<longrightarrow>
        (\<exists>m r' pt. dx_decrypt env pn (mk_range 0 h) (r, ct) = (Ok m, r', pt) \<and>
           unat h + unat m + unat (dx_expansion env w) = length data \<and>
           take (unat h + unat m) pt = take (unat h + unat m) data))"

lemma key_pair_opens:
  assumes "key_pair env w r" and "dx_wf w" and "aead_law env"
  shows "opens env w r"
proof -
  have "aead_opens env (dx_aead w) (dx_aead r)" and "dx_direction r = Read"
    using assms(1,3) unfolding key_pair_def aead_law_def by blast+
  with assms(1,2) show ?thesis
    using unprotect_protected by (auto simp: opens_def key_pair_def)
qed

lemma key_pair_same:
  "key_pair env w r \<Longrightarrow> same_key w w' \<Longrightarrow> same_key r r' \<Longrightarrow> key_pair env w' r'"
  by (simp add: key_pair_def same_key_def)

lemma key_pair_new:
  assumes "dx_new env v Write ep k cipher pn0 = Ok w" and "dx_new env v Read ep k cipher pn0' = Ok r"
  shows "key_pair env w r"
  using dx_new_Ok(2,3,8,9) [OF assms(1)] dx_new_Ok(2,3,8,9) [OF assms(2)] by (auto simp: key_pair_def)

lemma key_pair_new_initial:
  assumes "dx_new_initial env v Write label dcid pn0 = Ok w" and "dx_new_initial env v Read label dcid pn0' = Ok r"
  shows "key_pair env w r"
  using assms by (auto simp: dx_new_initial_def Let_def rust_simps intro: key_pair_new)

section \<open>Initial keys\<close>

text \<open>What \<^verbatim>\<open>init\<close> leaves for one version: the keys of the labels, whatever they continue.\<close>

definition initial_keys ::
  "('k, 'a, 'h) crypto_env \<Rightarrow> string \<times> string \<Rightarrow> bytes \<Rightarrow> version \<Rightarrow> ('k, 'a, 'h) crypto_states \<Rightarrow> bool" where
  "initial_keys env labels dcid v st \<longleftrightarrow>
     (\<exists>s pn0 pn0' t r. initials st v = Some s \<and> dx_wf (cs_tx s) \<and> dx_wf (cs_rx s) \<and>
        dx_new_initial env v Write (fst labels) dcid pn0 = Ok t \<and> same_key t (cs_tx s) \<and>
        dx_new_initial env v Read (snd labels) dcid pn0' = Ok r \<and> same_key r (cs_rx s))"

lemma init_version_keys:
  assumes "init_version env labels dcid pn0 v st = (Ok u, st')"
  shows "initial_keys env labels dcid v st'" and "w \<noteq> v \<Longrightarrow> initials st' w = initials st w"
proof -
  from assms obtain t r where t: "dx_new_initial env v Write (fst labels) dcid pn0 = Ok t"
    and r: "dx_new_initial env v Read (snd labels) dcid 0 = Ok r"
    by (auto simp: init_version_def rust_simps)
  note wf = dx_new_initial_Ok(1) [OF t] dx_new_initial_Ok(1) [OF r]
  have "\<exists>s. st' = st\<lparr>initials := (initials st)(v \<mapsto> s)\<rparr> \<and> dx_wf (cs_tx s) \<and> dx_wf (cs_rx s) \<and>
      same_key t (cs_tx s) \<and> same_key r (cs_rx s)"
  proof (cases "initials st v")
    case None
    with assms t r wf show ?thesis by (auto simp: init_version_def)
  next
    case (Some p)
    with assms t r wf show ?thesis
      by (auto simp: init_version_def rust_simps intro: dx_continuation_wf dest: dx_continuation_same)
        (metis crypto_state.select_convs dx_continuation_same dx_continuation_wf)
  qed
  then show "initial_keys env labels dcid v st'" and "w \<noteq> v \<Longrightarrow> initials st' w = initials st w"
    using t r by (auto simp: initial_keys_def) blast
qed

lemma init_versions_keys:
  assumes "init_versions env labels dcid pn0 vs st = (Ok u, st')" and "v \<in> set vs \<or> initial_keys env labels dcid v st"
  shows "initial_keys env labels dcid v st'"
  using assms
proof (induction vs arbitrary: st)
  case (Cons x vs)
  then obtain t where t: "init_version env labels dcid pn0 x st = (Ok (), t)"
    and vs: "init_versions env labels dcid pn0 vs t = (Ok u, st')"
    by (auto simp: rust_simps)
  have "v \<in> set vs \<or> initial_keys env labels dcid v t"
    using init_version_keys [OF t] Cons.prems(2) by (cases "v = x") (auto simp: initial_keys_def)
  with vs show ?case by (rule Cons.IH)
qed simp

lemma initial_keys_pair:
  assumes "initial_keys env (l, l') dcid v a" and "initial_keys env (l', l) dcid v b"
  obtains s t where "initials a v = Some s" and "initials b v = Some t"
    and "key_pair env (cs_tx s) (cs_rx t)" and "key_pair env (cs_tx t) (cs_rx s)"
    and "dx_wf (cs_tx s)" and "dx_wf (cs_tx t)"
  using assms key_pair_new_initial key_pair_same by (auto simp: initial_keys_def) blast


text \<open>
  C21. A client that derives Initial keys and a server that derives them for the identifier the client
  chose open each other's Initial packets, for every version the client prepared keys for.
\<close>

theorem initial_packets_open:
  assumes "states_init env vs Client dcid rand rnd crypto_states_default = (Ok (), a)" and "v \<in> set vs"
    and "init_server env v dcid rand' rnd' crypto_states_default = (Ok (), b)" and "aead_law env"
  shows "\<exists>wa wb ra rb. tx a v Initial = Some wa \<and> tx b v Initial = Some wb \<and>
     rx a v Initial phase = Some (InitialRx v) \<and> deref (InitialRx v) a = Some ra \<and>
     rx b v Initial phase = Some (InitialRx v) \<and> deref (InitialRx v) b = Some rb \<and>
     opens env wa rb \<and> opens env wb ra"
proof -
  have "initial_keys env (''client in'', ''server in'') dcid v a"
    using init_versions_keys [OF _ disjI1 [OF assms(2)]] assms(1) by (simp add: states_init_def init_labels_def)
  moreover have "initial_keys env (''server in'', ''client in'') dcid v b"
    using init_versions_keys [of env _ dcid _ "[v]" _ _ b v] assms(3)
    by (auto simp: states_init_def init_labels_def init_server_def crypto_states_default_def simp del: init_versions.simps)
  ultimately obtain s t where "initials a v = Some s" and "initials b v = Some t"
    and "key_pair env (cs_tx s) (cs_rx t)" and "key_pair env (cs_tx t) (cs_rx s)"
    and "dx_wf (cs_tx s)" and "dx_wf (cs_tx t)"
    by (rule initial_keys_pair)
  with key_pair_opens [OF _ _ assms(4)] show ?thesis by simp
qed

lemma sample_aead_law: "aead_law (sample_env d)"
  by (simp add: aead_law_def sample_aead_opens)

lemma sample_initial:
  "\<exists>dx. dx_new_initial (sample_env d) v dir label dcid pn0 = Ok dx"
  by (cases dir) (simp_all add: dx_new_initial_def dx_new_def from_crypto_def Let_def limit_def)

lemma sample_init: "\<exists>st. states_init (sample_env d) [v] role dcid rand r crypto_states_default = (Ok (), st)"
proof -
  let ?l = "init_labels role" and ?pn = "first_pn rand r"
  obtain t u where "dx_new_initial (sample_env d) v Write (fst ?l) dcid ?pn = Ok t"
    and "dx_new_initial (sample_env d) v Read (snd ?l) dcid 0 = Ok u"
    using sample_initial by blast
  then show ?thesis by (simp add: states_init_def init_version_def crypto_states_default_def)
qed

theorem initial_packets_open_witness:
  "\<exists>a b wa rb. states_init (sample_env True) [Version2] Client [1, 2] True (3, 4) crypto_states_default = (Ok (), a) \<and>
     init_server (sample_env True) Version2 [1, 2] False (0, 0) crypto_states_default = (Ok (), b) \<and>
     tx a Version2 Initial = Some wa \<and> deref (InitialRx Version2) b = Some rb \<and> opens (sample_env True) wa rb"
proof -
  obtain a where a: "states_init (sample_env True) [Version2] Client [1, 2] True (3, 4) crypto_states_default = (Ok (), a)"
    using sample_init by blast
  obtain b where "states_init (sample_env True) [Version2] Server [1, 2] False (0, 0) crypto_states_default = (Ok (), b)"
    using sample_init by blast
  then have b: "init_server (sample_env True) Version2 [1, 2] False (0, 0) crypto_states_default = (Ok (), b)"
    by (simp add: init_server_def crypto_states_default_def)
  from initial_packets_open [OF a _ b sample_aead_law] a b show ?thesis by auto
qed

section \<open>Handshake and 0-RTT keys\<close>

lemma key_pair_new_opens:
  assumes "dx_new env v Write ep k cipher pn0 = Ok w" and "dx_new env v Read ep k cipher pn0' = Ok r"
    and "aead_law env"
  shows "opens env w r"
  using key_pair_new [OF assms(1,2)] dx_new_wf [OF assms(1)] assms(3) by (rule key_pair_opens)

lemma set_0rtt_keys_Ok:
  assumes "set_0rtt_keys env v dir k cipher s = (Ok u, t)"
  obtains z where "dx_new env v dir ZeroRtt k cipher 0 = Ok z" and "t = s\<lparr>zero_rtt := Some z\<rparr>"
  using assms by (auto simp: set_0rtt_keys_def rust_simps)

lemma set_handshake_keys_Ok:
  assumes "set_handshake_keys env v k k' cipher s = (Ok u, t)"
  obtains w r where "dx_new env v Write Handshake k cipher 0 = Ok w" and "dx_new env v Read Handshake k' cipher 0 = Ok r"
    and "t = s\<lparr>states_cipher := cipher, handshake_keys := Some \<lparr>cs_tx = w, cs_rx = r\<rparr>\<rparr>"
  using assms by (auto simp: set_handshake_keys_def Let_def rust_simps)

text \<open>
  C22. A client and a server that install the 0-RTT secret and then the two handshake secrets, each
  writing with the one the other reads with: the server's keys open the client's 0-RTT packets, and
  each side's Handshake keys open the Handshake packets of the other.
\<close>

theorem handshake_packets_open:
  assumes "set_0rtt_keys env v Write k0 c0 a = (Ok (), a1)" and "set_handshake_keys env v k k' c a1 = (Ok (), a2)"
    and "set_0rtt_keys env v Read k0 c0 b = (Ok (), b1)" and "set_handshake_keys env v k' k c b1 = (Ok (), b2)"
    and "aead_law env"
  shows "\<exists>w0 r0 wa wb ra rb. tx a2 v ZeroRtt = Some w0 \<and> rx b2 v ZeroRtt phase = Some ZeroRttKeys \<and>
     deref ZeroRttKeys b2 = Some r0 \<and> opens env w0 r0 \<and>
     tx a2 v Handshake = Some wa \<and> deref HandshakeRx b2 = Some rb \<and> opens env wa rb \<and>
     tx b2 v Handshake = Some wb \<and> deref HandshakeRx a2 = Some ra \<and> opens env wb ra"
proof -
  obtain w0 where w0: "dx_new env v Write ZeroRtt k0 c0 0 = Ok w0" and a1: "a1 = a\<lparr>zero_rtt := Some w0\<rparr>"
    using assms(1) by (rule set_0rtt_keys_Ok)
  obtain r0 where r0: "dx_new env v Read ZeroRtt k0 c0 0 = Ok r0" and b1: "b1 = b\<lparr>zero_rtt := Some r0\<rparr>"
    using assms(3) by (rule set_0rtt_keys_Ok)
  obtain wa ra where h: "dx_new env v Write Handshake k c 0 = Ok wa" "dx_new env v Read Handshake k' c 0 = Ok ra"
    and a2: "a2 = a1\<lparr>states_cipher := c, handshake_keys := Some \<lparr>cs_tx = wa, cs_rx = ra\<rparr>\<rparr>"
    using assms(2) by (rule set_handshake_keys_Ok)
  obtain wb rb where g: "dx_new env v Write Handshake k' c 0 = Ok wb" "dx_new env v Read Handshake k c 0 = Ok rb"
    and b2: "b2 = b1\<lparr>states_cipher := c, handshake_keys := Some \<lparr>cs_tx = wb, cs_rx = rb\<rparr>\<rparr>"
    using assms(4) by (rule set_handshake_keys_Ok)
  have "tx a2 v ZeroRtt = Some w0" "rx b2 v ZeroRtt phase = Some ZeroRttKeys" "deref ZeroRttKeys b2 = Some r0"
    using dx_new_Ok(2) [OF w0] dx_new_Ok(2) [OF r0] by (simp_all add: a2 b2 a1 b1)
  moreover have "tx a2 v Handshake = Some wa" "deref HandshakeRx b2 = Some rb" "tx b2 v Handshake = Some wb"
    "deref HandshakeRx a2 = Some ra"
    by (simp_all add: a2 b2)
  ultimately show ?thesis
    using key_pair_new_opens [OF w0 r0 assms(5)] key_pair_new_opens [OF h(1) g(2) assms(5)]
      key_pair_new_opens [OF g(1) h(2) assms(5)] by blast
qed

lemma sample_fresh: "\<exists>dx. dx_new (sample_env d) v dir ep k 0x1301 pn0 = Ok dx"
  by (cases dir) (simp_all add: dx_new_def from_crypto_def Let_def limit_def)

theorem handshake_packets_open_witness:
  "\<exists>a1 a2 b1 b2 w0 r0. set_0rtt_keys (sample_env True) Version1 Write [9] 0x1301 crypto_states_default = (Ok (), a1) \<and>
     set_handshake_keys (sample_env True) Version1 [7] [8] 0x1301 a1 = (Ok (), a2) \<and>
     set_0rtt_keys (sample_env True) Version1 Read [9] 0x1301 crypto_states_default = (Ok (), b1) \<and>
     set_handshake_keys (sample_env True) Version1 [8] [7] 0x1301 b1 = (Ok (), b2) \<and>
     tx a2 Version1 ZeroRtt = Some w0 \<and> deref ZeroRttKeys b2 = Some r0 \<and> opens (sample_env True) w0 r0"
proof -
  have z: "\<exists>t. set_0rtt_keys (sample_env True) Version1 dir [9] 0x1301 crypto_states_default = (Ok (), t)" for dir
  proof -
    obtain x where "dx_new (sample_env True) Version1 dir ZeroRtt [9] 0x1301 0 = Ok x" using sample_fresh by blast
    then show ?thesis by (simp add: set_0rtt_keys_def)
  qed
  have h: "\<exists>t. set_handshake_keys (sample_env True) Version1 k k' 0x1301 s = (Ok (), t)" for k k' s
  proof -
    obtain x y where "dx_new (sample_env True) Version1 Write Handshake k 0x1301 0 = Ok x"
      and "dx_new (sample_env True) Version1 Read Handshake k' 0x1301 0 = Ok y"
      using sample_fresh by blast
    then show ?thesis by (simp add: set_handshake_keys_def Let_def)
  qed
  obtain a1 where a1: "set_0rtt_keys (sample_env True) Version1 Write [9] 0x1301 crypto_states_default = (Ok (), a1)"
    using z by blast
  obtain a2 where a2: "set_handshake_keys (sample_env True) Version1 [7] [8] 0x1301 a1 = (Ok (), a2)"
    using h by blast
  obtain b1 where b1: "set_0rtt_keys (sample_env True) Version1 Read [9] 0x1301 crypto_states_default = (Ok (), b1)"
    using z by blast
  obtain b2 where b2: "set_handshake_keys (sample_env True) Version1 [8] [7] 0x1301 b1 = (Ok (), b2)"
    using h by blast
  from handshake_packets_open [OF a1 a2 b1 b2 sample_aead_law] a1 a2 b1 b2 show ?thesis by blast
qed

section \<open>Application keys\<close>

text \<open>
  How one operation changes the application keys: they are replaced by their successors or only their
  packet number window and budget change.
\<close>

definition touched :: "('k, 'a, 'h) app_data \<Rightarrow> ('k, 'a, 'h) app_data \<Rightarrow> bool" where
  "touched a b \<longleftrightarrow> (\<exists>dx. same_key (app_dx a) dx \<and> b = a\<lparr>app_dx := dx\<rparr>)"

lemma touched_refl [simp]: "touched a a"
  by (auto simp: touched_def intro: exI [of _ "app_dx a"])

lemma touchedI: "same_key (app_dx a) dx \<Longrightarrow> touched a (a\<lparr>app_dx := dx\<rparr>)"
  by (auto simp: touched_def)

definition write_keys_step ::
  "('k, 'a, 'h) crypto_env \<Rightarrow> ('k, 'a, 'h) crypto_states \<Rightarrow> ('k, 'a, 'h) crypto_states \<Rightarrow> bool" where
  "write_keys_step env s t \<longleftrightarrow> (\<forall>a. app_write s = Some a \<longrightarrow>
     (\<exists>b. app_write t = Some b \<and> (touched a b \<or> app_next (debug_build env) a = Ok b)))"

definition read_keys_step ::
  "('k, 'a, 'h) crypto_env \<Rightarrow> ('k, 'a, 'h) crypto_states \<Rightarrow> ('k, 'a, 'h) crypto_states \<Rightarrow> bool" where
  "read_keys_step env s t \<longleftrightarrow> (\<forall>a x. app_read s = Some a \<longrightarrow> app_read_next s = Some x \<longrightarrow>
     (\<exists>b y. app_read t = Some b \<and> app_read_next t = Some y \<and>
        (touched a b \<and> touched x y \<or> b = x \<and> app_next (debug_build env) x = Ok y)))"

lemma same_app_steps:
  assumes "app_write t = app_write s" and "app_read t = app_read s" and "app_read_next t = app_read_next s"
  shows "write_keys_step env s t" and "read_keys_step env s t"
  using assms by (auto simp: write_keys_step_def read_keys_step_def)

lemma same_read_keys_step:
  assumes "app_read t = app_read s" and "app_read_next t = app_read_next s"
  shows "read_keys_step env s t"
  using assms by (auto simp: read_keys_step_def)

lemma maybe_update_write_app:
  assumes "maybe_update_write (debug_build env) s = (Ok b, t)"
  shows "write_keys_step env s t" and "app_read t = app_read s" and "app_read_next t = app_read_next s"
  using assms
  by (auto simp: maybe_update_write_def write_keys_step_def rust_simps split: if_splits)

lemma assign_app:
  assumes "deref p s = Some dx" and "same_key dx dx'"
  shows "write_keys_step env s (assign p dx' s)" and "read_keys_step env s (assign p dx' s)"
  using assms
  by (cases p; auto simp: write_keys_step_def read_keys_step_def intro: touchedI split: option.splits)+

lemma states_step_app:
  assumes "states_step env s t" and "states_inv s"
  shows "write_keys_step env s t \<and> read_keys_step env s t"
  using assms(1)
proof (cases rule: states_step.cases)
  case (Init vs role dcid rand r u)
  then have "\<exists>i. t = s\<lparr>initials := i\<rparr>"
    using assms(2) unfolding states_init_def by (metis init_versions_inv states_inv_def)
  then show ?thesis by (auto intro: same_app_steps)
next
  case (Init_Server v dcid rand r u)
  then have "t = s \<or> (\<exists>i. t = s\<lparr>initials := i\<rparr>)"
    using assms(2) unfolding states_init_def init_server_def
    by (metis init_versions_inv states_inv_def Pair_inject)
  then show ?thesis by (auto intro: same_app_steps)
next
  case (Confirm_Version v v' u)
  then have "\<exists>i. t = s\<lparr>initials := i\<rparr>"
    using assms(2) by (metis states_confirm_version_inv states_inv_def)
  then show ?thesis by (auto intro: same_app_steps)
next
  case (Rx_Hp v ep p)
  then have "\<exists>i. t = s\<lparr>initials := i\<rparr>"
    using assms(2) by (metis rx_hp_inv states_inv_def)
  then show ?thesis by (auto intro: same_app_steps)
next
  case (Discard space d)
  then show ?thesis by (cases space) (auto intro: same_app_steps)
next
  case (Set_Write v secret u)
  then have "app_write s = None" "app_read t = app_read s" "app_read_next t = app_read_next s"
    by (auto simp: set_application_write_key_def rust_simps Let_def split: option.splits if_splits)
  then show ?thesis by (simp add: write_keys_step_def read_keys_step_def)
next
  case (Set_Read v secret expire u)
  then have "app_read s = None" "app_write t = app_write s"
    by (auto simp: set_application_read_key_def rust_simps Let_def split: option.splits if_splits)
  then show ?thesis by (simp add: write_keys_step_def read_keys_step_def)
next
  case (Initiate la u)
  then obtain b where "maybe_update_write (debug_build env) s = (Ok b, t)"
    by (auto simp: initiate_key_update_def rust_simps split: if_splits)
  then show ?thesis using maybe_update_write_app same_read_keys_step by blast
next
  case (Auto u)
  then have "t = s \<or> (\<exists>b. maybe_update_write (debug_build env) s = (Ok b, t))"
    by (auto simp: auto_update_def rust_simps split: if_splits option.splits)
  then show ?thesis using maybe_update_write_app same_read_keys_step same_app_steps by blast
next
  case (Received expire u)
  then obtain b m where m: "maybe_update_write (debug_build env) s = (Ok b, m)"
    and t: "app_write t = app_write m" "app_read t = app_read m" "app_read_next t = app_read_next m"
    by (auto simp: key_update_received_def rust_simps Let_def split: if_splits)
  have "write_keys_step env s t" using maybe_update_write_app(1) [OF m] t(1) by (simp add: write_keys_step_def)
  then show ?thesis using maybe_update_write_app(2,3) [OF m] t same_read_keys_step by simp
next
  case (Check_Update now u)
  then show ?thesis
    by (auto simp: check_key_update_def write_keys_step_def read_keys_step_def rust_simps Let_def
        split: option.splits if_splits)
next
  case (Check_Overlap u)
  then show ?thesis
    by (auto simp: check_pn_overlap_def write_keys_step_def read_keys_step_def rust_simps
        intro: touchedI dest!: dx_continuation_same split: if_splits)
next
  case (Encrypt v space ep p dx pn hdr data res dx' data')
  then show ?thesis using assign_app dx_encrypt_same by metis
next
  case (Decrypt v ep phase p dx pn hdr data res dx' data')
  then show ?thesis using assign_app dx_decrypt_same by metis
qed (auto simp: set_0rtt_keys_def discard_0rtt_keys_def set_handshake_keys_def rust_simps Let_def intro!: same_app_steps)


subsection \<open>The keys stay on the ladder of the secret they were made from\<close>

definition writes_from ::
  "('k, 'a, 'h) crypto_env \<Rightarrow> version \<Rightarrow> 'k \<Rightarrow> cipher \<Rightarrow> ('k, 'a, 'h) crypto_states \<Rightarrow> bool" where
  "writes_from env v secret cipher st \<longleftrightarrow>
     (\<exists>a n. app_write st = Some a \<and> on_ladder env Write v secret cipher n a)"

definition reads_from ::
  "('k, 'a, 'h) crypto_env \<Rightarrow> version \<Rightarrow> 'k \<Rightarrow> cipher \<Rightarrow> ('k, 'a, 'h) crypto_states \<Rightarrow> bool" where
  "reads_from env v secret cipher st \<longleftrightarrow>
     (\<exists>a x m. app_read st = Some a \<and> app_read_next st = Some x \<and>
        on_ladder env Read v secret cipher m a \<and> on_ladder env Read v secret cipher (Suc m) x)"

lemma on_ladder_touched:
  "on_ladder env dir v secret cipher n a \<Longrightarrow> touched a b \<Longrightarrow> on_ladder env dir v secret cipher n b"
  by (auto simp: touched_def intro: on_ladder_same_key)

interpretation sender: machine "states_step env"
    "\<lambda>st. states_inv st \<and> (clone_law env \<longrightarrow> writes_from env v secret cipher st)" for env v secret cipher
proof
  fix s t :: "('a, 'b, 'c) crypto_states"
  assume st: "states_step env s t" and "states_inv s \<and> (clone_law env \<longrightarrow> writes_from env v secret cipher s)"
  then show "states_inv t \<and> (clone_law env \<longrightarrow> writes_from env v secret cipher t)"
    using states_step_app [OF st] key_states.step_inv [OF st] on_ladder_touched on_ladder_next
    by (fastforce simp: writes_from_def write_keys_step_def)
qed

interpretation receiver: machine "states_step env"
    "\<lambda>st. states_inv st \<and> (clone_law env \<longrightarrow> reads_from env v secret cipher st)" for env v secret cipher
proof
  fix s t :: "('a, 'b, 'c) crypto_states"
  assume st: "states_step env s t" and inv: "states_inv s \<and> (clone_law env \<longrightarrow> reads_from env v secret cipher s)"
  show "states_inv t \<and> (clone_law env \<longrightarrow> reads_from env v secret cipher t)"
  proof (intro conjI impI)
    show "states_inv t" using key_states.step_inv [OF st] inv by blast
    assume law: "clone_law env"
    with inv obtain a x m where "app_read s = Some a" "app_read_next s = Some x"
      and l: "on_ladder env Read v secret cipher m a" "on_ladder env Read v secret cipher (Suc m) x"
      by (auto simp: reads_from_def)
    with states_step_app [OF st] inv obtain b y where t: "app_read t = Some b" "app_read_next t = Some y"
      and "touched a b \<and> touched x y \<or> b = x \<and> app_next (debug_build env) x = Ok y"
      by (auto simp: read_keys_step_def)
    then have "\<exists>m. on_ladder env Read v secret cipher m b \<and> on_ladder env Read v secret cipher (Suc m) y"
      using on_ladder_touched [OF l(1)] on_ladder_touched [OF l(2)] l(2) on_ladder_next [OF l(2) _ law] by metis
    with t show "reads_from env v secret cipher t" by (auto simp: reads_from_def)
  qed
qed

lemma set_write_from:
  assumes "set_application_write_key (debug_build env) v secret s = (Ok u, t)"
  shows "writes_from env v secret (states_cipher s) t"
proof -
  from assms obtain a where a: "app_new env v Write secret (states_cipher s) = Ok a"
    by (auto simp: set_application_write_key_def rust_simps)
  with assms have "\<exists>b. app_write t = Some b \<and> touched a b"
    by (auto simp: set_application_write_key_def rust_simps Let_def intro: touchedI dest!: dx_continuation_same
        split: option.splits if_splits)
  then show ?thesis
    using on_ladder_touched [OF on_ladder_new [OF a]] by (auto simp: writes_from_def)
qed

lemma set_read_from:
  assumes "set_application_read_key (debug_build env) v secret expire s = (Ok u, t)" and "clone_law env"
  shows "reads_from env v secret (states_cipher s) t"
proof -
  from assms(1) obtain a where a: "app_new env v Read secret (states_cipher s) = Ok a"
    by (auto simp: set_application_read_key_def rust_simps)
  with assms(1) have "\<exists>b x. app_read t = Some b \<and> app_read_next t = Some x \<and> touched a b \<and>
      app_next (debug_build env) b = Ok x"
    by (auto simp: set_application_read_key_def rust_simps Let_def intro: touchedI dest!: dx_continuation_same
        split: option.splits if_splits)
  then show ?thesis
    using on_ladder_new [OF a] on_ladder_touched on_ladder_next [OF _ _ assms(2)] by (fastforce simp: reads_from_def)
qed

lemma on_ladder_pair:
  assumes "on_ladder env Write v secret cipher n a" and "on_ladder env Read v secret cipher m b"
    and "app_epoch a = app_epoch b"
  shows "key_pair env (app_dx a) (app_dx b)"
proof -
  have "n = m" using assms by (simp add: on_ladder_def)
  with assms show ?thesis by (auto simp: on_ladder_def key_pair_def app_epoch_def) blast
qed

text \<open>
  C2. Two endpoints that installed the same application secret, one for writing and one for reading,
  and then went through any operations and key updates each: a packet the sender protects carries the
  key phase by which the receiver selects keys, and whenever the sender's epoch is that of the
  receiver's read keys or of its prepared keys the keys selected are the matching ones. They remove the
  header protection and return header and plaintext.
\<close>

theorem application_packets_open:
  assumes "aead_law env" and "clone_law env" and "states_cipher a0 = states_cipher b0"
    and "(states_step env)\<^sup>*\<^sup>* crypto_states_default a0" and "(states_step env)\<^sup>*\<^sup>* crypto_states_default b0"
    and "set_application_write_key (debug_build env) v secret a0 = (Ok (), a1)" and "(states_step env)\<^sup>*\<^sup>* a1 a"
    and "set_application_read_key (debug_build env) v secret expire b0 = (Ok (), b1)" and "(states_step env)\<^sup>*\<^sup>* b1 b"
    and "tx a v ApplicationData = Some w" and "app_read b = Some r" and "app_read_next b = Some x"
    and "dx_epoch w = app_epoch r \<or> dx_epoch w = app_epoch x"
  shows "\<exists>p dx. rx b v ApplicationData (dx_key_phase w) = Some p \<and> deref p b = Some dx \<and> opens env w dx"
proof -
  have "states_inv a1" "states_inv b1"
    using reachable_inv assms(4-6,8) set_application_write_key_inv set_application_read_key_inv by metis+
  then have a: "states_inv a" "writes_from env v secret (states_cipher b0) a"
    and b: "states_inv b" "reads_from env v secret (states_cipher b0) b"
    using sender.steps_inv [OF assms(7)] receiver.steps_inv [OF assms(9)] set_write_from [OF assms(6)]
      set_read_from [OF assms(8,2)] assms(2,3) by metis+
  from a assms(10) obtain y n where w: "w = app_dx y" "on_ladder env Write v secret (states_cipher b0) n y" "dx_wf w"
    by (auto simp: writes_from_def states_inv_def key_ok_def dest: keys_invD(3))
  from b assms(11,12) obtain m where r: "on_ladder env Read v secret (states_cipher b0) m r"
    "on_ladder env Read v secret (states_cipher b0) (Suc m) x"
    by (auto simp: reads_from_def)
  have e: "unat (app_epoch r) = 3 + m" "unat (app_epoch x) = 4 + m" using r by (simp_all add: on_ladder_def)
  have "\<exists>p z. rx b v ApplicationData (dx_key_phase w) = Some p \<and> deref p b = Some (app_dx z) \<and>
      (z = r \<or> z = x) \<and> dx_epoch w = app_epoch z"
    using assms(11-13) e by (auto simp: xor_option_Some key_phase_parity app_epoch_def) 
  then show ?thesis
    using on_ladder_pair w r key_pair_opens assms(1) by (metis app_epoch_def)
qed


text \<open>The sender has started a key update that the receiver has not seen yet.\<close>

theorem application_packets_open_witness:
  "\<exists>dx. rx sample_states Version1 ApplicationData True = Some AppReadNext \<and>
     deref AppReadNext sample_states = Some dx \<and> opens (sample_env True) (app_dx (sample_next Write)) dx"
proof -
  let ?sa = "crypto_states_default
     \<lparr>handshake_keys := Some \<lparr>cs_tx = sample_hs Write, cs_rx = sample_hs Read\<rparr>, states_cipher := 0x1301\<rparr>"
  let ?sb = "?sa\<lparr>app_write := Some (sample_app Write)\<rparr>" and ?e = "sample_env True"
  let ?sc = "sample_states\<lparr>app_write := Some (sample_next Write)\<rparr>"
  have "states_step ?e crypto_states_default ?sa"
    by (rule states_step.Set_Handshake [where v = Version1 and wsecret = "[7]" and rsecret = "[7]" and cipher = "0x1301"])
      (simp add: set_handshake_keys_def sample_hs_new Let_def)
  then have a0: "(states_step ?e)\<^sup>*\<^sup>* crypto_states_default ?sa" by blast
  have wr: "set_application_write_key (debug_build ?e) Version1 [7] ?sa = (Ok (), ?sb)"
    by (simp add: set_application_write_key_def sample_app_new crypto_states_default_def)
  then have "states_step ?e ?sa ?sb" by (rule states_step.Set_Write)
  with a0 have b0: "(states_step ?e)\<^sup>*\<^sup>* crypto_states_default ?sb" by (rule rtranclp.rtrancl_into_rtrancl)
  have rd: "set_application_read_key (debug_build ?e) Version1 [7] 0 ?sb = (Ok (), sample_states)"
    by (simp add: set_application_read_key_def sample_app_new sample_next_app crypto_states_default_def
        sample_states_def)
  then have 1: "states_step ?e ?sb sample_states" by (rule states_step.Set_Read)
  have "initiate_key_update (debug_build ?e) None sample_states = (Ok (), ?sc)"
    using sample_next_app [of True Write]
    by (simp add: initiate_key_update_def maybe_update_write_def dx_can_update_def sample_states_eval
        app_epoch_def sample_dx_def)
  then have 2: "states_step ?e sample_states ?sc" by (rule states_step.Initiate)
  have a: "(states_step ?e)\<^sup>*\<^sup>* ?sb ?sc" using 1 2 by (meson r_into_rtranclp rtranclp.rtrancl_into_rtrancl)
  have c: "states_cipher ?sa = states_cipher ?sb" by simp
  have w: "tx ?sc Version1 ApplicationData = Some (app_dx (sample_next Write))" by simp
  have n: "app_read_next sample_states = Some (sample_next Read)" "app_read sample_states = Some (sample_app Read)"
    by (simp_all add: sample_states_def)
  have law: "clone_law ?e" by (simp add: clone_law_def)
  have e: "dx_epoch (app_dx (sample_next Write)) = app_epoch (sample_app Read) \<or>
      dx_epoch (app_dx (sample_next Write)) = app_epoch (sample_next Read)"
    by (simp add: sample_next_def app_epoch_def)
  have k: "dx_key_phase (app_dx (sample_next Write))" by (simp add: dx_key_phase_def sample_next_def)
  from application_packets_open [OF sample_aead_law law c a0 b0 wr a rd _ w n(2,1) e]
  obtain p dx where "rx sample_states Version1 ApplicationData True = Some p" and "deref p sample_states = Some dx"
    and "opens ?e (app_dx (sample_next Write)) dx"
    using k by auto
  moreover have "rx sample_states Version1 ApplicationData True = Some AppReadNext"
    by (simp add: sample_states_eval sample_dx_def dx_key_phase_def filter_mut_def sample_next_def)
  ultimately show ?thesis by auto
qed

end
