(* ===== verification/Crypto_Streams.thy ===== *)
theory Crypto_Streams
  imports Crypto_States
begin

text \<open>
  \<^verbatim>\<open>CryptoStreams\<close> of \<^verbatim>\<open>neqo-transport/src/crypto.rs\<close>: one stream of TLS handshake bytes for each
  packet number space, the spaces disappearing in order, and the CRYPTO frames written from them.
  The send buffer, the reassembly buffer, the packet builder and the search for the server name are
  code of other modules: the record \<open>stream_env\<close> has one function for each call, over abstract types
  \<open>'t\<close>, \<open>'r\<close> and \<open>'b\<close> of their states. \<open>encode_crypto_frame\<close> is the call of \<^verbatim>\<open>encode_frame\<close> that writes
  the frame type, the offset, the length and the data.
\<close>

section \<open>The code that is called\<close>

record ('t, 'r, 'b) stream_env =
  stream_dbg :: bool
  tx_default :: 't
  tx_send :: "bytes \<Rightarrow> 't \<Rightarrow> 't"
  tx_next_bytes :: "'t \<Rightarrow> (u64 \<times> bytes) option \<times> 't"
  tx_mark_as_sent :: "u64 \<Rightarrow> usize \<Rightarrow> 't \<Rightarrow> 't"
  tx_mark_as_acked :: "u64 \<Rightarrow> usize \<Rightarrow> 't \<Rightarrow> 't"
  tx_mark_as_lost :: "u64 \<Rightarrow> usize \<Rightarrow> 't \<Rightarrow> 't"
  tx_unmark_sent :: "'t \<Rightarrow> 't"
  tx_is_empty :: "'t \<Rightarrow> bool \<times> 't"
  rx_default :: 'r
  rx_inbound_frame :: "u64 \<Rightarrow> bytes \<Rightarrow> 'r \<Rightarrow> 'r"
  rx_received :: "'r \<Rightarrow> u64"
  rx_retired :: "'r \<Rightarrow> u64"
  rx_data_ready :: "'r \<Rightarrow> bool"
  rx_read_to_end :: "bytes \<Rightarrow> 'r \<Rightarrow> usize \<times> bytes \<times> 'r"
  builder_remaining :: "'b \<Rightarrow> usize"
  builder_limit :: "'b \<Rightarrow> usize"
  encode_crypto_frame :: "u64 \<Rightarrow> bytes \<Rightarrow> 'b \<Rightarrow> 'b"
  varint_len :: "u64 \<Rightarrow> usize"
  find_sni :: "bytes \<Rightarrow> usize range option"

section \<open>The streams\<close>

record ('t, 'r) crypto_stream =
  st_tx :: 't
  st_rx :: 'r

datatype ('t, 'r) crypto_streams =
    InitialStreams "('t, 'r) crypto_stream" "('t, 'r) crypto_stream" "('t, 'r) crypto_stream"
  | HandshakeStreams "('t, 'r) crypto_stream" "('t, 'r) crypto_stream"
  | ApplicationDataStreams "('t, 'r) crypto_stream"

record crypto_recovery_token =
  tok_space :: packet_number_space
  tok_offset :: u64
  tok_length :: usize

definition BUFFER_LIMIT :: u64 where
  "BUFFER_LIMIT = 65536"

definition crypto_stream_default :: "('t, 'r, 'b) stream_env \<Rightarrow> ('t, 'r) crypto_stream" where
  "crypto_stream_default env = \<lparr>st_tx = tx_default env, st_rx = rx_default env\<rparr>"

definition streams_default :: "('t, 'r, 'b) stream_env \<Rightarrow> ('t, 'r) crypto_streams" where
  "streams_default env =
     InitialStreams (crypto_stream_default env) (crypto_stream_default env) (crypto_stream_default env)"

fun streams_discard ::
  "packet_number_space \<Rightarrow> ('t, 'r) crypto_streams \<Rightarrow>
   (transport_error, unit) result \<times> ('t, 'r) crypto_streams" where
  "streams_discard InitialSpace (InitialStreams i h a) = (Ok (), HandshakeStreams h a)"
| "streams_discard InitialSpace s = (Ok (), s)"
| "streams_discard HandshakeSpace (HandshakeStreams h a) = (Ok (), ApplicationDataStreams a)"
| "streams_discard HandshakeSpace (InitialStreams i h a) = (Panic, InitialStreams i h a)"
| "streams_discard HandshakeSpace s = (Ok (), s)"
| "streams_discard ApplicationDataSpace s = (Panic, s)"

fun streams_get :: "packet_number_space \<Rightarrow> ('t, 'r) crypto_streams \<Rightarrow> ('t, 'r) crypto_stream option" where
  "streams_get InitialSpace (InitialStreams i h a) = Some i"
| "streams_get HandshakeSpace (InitialStreams i h a) = Some h"
| "streams_get ApplicationDataSpace (InitialStreams i h a) = Some a"
| "streams_get InitialSpace (HandshakeStreams h a) = None"
| "streams_get HandshakeSpace (HandshakeStreams h a) = Some h"
| "streams_get ApplicationDataSpace (HandshakeStreams h a) = Some a"
| "streams_get InitialSpace (ApplicationDataStreams a) = None"
| "streams_get HandshakeSpace (ApplicationDataStreams a) = None"
| "streams_get ApplicationDataSpace (ApplicationDataStreams a) = Some a"

text \<open>
  \<^verbatim>\<open>get_mut\<close> returns a reference to the same stream as \<^verbatim>\<open>get\<close>; \<open>streams_put\<close> writes through it.
\<close>

fun streams_put ::
  "packet_number_space \<Rightarrow> ('t, 'r) crypto_stream \<Rightarrow> ('t, 'r) crypto_streams \<Rightarrow> ('t, 'r) crypto_streams" where
  "streams_put InitialSpace c (InitialStreams i h a) = InitialStreams c h a"
| "streams_put HandshakeSpace c (InitialStreams i h a) = InitialStreams i c a"
| "streams_put ApplicationDataSpace c (InitialStreams i h a) = InitialStreams i h c"
| "streams_put HandshakeSpace c (HandshakeStreams h a) = HandshakeStreams c a"
| "streams_put ApplicationDataSpace c (HandshakeStreams h a) = HandshakeStreams h c"
| "streams_put ApplicationDataSpace c (ApplicationDataStreams a) = ApplicationDataStreams c"
| "streams_put _ c s = s"

definition streams_send ::
  "('t, 'r, 'b) stream_env \<Rightarrow> packet_number_space \<Rightarrow> bytes \<Rightarrow> ('t, 'r) crypto_streams \<Rightarrow>
   (transport_error, unit) result \<times> ('t, 'r) crypto_streams" where
  "streams_send env space data s =
     try_st (ok_or (streams_get space s) ProtocolViolation) s (\<lambda>cs.
       (Ok (), streams_put space (cs\<lparr>st_tx := tx_send env data (st_tx cs)\<rparr>) s))"

definition inbound_frame ::
  "('t, 'r, 'b) stream_env \<Rightarrow> packet_number_space \<Rightarrow> u64 \<Rightarrow> bytes \<Rightarrow> ('t, 'r) crypto_streams \<Rightarrow>
   (transport_error, unit) result \<times> ('t, 'r) crypto_streams" where
  "inbound_frame env space offset data s =
     try_st (ok_or (streams_get space s) Internal) s (\<lambda>cs.
       (let rx' = rx_inbound_frame env offset data (st_rx cs);
            s = streams_put space (cs\<lparr>st_rx := rx'\<rparr>) s in
        try_st (sub_w (stream_dbg env) (rx_received env rx') (rx_retired env rx')) s (\<lambda>n.
          if n \<le> BUFFER_LIMIT then (Ok (), s) else (Err CryptoBufferExceeded, s))))"

definition data_ready ::
  "('t, 'r, 'b) stream_env \<Rightarrow> packet_number_space \<Rightarrow> ('t, 'r) crypto_streams \<Rightarrow> bool" where
  "data_ready env space s =
     (case streams_get space s of None \<Rightarrow> False | Some cs \<Rightarrow> rx_data_ready env (st_rx cs))"

definition read_to_end ::
  "('t, 'r, 'b) stream_env \<Rightarrow> packet_number_space \<Rightarrow> ('t, 'r) crypto_streams \<times> bytes \<Rightarrow>
   (transport_error, usize) result \<times> ('t, 'r) crypto_streams \<times> bytes" where
  "read_to_end env space = (\<lambda>(s, buf).
     try_st (ok_or (streams_get space s) ProtocolViolation) (s, buf) (\<lambda>cs.
       (let (n, buf, rx') = rx_read_to_end env buf (st_rx cs) in
        (Ok n, streams_put space (cs\<lparr>st_rx := rx'\<rparr>) s, buf))))"

definition streams_acked ::
  "('t, 'r, 'b) stream_env \<Rightarrow> crypto_recovery_token \<Rightarrow> ('t, 'r) crypto_streams \<Rightarrow> ('t, 'r) crypto_streams" where
  "streams_acked env token s =
     (case streams_get (tok_space token) s of
        None \<Rightarrow> s
      | Some cs \<Rightarrow> streams_put (tok_space token)
          (cs\<lparr>st_tx := tx_mark_as_acked env (tok_offset token) (tok_length token) (st_tx cs)\<rparr>) s)"

definition streams_lost ::
  "('t, 'r, 'b) stream_env \<Rightarrow> crypto_recovery_token \<Rightarrow> ('t, 'r) crypto_streams \<Rightarrow> ('t, 'r) crypto_streams" where
  "streams_lost env token s =
     (case streams_get (tok_space token) s of
        None \<Rightarrow> s
      | Some cs \<Rightarrow> streams_put (tok_space token)
          (cs\<lparr>st_tx := tx_mark_as_lost env (tok_offset token) (tok_length token) (st_tx cs)\<rparr>) s)"

definition streams_resend_unacked ::
  "('t, 'r, 'b) stream_env \<Rightarrow> packet_number_space \<Rightarrow> ('t, 'r) crypto_streams \<Rightarrow> ('t, 'r) crypto_streams" where
  "streams_resend_unacked env space s =
     (if space \<noteq> ApplicationDataSpace then
        (case streams_get space s of
           None \<Rightarrow> s
         | Some cs \<Rightarrow> streams_put space (cs\<lparr>st_tx := tx_unmark_sent env (st_tx cs)\<rparr>) s)
      else s)"

definition streams_is_empty ::
  "('t, 'r, 'b) stream_env \<Rightarrow> packet_number_space \<Rightarrow> ('t, 'r) crypto_streams \<Rightarrow>
   bool \<times> ('t, 'r) crypto_streams" where
  "streams_is_empty env space s =
     (case streams_get space s of
        None \<Rightarrow> (True, s)
      | Some cs \<Rightarrow> (let (e, tx') = tx_is_empty env (st_tx cs) in
          (e, streams_put space (cs\<lparr>st_tx := tx'\<rparr>) s)))"

section \<open>Writing CRYPTO frames\<close>

text \<open>The state that the loop of \<^verbatim>\<open>write_frame\<close> works on.\<close>

record ('t, 'r, 'b) frame_state =
  fs_stream :: "('t, 'r) crypto_stream"
  fs_builder :: 'b
  fs_tokens :: "crypto_recovery_token list"
  fs_stats :: usize

definition write_chunk ::
  "('t, 'r, 'b) stream_env \<Rightarrow> u64 \<Rightarrow> bytes \<Rightarrow> 'b \<Rightarrow>
   (transport_error, (u64 \<times> usize) option) result \<times> 'b" where
  "write_chunk env offset data builder =
     (let d = stream_dbg env; rem = builder_remaining env builder in
      try_st (bind_res (add_w d 1 (varint_len env offset)) (\<lambda>h. add_w d h 1)) builder (\<lambda>header_len.
      try_st (add_w d header_len 1) builder (\<lambda>need.
        if rem < need then (Ok None, builder)
        else
          try_st (sub_w d rem header_len) builder (\<lambda>room.
          try_st (bind_res (sub_w d (varint_len env (min (len data) room)) 1) (\<lambda>v. add_w d header_len v))
            builder (\<lambda>header_len.
          try_st (sub_w d rem header_len) builder (\<lambda>room.
          try_st (slice data (mk_range 0 (min (len data) room))) builder (\<lambda>chunk.
            (Ok (Some (offset, min (len data) room)), encode_crypto_frame env offset chunk builder))))))))"

definition mark_as_sent ::
  "('t, 'r, 'b) stream_env \<Rightarrow> packet_number_space \<Rightarrow> u64 \<Rightarrow> usize \<Rightarrow> ('t, 'r, 'b) frame_state \<Rightarrow>
   (transport_error, unit) result \<times> ('t, 'r, 'b) frame_state" where
  "mark_as_sent env space offset n fs =
     (let cs = fs_stream fs;
          fs = fs\<lparr>fs_stream := cs\<lparr>st_tx := tx_mark_as_sent env offset n (st_tx cs)\<rparr>,
                  fs_tokens := fs_tokens fs @ [\<lparr>tok_space = space, tok_offset = offset, tok_length = n\<rparr>]\<rparr> in
      try_st (add_w (stream_dbg env) (fs_stats fs) 1) fs (\<lambda>k. (Ok (), fs\<lparr>fs_stats := k\<rparr>)))"

definition limit_chunks ::
  "bool \<Rightarrow> u64 \<times> bytes \<Rightarrow> u64 \<times> bytes \<Rightarrow> usize \<Rightarrow>
   (transport_error, (u64 \<times> bytes) \<times> (u64 \<times> bytes)) result" where
  "limit_chunks d = (\<lambda>(left_offset, left) (right_offset, right) limit.
     bind_res (add_w d (len left) (len right)) (\<lambda>total.
       if total \<le> limit then Ok ((left_offset, left), (right_offset, right))
       else if len left \<le> limit then
         bind_res (bind_res (add_w d (len right) (len left)) (\<lambda>s. sub_w d s limit)) (\<lambda>right_len.
         bind_res (add_w d right_offset right_len) (\<lambda>right_offset.
         bind_res (split_at right right_len) (\<lambda>(_, right).
           Ok ((left_offset, left), (right_offset, right)))))
       else if len right \<le> limit then
         bind_res (sub_w d limit (len right)) (\<lambda>n.
         bind_res (split_at left n) (\<lambda>(left, _).
           Ok ((left_offset, left), (right_offset, right))))
       else
         bind_res (split_at left (limit div 2)) (\<lambda>(left, _).
         bind_res (split_at right (limit div 2)) (\<lambda>(right, _).
           Ok ((left_offset, left), (right_offset, right))))))"

text \<open>Division panics on zero in both builds; \<^verbatim>\<open>div_ceil\<close> rounds up.\<close>

definition div_usize :: "usize \<Rightarrow> usize \<Rightarrow> ('e, usize) result" where
  "div_usize a b = (if b = 0 then Panic else Ok (a div b))"

definition div_ceil :: "usize \<Rightarrow> usize \<Rightarrow> ('e, usize) result" where
  "div_ceil a b = (if b = 0 then Panic else Ok (if a mod b = 0 then a div b else a div b + 1))"

text \<open>The value of \<^verbatim>\<open>written\<close>: what one pass of the loop puts into the packet.\<close>

definition write_sliced ::
  "('t, 'r, 'b) stream_env \<Rightarrow> u64 \<Rightarrow> bytes \<Rightarrow> usize range \<Rightarrow> 'b \<Rightarrow>
   (transport_error, (u64 \<times> usize) option \<times> (u64 \<times> usize) option) result \<times> 'b" where
  "write_sliced env offset data sni builder =
     (let d = stream_dbg env in
      try_st (bind_res (sub_w d (range_end sni) (range_start sni)) (\<lambda>w. add_w d (range_start sni) (w div 2)))
        builder (\<lambda>mid.
      try_st (split_at data mid) builder (\<lambda>(left, right).
      try_st (div_ceil (len data) (builder_limit env builder)) builder (\<lambda>packets_needed.
      try_st (div_usize (len data) packets_needed) builder (\<lambda>limit.
      try_st (bind_res (add_w d offset mid) (\<lambda>ro. limit_chunks d (offset, left) (ro, right) limit)) builder
        (\<lambda>((left_offset, left), (right_offset, right)).
      bind_st (write_chunk env right_offset right builder) (\<lambda>r builder.
      bind_st (write_chunk env left_offset left builder) (\<lambda>l builder.
        (Ok (r, l), builder)) id) id))))))"

definition write_pass ::
  "('t, 'r, 'b) stream_env \<Rightarrow> bool \<Rightarrow> u64 \<Rightarrow> bytes \<Rightarrow> 'b \<Rightarrow>
   (transport_error, (u64 \<times> usize) option \<times> (u64 \<times> usize) option) result \<times> 'b" where
  "write_pass env sni_slicing offset data builder =
     (let whole = bind_st (write_chunk env offset data builder) (\<lambda>w builder. (Ok (w, None), builder)) id in
      if sni_slicing \<and> offset = 0 then
        (case find_sni env data of
           Some sni \<Rightarrow> write_sliced env offset data sni builder
         | None \<Rightarrow> whole)
      else whole)"

text \<open>One pass of the loop; the result tells whether there is another one.\<close>

definition write_step ::
  "('t, 'r, 'b) stream_env \<Rightarrow> packet_number_space \<Rightarrow> bool \<Rightarrow> ('t, 'r, 'b) frame_state \<Rightarrow>
   (transport_error, bool) result \<times> ('t, 'r, 'b) frame_state" where
  "write_step env space sni_slicing fs =
     (let cs = fs_stream fs; (nb, tx') = tx_next_bytes env (st_tx cs);
          fs = fs\<lparr>fs_stream := cs\<lparr>st_tx := tx'\<rparr>\<rparr> in
      case nb of
        None \<Rightarrow> (Ok False, fs)
      | Some (offset, data) \<Rightarrow>
          bind_st (write_pass env sni_slicing offset data (fs_builder fs)) (\<lambda>written b.
            (let fs = fs\<lparr>fs_builder := b\<rparr> in
             case written of
               (None, None) \<Rightarrow> (Ok False, fs)
             | (None, Some (offset, n)) \<Rightarrow>
                 bind_st (mark_as_sent env space offset n fs) (\<lambda>_ fs. (Ok True, fs)) id
             | (Some (offset, n), None) \<Rightarrow>
                 bind_st (mark_as_sent env space offset n fs) (\<lambda>_ fs. (Ok True, fs)) id
             | (Some (offset1, n1), Some (offset2, n2)) \<Rightarrow>
                 bind_st (mark_as_sent env space offset1 n1 fs) (\<lambda>_ fs.
                 bind_st (mark_as_sent env space offset2 n2 fs) (\<lambda>_ fs. (Ok False, fs)) id) id))
            (\<lambda>b. fs\<lparr>fs_builder := b\<rparr>))"

partial_function (option) write_loop ::
  "('t, 'r, 'b) stream_env \<Rightarrow> packet_number_space \<Rightarrow> bool \<Rightarrow> ('t, 'r, 'b) frame_state \<Rightarrow>
   ((transport_error, unit) result \<times> ('t, 'r, 'b) frame_state) option" where
  "write_loop env space sni_slicing fs =
     (case write_step env space sni_slicing fs of
        (Ok again, fs) \<Rightarrow>
          if again then write_loop env space sni_slicing fs else Some (Ok (), fs)
      | (Err e, fs) \<Rightarrow> Some (Err e, fs)
      | (Panic, fs) \<Rightarrow> Some (Panic, fs))"

definition streams_write_frame ::
  "('t, 'r, 'b) stream_env \<Rightarrow> packet_number_space \<Rightarrow> bool \<Rightarrow>
   ('t, 'r) crypto_streams \<times> 'b \<times> crypto_recovery_token list \<times> usize \<Rightarrow>
   ((transport_error, unit) result \<times> ('t, 'r) crypto_streams \<times> 'b \<times> crypto_recovery_token list \<times> usize) option"
where
  "streams_write_frame env space sni_slicing = (\<lambda>(s, builder, tokens, stats).
     (case streams_get space s of
        None \<Rightarrow> Some (Ok (), s, builder, tokens, stats)
      | Some cs \<Rightarrow>
          map_option (\<lambda>(r, fs). (r, streams_put space (fs_stream fs) s, fs_builder fs, fs_tokens fs, fs_stats fs))
            (write_loop env space sni_slicing
               \<lparr>fs_stream = cs, fs_builder = builder, fs_tokens = tokens, fs_stats = stats\<rparr>)))"

section \<open>Streams behave like memory and disappear in order\<close>

interpretation streams: store streams_get streams_put
proof (standard, goal_cases)
  case (1 p s u v)
  then show ?case by (cases p; cases s) auto
next
  case (2 p q v s)
  then show ?case by (cases p; cases q; cases s) auto
qed

lemma all_spaces: "(\<forall>q. P q) \<longleftrightarrow> P InitialSpace \<and> P HandshakeSpace \<and> P ApplicationDataSpace"
  by (metis packet_number_space.exhaust)

definition stream_spaces :: "('t, 'r) crypto_streams \<Rightarrow> packet_number_space set" where
  "stream_spaces s = {sp. streams_get sp s \<noteq> None}"

lemma stream_spaces_put [simp]: "stream_spaces (streams_put sp c s) = stream_spaces s"
proof -
  have "streams_get q (streams_put sp c s) = None \<longleftrightarrow> streams_get q s = None" for q
    by (cases q; cases sp; cases s) simp_all
  then show ?thesis by (simp add: stream_spaces_def)
qed

text \<open>
  Discarding a packet number space removes its stream and no other, leaves the remaining streams
  as they are and does nothing when repeated; it panics exactly when application data is discarded or
  when Handshake is discarded before Initial.
\<close>

lemma streams_discard_exact:
  "(case streams_discard sp s of
      (Ok _, s') \<Rightarrow> (\<forall>q. streams_get q s' = (if q = sp then None else streams_get q s)) \<and>
        streams_discard sp s' = (Ok (), s')
    | (Err _, _) \<Rightarrow> False
    | (Panic, s') \<Rightarrow> s' = s \<and>
        (sp = ApplicationDataSpace \<or> sp = HandshakeSpace \<and> InitialSpace \<in> stream_spaces s))"
  by (cases sp; cases s) (simp_all add: stream_spaces_def all_spaces)

text \<open>
  Apart from discarding, no operation adds or removes a space; a space that is gone answers every
  operation without a change, with \<^verbatim>\<open>ProtocolViolation\<close> for sending and reading and \<^verbatim>\<open>Internal\<close> for an
  incoming frame, while a late acknowledgement or loss for it is ignored.
\<close>

lemma discarded_space_inert:
  assumes "sp \<notin> stream_spaces s" and "tok_space token = sp"
  shows "streams_send env sp data s = (Err ProtocolViolation, s) \<and>
     inbound_frame env sp offset data s = (Err Internal, s) \<and>
     read_to_end env sp (s, buf) = (Err ProtocolViolation, s, buf) \<and>
     \<not> data_ready env sp s \<and> streams_acked env token s = s \<and> streams_lost env token s = s \<and>
     streams_resend_unacked env sp s = s \<and> streams_is_empty env sp s = (True, s) \<and>
     streams_write_frame env sp sni (s, builder, tokens, stats) = Some (Ok (), s, builder, tokens, stats)"
proof -
  have "streams_get sp s = None" using assms(1) by (simp add: stream_spaces_def)
  with assms(2) show ?thesis
    by (simp add: streams_send_def inbound_frame_def read_to_end_def data_ready_def streams_acked_def
        streams_lost_def streams_resend_unacked_def streams_is_empty_def streams_write_frame_def)
qed

text \<open>
  C37. An incoming CRYPTO frame is always stored in its stream; it is then accepted exactly when no more
  than 65536 received bytes are waiting to be read, and other streams are not affected.
\<close>

theorem inbound_frame_limit:
  assumes "streams_get sp s = Some cs" and "rx' = rx_inbound_frame env offset data (st_rx cs)"
    and "rx_retired env rx' \<le> rx_received env rx'"
  shows "\<exists>s'. inbound_frame env sp offset data s =
       (if unat (rx_received env rx') - unat (rx_retired env rx') \<le> 65536 then Ok ()
        else Err CryptoBufferExceeded, s') \<and>
     streams_get sp s' = Some (cs\<lparr>st_rx := rx'\<rparr>) \<and> (\<forall>q. q \<noteq> sp \<longrightarrow> streams_get q s' = streams_get q s)"
proof -
  have "unat (rx_received env rx' - rx_retired env rx') = unat (rx_received env rx') - unat (rx_retired env rx')"
    using assms(3) by (simp add: unat_sub word_le_nat_alt)
  then have "rx_received env rx' - rx_retired env rx' \<le> BUFFER_LIMIT \<longleftrightarrow>
      unat (rx_received env rx') - unat (rx_retired env rx') \<le> 65536"
    by (simp add: word_le_nat_alt BUFFER_LIMIT_def)
  then show ?thesis
    using assms streams.get_put [OF assms(1)]
    by (auto simp: inbound_frame_def sub_w_def Let_def intro!: streams.get_put_other)
qed

section \<open>A chunk fits the packet\<close>

lemma add_w_small:
  assumes "unat a + unat b < 2 ^ LENGTH('w)"
  obtains c where "add_w d a b = Ok (c :: ('w::len) word)" and "unat c = unat a + unat b"
  using assms by (simp add: add_w_def unat_word_ariths)

lemma sub_w_small:
  assumes "unat b \<le> unat a"
  obtains c where "sub_w d a b = Ok (c :: ('w::len) word)" and "unat c = unat a - unat b"
  using assms by (simp add: sub_w_def unat_sub word_le_nat_alt)

lemma unat_len: "length xs < 2 ^ 64 \<Longrightarrow> unat (len xs) = length xs"
  by (simp add: len_def unat_of_nat)

lemma unat_min: "unat (min a b) = min (unat a) (unat b)"
  by (simp add: min_def word_le_nat_alt)

text \<open>What the variable-length integers of QUIC take.\<close>

definition varint_law :: "('t, 'r, 'b) stream_env \<Rightarrow> bool" where
  "varint_law env \<longleftrightarrow> (\<forall>v < 2 ^ 62. varint_len env v =
     (if v < 64 then 1 else if v < 16384 then 2 else if v < 1073741824 then 4 else 8))"

definition vlen :: "nat \<Rightarrow> nat" where
  "vlen n = (if n < 64 then 1 else if n < 16384 then 2 else if n < 1073741824 then 4 else 8)"

lemma varint_len_unat:
  assumes "varint_law env" and "unat v < 2 ^ 62"
  shows "unat (varint_len env v) = vlen (unat v)"
proof -
  have "v < 2 ^ 62" using assms(2) by (simp add: word_less_nat_alt)
  with assms(1) show ?thesis
    by (simp add: varint_law_def vlen_def word_less_nat_alt)
qed

lemma vlen_bounds: "1 \<le> vlen n" "vlen n \<le> 8" "vlen n \<le> Suc n" "m \<le> n \<Longrightarrow> vlen m \<le> vlen n"
  by (auto simp: vlen_def)

definition frame_size :: "u64 \<Rightarrow> nat \<Rightarrow> nat" where
  "frame_size offset n = 1 + vlen (unat offset) + vlen n + n"

text \<open>The chunk length that \<^verbatim>\<open>write_chunk\<close> settles on for \<open>room\<close> bytes after offset and one length byte.\<close>

definition chunk_len :: "nat \<Rightarrow> nat \<Rightarrow> nat" where
  "chunk_len dlen room = min dlen (room - (vlen (min dlen room) - 1))"

lemma chunk_len_fits:
  assumes "0 < room"
  shows "vlen (chunk_len dlen room) + chunk_len dlen room \<le> Suc room"
    and "0 < dlen \<Longrightarrow> 0 < chunk_len dlen room" and "vlen (min dlen room) - 1 \<le> room"
    and "chunk_len dlen room = dlen \<or> room < vlen (chunk_len dlen room) + chunk_len dlen room + 4"
  using assms by (auto simp: chunk_len_def vlen_def min_def split: if_splits)

lemma write_chunk_cases:
  fixes env :: "('t, 'r, 'b) stream_env" and b :: 'b
  assumes "varint_law env" and "unat offset < 2 ^ 62" and "length data < 2 ^ 62"
  defines "room \<equiv> unat (builder_remaining env b) - (vlen (unat offset) + 2)"
  shows "write_chunk env offset data b =
     (if unat (builder_remaining env b) < vlen (unat offset) + 3 then (Ok None, b)
      else (Ok (Some (offset, of_nat (chunk_len (length data) room))),
            encode_crypto_frame env offset (take (chunk_len (length data) room) data) b))"
proof -
  let ?d = "stream_dbg env" and ?rem = "builder_remaining env b"
  have vo: "unat (varint_len env offset) = vlen (unat offset)"
    by (rule varint_len_unat [OF assms(1,2)])
  note small = vlen_bounds(2) [of "unat offset"]
  obtain h1 where h1: "add_w ?d 1 (varint_len env offset) = (Ok h1 :: (transport_error, usize) result)"
    "unat h1 = 1 + vlen (unat offset)"
    by (rule add_w_small [of 1 "varint_len env offset" ?d]) (use vo small in simp_all)
  obtain h where h: "add_w ?d h1 1 = (Ok h :: (transport_error, usize) result)" "unat h = vlen (unat offset) + 2"
    by (rule add_w_small [of h1 1 ?d]) (use h1(2) small in simp_all)
  obtain h3 where h3: "add_w ?d h 1 = (Ok h3 :: (transport_error, usize) result)" "unat h3 = Suc (vlen (unat offset) + 2)"
    by (rule add_w_small [of h 1 ?d]) (use h(2) small in simp_all)
  show ?thesis
  proof (cases "unat ?rem < vlen (unat offset) + 3")
    case True
    then have "?rem < h3" by (simp add: word_less_nat_alt h3(2))
    with True show ?thesis by (simp add: write_chunk_def Let_def h1(1) h(1) h3(1))
  next
    case False
    then have ge: "\<not> ?rem < h3" and room: "0 < room"
      by (simp_all add: word_less_nat_alt h3(2) room_def)
    have rem: "unat ?rem = vlen (unat offset) + 2 + room"
      using False by (simp add: room_def)
    obtain r1 where r1: "sub_w ?d ?rem h = (Ok r1 :: (transport_error, usize) result)" "unat r1 = room"
      by (rule sub_w_small [of h ?rem ?d]) (use False h(2) in \<open>simp_all add: room_def\<close>)
    let ?v = "varint_len env (min (len data) r1)" and ?k = "vlen (min (length data) room)"
    have v: "unat ?v = ?k"
      using varint_len_unat [OF assms(1), of "min (len data) r1"] assms(3) by (simp add: unat_min unat_len r1(2))
    obtain v1 where v1: "sub_w ?d ?v 1 = (Ok v1 :: (transport_error, usize) result)" "unat v1 = ?k - 1"
      by (rule sub_w_small [of 1 ?v ?d]) (use v vlen_bounds(1) in simp_all)
    obtain g where g: "add_w ?d h v1 = (Ok g :: (transport_error, usize) result)"
      "unat g = vlen (unat offset) + 2 + (?k - 1)"
      by (rule add_w_small [of h v1 ?d])
        (use h(2) v1(2) small vlen_bounds(2) [of "min (length data) room"] in simp_all)
    have fit: "?k - 1 \<le> room" by (rule chunk_len_fits(3) [OF room])
    obtain r2 where r2: "sub_w ?d ?rem g = (Ok r2 :: (transport_error, usize) result)" "unat r2 = room - (?k - 1)"
      by (rule sub_w_small [of g ?rem ?d]) (use g(2) rem fit in simp_all)
    have n: "unat (min (len data) r2) = chunk_len (length data) room"
      using assms(3) by (simp add: unat_min unat_len r2(2) chunk_len_def)
    then have "slice data (mk_range 0 (min (len data) r2)) =
        (Ok (take (chunk_len (length data) room) data) :: (transport_error, _) result)"
      by (simp add: slice_def chunk_len_def)
    moreover have "min (len data) r2 = of_nat (chunk_len (length data) room)"
      by (simp flip: n)
    ultimately show ?thesis
      using False ge by (simp add: write_chunk_def Let_def h1(1) h(1) h3(1) r1(1) v1(1) g(1) r2(1))
  qed
qed


text \<open>What writing a frame does to the room in the packet, and what it leaves alone.\<close>

definition builder_law :: "('t, 'r, 'b) stream_env \<Rightarrow> bool" where
  "builder_law env \<longleftrightarrow>
     (\<forall>offset data b. frame_size offset (length data) \<le> unat (builder_remaining env b) \<longrightarrow>
        unat (builder_remaining env (encode_crypto_frame env offset data b)) =
        unat (builder_remaining env b) - frame_size offset (length data))"

lemma write_chunk_result:
  assumes "varint_law env" and "builder_law env" and "unat offset < 2 ^ 62" and "length data < 2 ^ 62"
  shows "\<exists>w b'. write_chunk env offset data b = (Ok w, b') \<and>
     (case w of
        None \<Rightarrow> b' = b \<and> unat (builder_remaining env b) < frame_size offset 1
      | Some (off, n) \<Rightarrow> off = offset \<and> unat n \<le> length data \<and> (data = [] \<or> 0 < unat n) \<and>
          b' = encode_crypto_frame env offset (take (unat n) data) b \<and>
          frame_size offset (unat n) \<le> unat (builder_remaining env b) \<and>
          unat (builder_remaining env b') = unat (builder_remaining env b) - frame_size offset (unat n) \<and>
          (unat n = length data \<or> unat (builder_remaining env b') < 5))"
proof (cases "unat (builder_remaining env b) < vlen (unat offset) + 3")
  case True
  then show ?thesis
    using write_chunk_cases [OF assms(1,3,4)] by (simp add: frame_size_def vlen_def)
next
  case False
  let ?room = "unat (builder_remaining env b) - (vlen (unat offset) + 2)"
  let ?n = "chunk_len (length data) ?room"
  have rem: "unat (builder_remaining env b) = vlen (unat offset) + 2 + ?room" and room: "0 < ?room"
    using False by simp_all
  note fits = chunk_len_fits [OF room, of "length data"]
  have le: "?n \<le> length data" by (simp add: chunk_len_def)
  then have n: "unat (of_nat ?n :: usize) = ?n"
    using assms(4) by (simp add: unat_of_nat)
  have size: "frame_size offset ?n \<le> unat (builder_remaining env b)"
    using fits(1) by (subst rem) (simp add: frame_size_def)
  have after: "unat (builder_remaining env (encode_crypto_frame env offset (take ?n data) b)) =
      unat (builder_remaining env b) - frame_size offset ?n"
    using assms(2) size le by (simp add: builder_law_def)
  have "?n = length data \<or> unat (builder_remaining env b) - frame_size offset ?n < 5"
    using fits(4) by (subst rem) (auto simp: frame_size_def)
  moreover have "data = [] \<or> 0 < ?n" by (cases "data = []") (use fits(2) in auto)
  ultimately show ?thesis
    using write_chunk_cases [OF assms(1,3,4), of b] False le size after n by auto
qed

text \<open>
  C36. \<^verbatim>\<open>write_chunk\<close> never panics. It declines exactly when there is no room for the type, the offset,
  a length byte and one byte of data; otherwise it writes a frame with a prefix of the data that fits
  the packet, not an empty one if there is data, and either all the data is written or fewer than 5
  bytes of the packet stay unused.
\<close>

theorem write_chunk_fits:
  assumes "varint_law env" and "builder_law env" and "unat offset < 2 ^ 62" and "length data < 2 ^ 62"
  shows "\<exists>w b'. write_chunk env offset data b = (Ok w, b') \<and>
     (case w of
        None \<Rightarrow> b' = b \<and> unat (builder_remaining env b) < frame_size offset 1
      | Some (off, n) \<Rightarrow> off = offset \<and> unat n \<le> length data \<and> (data = [] \<or> 0 < unat n) \<and>
          b' = encode_crypto_frame env offset (take (unat n) data) b \<and>
          frame_size offset (unat n) \<le> unat (builder_remaining env b) \<and>
          unat (builder_remaining env b') = unat (builder_remaining env b) - frame_size offset (unat n) \<and>
          (unat n = length data \<or> unat (builder_remaining env b') < 5))"
  using assms by (rule write_chunk_result)

section \<open>A concrete instance\<close>

text \<open>A send buffer of contiguous bytes that records what was marked, and a builder that counts bytes.\<close>

definition sample_stream_env :: "(u64 \<times> bytes \<times> (u64 \<times> usize) list, unit, usize) stream_env" where
  "sample_stream_env =
     \<lparr>stream_dbg = True, tx_default = (0, [], []),
      tx_send = (\<lambda>d (off, e, l). (off, e @ d, l)),
      tx_next_bytes = (\<lambda>(off, d, l).
        (if d = [] \<or> 2 ^ 62 \<le> unat off + length d then None else Some (off, d), (off, d, l))),
      tx_mark_as_sent = (\<lambda>a n (off, d, l). (off + n, drop (unat n) d, l @ [(a, n)])),
      tx_mark_as_acked = (\<lambda>_ _ t. t), tx_mark_as_lost = (\<lambda>_ _ t. t), tx_unmark_sent = id,
      tx_is_empty = (\<lambda>(off, d, l). (d = [], (off, d, l))),
      rx_default = (), rx_inbound_frame = (\<lambda>_ _ r. r), rx_received = (\<lambda>_. 0), rx_retired = (\<lambda>_. 0),
      rx_data_ready = (\<lambda>_. False), rx_read_to_end = (\<lambda>buf r. (0, buf, r)),
      builder_remaining = id, builder_limit = (\<lambda>_. 1200),
      encode_crypto_frame = (\<lambda>off d b. b - of_nat (frame_size off (length d))),
      varint_len = (\<lambda>v. if v < 64 then 1 else if v < 16384 then 2 else if v < 1073741824 then 4 else 8),
      find_sni = (\<lambda>d. if 4 < length d then Some (mk_range 1 3) else None)\<rparr>"

lemma sample_chunk_laws: "varint_law sample_stream_env" "builder_law sample_stream_env"
proof -
  have "unat (b - of_nat k) = unat b - k" if "k \<le> unat b" for b :: usize and k
  proof -
    have k: "unat (of_nat k :: usize) = k"
      using that unsigned_less [where ?'a = nat and w = b] by (simp add: unat_of_nat)
    then show ?thesis using that by (subst unat_sub) (simp_all add: word_le_nat_alt)
  qed
  then show "builder_law sample_stream_env" by (simp add: builder_law_def sample_stream_env_def)
  show "varint_law sample_stream_env" by (simp add: varint_law_def sample_stream_env_def)
qed

theorem write_chunk_fits_witness:
  "\<exists>n b'. write_chunk sample_stream_env 70 (replicate 80 1) 50 = (Ok (Some (70, n)), b') \<and>
     frame_size 70 (unat n) \<le> 50 \<and> unat b' < 5"
proof -
  have rem: "builder_remaining sample_stream_env b = b" for b by (simp add: sample_stream_env_def)
  obtain w b' where w: "write_chunk sample_stream_env 70 (replicate 80 1) 50 = (Ok w, b')"
    and c: "case w of
        None \<Rightarrow> b' = 50 \<and> (50 :: nat) < frame_size 70 1
      | Some (off, n) \<Rightarrow> off = 70 \<and> frame_size 70 (unat n) \<le> 50 \<and> (unat n = 80 \<or> unat b' < 5)"
    using write_chunk_fits [OF sample_chunk_laws, of 70 "replicate 80 1" 50]
    by (fastforce simp: rem split: option.splits)
  from c show ?thesis
  proof (cases w)
    case None
    with c show ?thesis by (simp add: frame_size_def vlen_def)
  next
    case (Some on)
    with c w show ?thesis by (cases on) (auto simp: frame_size_def)
  qed
qed

lemma discarded_space_inert_witness:
  "streams_send sample_stream_env InitialSpace [1] (ApplicationDataStreams (crypto_stream_default sample_stream_env)) =
     (Err ProtocolViolation, ApplicationDataStreams (crypto_stream_default sample_stream_env))"
proof -
  let ?s = "ApplicationDataStreams (crypto_stream_default sample_stream_env)"
  have "InitialSpace \<notin> stream_spaces ?s" by (simp add: stream_spaces_def)
  from discarded_space_inert [OF this, of "\<lparr>tok_space = InitialSpace, tok_offset = 0, tok_length = 1\<rparr>"
      sample_stream_env "[1]"]
  show ?thesis by simp
qed

theorem inbound_frame_limit_witness:
  "\<exists>s'. inbound_frame sample_stream_env HandshakeSpace 0 [1, 2] (streams_default sample_stream_env) = (Ok (), s')"
  using inbound_frame_limit [of HandshakeSpace "streams_default sample_stream_env"
      "crypto_stream_default sample_stream_env" "()" sample_stream_env 0 "[1, 2]"]
  by (auto simp: streams_default_def sample_stream_env_def)

end
