(* ===== verification/Frames.thy ===== *)
theory Frames
  imports Crypto_Streams
begin

text \<open>
  The CRYPTO frames that one pass of the loop of \<^verbatim>\<open>CryptoStreams::write_frame\<close> writes: either one frame
  with what the send buffer offers, or two with the pieces of a ClientHello cut at its server name.
  \<open>wrote\<close> says what frames do to the packet, \<open>within\<close> that a frame has a piece of the data offered.
\<close>

section \<open>Slicing around the server name\<close>

text \<open>A piece of a list, at its position.\<close>

definition piece :: "'x list \<Rightarrow> nat \<Rightarrow> 'x list \<Rightarrow> bool" where
  "piece c i d \<longleftrightarrow> i + length d \<le> length c \<and> take (length d) (drop i c) = d"

lemma piece_take [simp]: "i \<le> length c \<Longrightarrow> piece c i (take n (drop i c))"
  by (auto simp: piece_def min_def)

lemma piece_Nil [simp]: "piece c i [] \<longleftrightarrow> i \<le> length c"
  by (simp add: piece_def)

lemma piece_self [simp]: "piece c 0 c"
  by (simp add: piece_def)

lemma piece_iff: "piece c i d \<longleftrightarrow> (\<exists>a b. c = a @ d @ b \<and> length a = i)"
proof
  assume p: "piece c i d"
  then have "c = take i c @ d @ drop (i + length d) c"
    unfolding piece_def by (metis add.commute append_take_drop_id drop_drop)
  moreover have "length (take i c) = i" using p by (simp add: piece_def)
  ultimately show "\<exists>a b. c = a @ d @ b \<and> length a = i" by blast
qed (auto simp: piece_def)

lemma piece_append: "piece c i d \<Longrightarrow> piece (c @ e) i d"
  by (force simp: piece_iff)

lemma piece_trans: "piece c i d \<Longrightarrow> piece d k e \<Longrightarrow> piece c (i + k) e"
  unfolding piece_iff by (metis append.assoc length_append)

lemma piece_nth: "piece c i d \<Longrightarrow> j < length d \<Longrightarrow> c ! (i + j) = d ! j"
  by (auto simp: piece_iff nth_append)


text \<open>The pieces that \<^verbatim>\<open>limit_chunks\<close> keeps, on plain numbers: what stays of the left chunk, how much of the
  right one is skipped, and what stays of it.\<close>

definition limit_cut :: "'x list \<Rightarrow> 'x list \<Rightarrow> nat \<Rightarrow> 'x list \<times> nat \<times> 'x list" where
  "limit_cut left right n =
     (if length left + length right \<le> n then (left, 0, right)
      else if length left \<le> n
      then (left, length right + length left - n, drop (length right + length left - n) right)
      else if length right \<le> n then (take (n - length right) left, 0, right)
      else (take (n div 2) left, 0, take (n div 2) right))"

lemma limit_cut_pieces:
  assumes "limit_cut left right n = (l, k, r)"
  shows "piece left 0 l" and "piece right k r"
    and "if length left + length right \<le> n then l = left \<and> r = right \<and> k = 0
      else length l + length r = n \<or> Suc (length l + length r) = n"
  using assms by (auto simp: limit_cut_def piece_def split: if_splits)

lemma limit_chunks_cut:
  assumes "length left + length right < 2 ^ 63" and "unat ro + length right < 2 ^ 64"
  shows "limit_chunks d (lo, left) (ro, right) lim =
     (case limit_cut left right (unat lim) of (l, k, r) \<Rightarrow> Ok ((lo, l), (ro + of_nat k, r)))"
proof -
  have u: "unat (len left) = length left" "unat (len right) = length right"
    using assms(1) by (simp_all add: unat_len)
  let ?t = "len left + len right" and ?n = "unat lim"
  have sum: "add_w d (len left) (len right) = (Ok ?t :: (transport_error, usize) result)"
    "add_w d (len right) (len left) = (Ok ?t :: (transport_error, usize) result)"
    and t: "unat ?t = length left + length right"
    using assms(1) add_w_fits [of "len left" "len right" d] add_w_fits [of "len right" "len left" d]
    by (simp_all add: unat_add_fits u add.commute [of "len right"])
  have le: "?t \<le> lim \<longleftrightarrow> length left + length right \<le> ?n" "len left \<le> lim \<longleftrightarrow> length left \<le> ?n"
    "len right \<le> lim \<longleftrightarrow> length right \<le> ?n"
    by (simp_all add: word_le_nat_alt t u)
  have half: "unat (lim div 2) = ?n div 2" by (simp add: unat_div_distrib)
  show ?thesis
  proof (cases "length left + length right \<le> ?n")
    case big: False
    then obtain k where k: "sub_w d ?t lim = (Ok k :: (transport_error, usize) result)"
      "unat k = length right + length left - ?n"
      using t by (metis add.commute nle_le sub_w_small)
    then have kw: "k = of_nat (length right + length left - ?n)" by (simp flip: k(2))
    show ?thesis
    proof (cases "length left \<le> ?n")
      case True
      with big k(2) assms(2) have "add_w d ro k = (Ok (ro + k) :: (transport_error, u64) result)"
        by (intro add_w_fits) simp
      with True big k show ?thesis
        by (simp add: limit_chunks_def limit_cut_def sum le split_at_def) (simp add: kw)
    next
      case False
      moreover have "sub_w d lim (len right) = (Ok (lim - len right) :: (transport_error, usize) result)"
        and "unat (lim - len right) = ?n - length right" if "length right \<le> ?n"
        using that by (simp_all add: sub_w_fits unat_sub_fits u)
      ultimately show ?thesis
        using big by (auto simp: limit_chunks_def limit_cut_def sum le split_at_def half)
    qed
  qed (simp add: limit_chunks_def limit_cut_def sum le)
qed

text \<open>
  \<^verbatim>\<open>limit_chunks\<close> never panics: it returns a prefix of the left chunk and a piece of the right one,
  at the offset of that piece. If both chunks fit the limit they are returned whole, otherwise the two
  pieces together are as long as the limit, or one byte shorter.
\<close>

lemma limit_chunks_pieces:
  assumes "length left + length right < 2 ^ 63" and "unat ro + length right < 2 ^ 64"
  shows "\<exists>l r k. limit_chunks d (lo, left) (ro, right) lim = Ok ((lo, l), (ro + of_nat k, r)) \<and>
     l = take (length l) left \<and> r = take (length r) (drop k right) \<and> k + length r \<le> length right \<and>
     (if length left + length right \<le> unat lim then l = left \<and> r = right \<and> k = 0
      else length l + length r = unat lim \<or> Suc (length l + length r) = unat lim)"
proof -
  obtain l k r where c: "limit_cut left right (unat lim) = (l, k, r)" by (metis prod_cases3)
  show ?thesis
    using limit_chunks_cut [OF assms] limit_cut_pieces [OF c]
    by (intro exI [of _ l] exI [of _ r] exI [of _ k]) (simp add: c piece_def)
qed

lemma limit_chunks_pieces_witness:
  "\<exists>l r k. limit_chunks True (0, [1, 2, 3, 4]) (4, [5, 6, 7]) 5 = Ok ((0, l), (4 + of_nat k, r)) \<and>
     length l + length r \<le> 5 \<and> r = take (length r) (drop k [5, 6, 7])"
  using limit_chunks_pieces [of "[1, 2, 3, 4]" "[5, 6, 7]" 4 True 0 5] by force


section \<open>What the loop relies on\<close>

text \<open>
  The send buffer hands out data below the largest stream offset and records
  what is marked as sent, \<open>sent\<close> being that record; the server name lies within the data it was
  found in; and a packet has a size limit.
\<close>

definition tx_law :: "('t, 'r, 'b) stream_env \<Rightarrow> ('t \<Rightarrow> (u64 \<times> usize) list) \<Rightarrow> bool" where
  "tx_law env sent \<longleftrightarrow>
     (\<forall>t. sent (snd (tx_next_bytes env t)) = sent t) \<and>
     (\<forall>t offset data t'. tx_next_bytes env t = (Some (offset, data), t') \<longrightarrow>
        unat offset + length data < 2 ^ 62) \<and>
     (\<forall>t offset n. sent (tx_mark_as_sent env offset n t) = sent t @ [(offset, n)])"

definition sni_law :: "('t, 'r, 'b) stream_env \<Rightarrow> bool" where
  "sni_law env \<longleftrightarrow> (\<forall>data r. find_sni env data = Some r \<longrightarrow>
     range_start r \<le> range_end r \<and> unat (range_end r) \<le> length data \<and> data \<noteq> [])"

definition frame_laws :: "('t, 'r, 'b) stream_env \<Rightarrow> ('t \<Rightarrow> (u64 \<times> usize) list) \<Rightarrow> bool" where
  "frame_laws env sent \<longleftrightarrow> varint_law env \<and> builder_law env \<and> tx_law env sent \<and> sni_law env \<and>
     (\<forall>b. builder_limit env b \<noteq> 0)"

definition tx_bound :: "('t, 'r, 'b) stream_env \<Rightarrow> bool" where
  "tx_bound env \<longleftrightarrow> (\<forall>t offset data t'. tx_next_bytes env t = (Some (offset, data), t') \<longrightarrow>
     unat offset + length data < 2 ^ 62)"

definition loop_laws :: "('t, 'r, 'b) stream_env \<Rightarrow> bool" where
  "loop_laws env \<longleftrightarrow> varint_law env \<and> builder_law env \<and> sni_law env \<and> tx_bound env \<and>
     (\<forall>b. builder_limit env b \<noteq> 0)"

lemma frame_laws_loop: "frame_laws env sent \<Longrightarrow> loop_laws env"
  by (auto simp: frame_laws_def loop_laws_def tx_law_def tx_bound_def)

section \<open>The frames of one pass\<close>

text \<open>A frame is its offset and its data; the chunk that stands for it is its offset and its length.\<close>

type_synonym frame = "u64 \<times> bytes"

definition frame_chunk :: "frame \<Rightarrow> u64 \<times> usize" where
  "frame_chunk f = (fst f, len (snd f))"

definition frames_size :: "frame list \<Rightarrow> nat" where
  "frames_size fl = (\<Sum>f\<leftarrow>fl. frame_size (fst f) (length (snd f)))"

lemma frames_size_append [simp]:
  "frames_size [] = 0" "frames_size (f # fl) = frame_size (fst f) (length (snd f)) + frames_size fl"
  "frames_size (fl @ gl) = frames_size fl + frames_size gl"
  by (simp_all add: frames_size_def)

lemma frames_size_ge: "3 * length fl \<le> frames_size fl"
proof (induction fl)
  case (Cons f fl)
  then show ?case
    using vlen_bounds(1) [of "unat (fst f)"] vlen_bounds(1) [of "length (snd f)"] by (simp add: frame_size_def)
qed simp

definition encode_frames :: "('t, 'r, 'b) stream_env \<Rightarrow> frame list \<Rightarrow> 'b \<Rightarrow> 'b" where
  "encode_frames env fl b = fold (\<lambda>(offset, data). encode_crypto_frame env offset data) fl b"

text \<open>Writing frames into a packet: they are encoded in order and use up exactly their sizes.\<close>

definition wrote :: "('t, 'r, 'b) stream_env \<Rightarrow> 'b \<Rightarrow> frame list \<Rightarrow> 'b \<Rightarrow> bool" where
  "wrote env b fl b' \<longleftrightarrow> b' = encode_frames env fl b \<and>
     unat (builder_remaining env b') + frames_size fl = unat (builder_remaining env b)"

lemma wrote_Nil [simp]: "wrote env b [] b"
  by (simp add: wrote_def encode_frames_def)

lemma wrote_append: "wrote env a fl b \<Longrightarrow> wrote env b gl c \<Longrightarrow> wrote env a (fl @ gl) c"
  by (auto simp: wrote_def encode_frames_def)

lemma wrote_len: "wrote env b fl b' \<Longrightarrow> f \<in> set fl \<Longrightarrow> unat (len (snd f)) = length (snd f)"
proof -
  assume w: "wrote env b fl b'" and f: "f \<in> set fl"
  from f have "length (snd f) \<le> frames_size fl" by (induction fl) (auto simp: frame_size_def)
  also have "\<dots> < 2 ^ 64"
    using w unsigned_less [where ?'a = nat and w = "builder_remaining env b"] unfolding wrote_def by simp
  finally show ?thesis by (rule unat_len)
qed

text \<open>A frame with a piece of the data that the send buffer offered at \<open>offset\<close>.\<close>

definition within :: "u64 \<Rightarrow> bytes \<Rightarrow> frame \<Rightarrow> bool" where
  "within offset data f \<longleftrightarrow> (\<exists>k. fst f = offset + of_nat k \<and> piece data k (snd f))"

definition option_list :: "'x option \<Rightarrow> 'x list" where
  "option_list x = (case x of None \<Rightarrow> [] | Some y \<Rightarrow> [y])"

lemma option_list_simps [simp]: "option_list None = []" "option_list (Some y) = [y]"
  by (simp_all add: option_list_def)

definition carries_data :: "frame list \<Rightarrow> bool" where
  "carries_data fl \<longleftrightarrow> (\<exists>f \<in> set fl. snd f \<noteq> [])"

lemma carries_data_simps [simp]:
  "\<not> carries_data []" "carries_data (f # fl) \<longleftrightarrow> snd f \<noteq> [] \<or> carries_data fl"
  "carries_data (fl @ gl) \<longleftrightarrow> carries_data fl \<or> carries_data gl"
  by (auto simp: carries_data_def)

lemma write_chunk_frame:
  assumes "varint_law env" and "builder_law env" and "unat offset < 2 ^ 62" and "length data < 2 ^ 62"
  obtains f b' where "write_chunk env offset data b = (Ok (map_option frame_chunk f), b')"
    and "wrote env b (option_list f) b'" and "\<forall>x \<in> set (option_list f). fst x = offset \<and> piece data 0 (snd x)"
    and "data \<noteq> [] \<and> 12 \<le> unat (builder_remaining env b) \<longrightarrow> carries_data (option_list f)"
proof -
  from write_chunk_result [OF assms, of b] obtain w b' where w: "write_chunk env offset data b = (Ok w, b')"
    and c: "(case w of
        None \<Rightarrow> b' = b \<and> unat (builder_remaining env b) < frame_size offset 1
      | Some (off, n) \<Rightarrow> off = offset \<and> unat n \<le> length data \<and> (data = [] \<or> 0 < unat n) \<and>
          b' = encode_crypto_frame env offset (take (unat n) data) b \<and>
          frame_size offset (unat n) \<le> unat (builder_remaining env b) \<and>
          unat (builder_remaining env b') = unat (builder_remaining env b) - frame_size offset (unat n) \<and>
          (unat n = length data \<or> unat (builder_remaining env b') < 5))"
    by blast
  show thesis
  proof (cases w)
    case None
    then have "unat (builder_remaining env b) < 12"
      using c vlen_bounds(2) [of "unat offset"] by (simp add: frame_size_def vlen_def)
    with None c w that [of None b'] show thesis by simp
  next
    case (Some on)
    obtain n where on: "on = (offset, n)" using c Some by (cases on) simp
    let ?f = "(offset, take (unat n) data)"
    have n: "unat n \<le> length data" "data = [] \<or> 0 < unat n" using c Some on by simp_all
    then have "len (take (unat n) data) = n" by (simp add: len_def min_def)
    then have "w = map_option frame_chunk (Some ?f)" using Some on by (simp add: frame_chunk_def)
    moreover have "wrote env b [?f] b'"
    proof -
      have l: "length (take (unat n) data) = unat n" using n(1) by simp
      have "frame_size offset (unat n) \<le> unat (builder_remaining env b)"
        and "unat (builder_remaining env b') = unat (builder_remaining env b) - frame_size offset (unat n)"
        using c Some on by auto
      then have "unat (builder_remaining env b') + frame_size offset (unat n) = unat (builder_remaining env b)"
        by linarith
      moreover have "b' = encode_crypto_frame env offset (take (unat n) data) b" using c Some on by simp
      ultimately show ?thesis unfolding wrote_def encode_frames_def by (simp add: l del: length_take)
    qed
    moreover have "piece data 0 (take (unat n) data)" using piece_take [of 0 data "unat n"] by simp
    moreover have "take (unat n) data \<noteq> []" if "data \<noteq> []" using n that by auto
    ultimately show thesis using that [of "Some ?f" b'] w by simp
  qed
qed

lemma write_two:
  assumes "varint_law env" and "builder_law env"
    and "unat o1 < 2 ^ 62" "length d1 < 2 ^ 62" "unat o2 < 2 ^ 62" "length d2 < 2 ^ 62"
  obtains f g b' where "bind_st (write_chunk env o1 d1 b) (\<lambda>r b. bind_st (write_chunk env o2 d2 b)
      (\<lambda>l b. (Ok (r, l), b)) id) id = (Ok (map_option frame_chunk f, map_option frame_chunk g), b')"
    and "wrote env b (option_list f @ option_list g) b'"
    and "\<forall>x \<in> set (option_list f). fst x = o1 \<and> piece d1 0 (snd x)"
    and "\<forall>x \<in> set (option_list g). fst x = o2 \<and> piece d2 0 (snd x)"
    and "(d1 \<noteq> [] \<or> d2 \<noteq> []) \<and> 24 \<le> unat (builder_remaining env b) \<longrightarrow>
      carries_data (option_list f @ option_list g)"
proof -
  obtain f b1 where f: "write_chunk env o1 d1 b = (Ok (map_option frame_chunk f), b1)"
    "wrote env b (option_list f) b1" "\<forall>x \<in> set (option_list f). fst x = o1 \<and> piece d1 0 (snd x)"
    and cf: "d1 \<noteq> [] \<and> 12 \<le> unat (builder_remaining env b) \<longrightarrow> carries_data (option_list f)"
    using assms(1-4) by (rule write_chunk_frame [where b = b])
  obtain g b2 where g: "write_chunk env o2 d2 b1 = (Ok (map_option frame_chunk g), b2)"
    "wrote env b1 (option_list g) b2" "\<forall>x \<in> set (option_list g). fst x = o2 \<and> piece d2 0 (snd x)"
    and cg: "d2 \<noteq> [] \<and> 12 \<le> unat (builder_remaining env b1) \<longrightarrow> carries_data (option_list g)"
    using assms(1,2,5,6) by (rule write_chunk_frame [where b = b1])
  have "carries_data (option_list f @ option_list g)"
    if "d1 \<noteq> [] \<or> d2 \<noteq> []" "24 \<le> unat (builder_remaining env b)"
  proof (cases "carries_data (option_list f)")
    case False
    then have "d1 = []" "d2 \<noteq> []" using cf that by auto
    then have "frames_size (option_list f) \<le> 10"
      using f(3) vlen_bounds(2) [of "unat o1"] by (cases f) (simp_all add: piece_def frame_size_def vlen_def)
    then have "12 \<le> unat (builder_remaining env b1)" using f(2) that(2) unfolding wrote_def by linarith
    with cg \<open>d2 \<noteq> []\<close> show ?thesis by simp
  qed simp
  then show thesis using f(1,3) g(1,3) that wrote_append [OF f(2) g(2)] by simp
qed


subsection \<open>Cutting at the server name\<close>

lemma div_ceil_result:
  assumes "a \<noteq> 0" and "b \<noteq> 0"
  obtains c where "div_ceil a b = Ok c" and "0 < unat c" and "unat a \<le> unat b \<longrightarrow> unat c = 1"
    and "unat c \<le> Suc (unat a div unat b)"
proof (cases "a mod b = 0")
  case True
  then have m: "unat a mod unat b = 0" by (metis unat_mod_distrib unat_0)
  have "unat b \<le> unat a" using m assms by (metis dvd_imp_le mod_0_imp_dvd unat_gt_0)
  moreover have "unat (a div b) = unat a div unat b" by (rule unat_div_distrib)
  ultimately show thesis
    using that [of "a div b"] True assms by (auto simp: div_ceil_def div_greater_zero_iff unat_gt_0)
next
  case False
  have "unat b \<noteq> 1"
  proof
    assume "unat b = 1"
    then have "b = 1" by (simp add: word_unat_eq_iff)
    with False show False by simp
  qed
  then have "2 \<le> unat b" using assms(2) unat_gt_0 [of b] by simp
  then have "unat a div unat b \<le> unat a div 2" by (rule div_le_mono2 [rotated]) simp
  then have "unat (a div b + 1) = Suc (unat a div unat b)"
    using unsigned_less [where ?'a = nat and w = a] by (subst unat_add_fits) (simp_all add: unat_div_distrib)
  moreover have "unat a div unat b = 0" if "unat a \<le> unat b"
  proof -
    have "a \<noteq> b" using False by auto
    then show ?thesis using that by (simp add: word_unat_eq_iff)
  qed
  ultimately show thesis using that [of "a div b + 1"] False assms by (simp add: div_ceil_def)
qed

text \<open>The limit for one packet leaves room for at least two bytes of a larger message.\<close>

lemma slice_limit:
  assumes "0 < c" and "a \<le> b \<longrightarrow> c = 1" and "c \<le> Suc (a div b)" and "4 \<le> (b :: nat)"
  shows "a \<le> a div c \<or> 2 \<le> a div c"
proof (cases "a \<le> b")
  case False
  have "a div b \<le> a div 4" using assms(4) by (intro div_le_mono2) simp_all
  then have "2 * c \<le> a" using assms(3,4) False by linarith
  then show ?thesis using assms(1) by (simp add: less_eq_div_iff_mult_less_eq)
qed (use assms(2) in simp)

text \<open>The two chunks that are written, the right one first.\<close>

lemma write_sliced_cut:
  assumes "builder_limit env b \<noteq> 0" and "length data < 2 ^ 62"
    and "range_start sni \<le> range_end sni" and "unat (range_end sni) \<le> length data" and "data \<noteq> []"
  obtains q l r where "write_sliced env 0 data sni b = bind_st (write_chunk env q r b) (\<lambda>r b.
      bind_st (write_chunk env 0 l b) (\<lambda>l b. (Ok (r, l), b)) id) id"
    and "piece data (unat q) r" and "piece data 0 l" and "4 \<le> unat (builder_limit env b) \<longrightarrow> r \<noteq> [] \<or> l \<noteq> []"
proof -
  let ?d = "stream_dbg env" and ?s = "range_start sni" and ?e = "range_end sni"
  define mid where "mid = ?s + (?e - ?s) div 2"
  have se: "unat ?s \<le> unat ?e" using assms(3) by (simp add: word_le_nat_alt)
  have w: "sub_w ?d ?e ?s = (Ok (?e - ?s) :: (transport_error, usize) result)"
    by (rule sub_w_fits [OF se])
  have half: "unat ((?e - ?s) div 2) = (unat ?e - unat ?s) div 2"
    by (simp add: unat_div_distrib unat_sub_fits [OF se])
  have mid: "add_w ?d ?s ((?e - ?s) div 2) = (Ok mid :: (transport_error, usize) result)"
    using assms(2,4) se half unfolding mid_def by (intro add_w_fits) simp
  have "unat mid = unat ?s + (unat ?e - unat ?s) div 2"
    using assms(2,4) se half unfolding mid_def by (subst unat_add_fits) simp_all
  then have le: "unat mid \<le> length data" using se assms(4) by linarith
  have u: "unat (len data) = length data" using assms(2) by (simp add: unat_len)
  then have "len data \<noteq> 0" using assms(5) by auto
  then obtain pk where pk: "div_ceil (len data) (builder_limit env b) = (Ok pk :: (transport_error, usize) result)"
    "0 < unat pk" "length data \<le> unat (builder_limit env b) \<longrightarrow> unat pk = 1"
    "unat pk \<le> Suc (length data div unat (builder_limit env b))"
    using assms(1) by (rule div_ceil_result) (simp only: u)
  have ro: "add_w ?d 0 mid = (Ok mid :: (transport_error, u64) result)"
    using unsigned_less [where ?'a = nat and w = mid] by (subst add_w_fits) simp_all
  let ?lim = "len data div pk" and ?l = "take (unat mid) data" and ?r = "drop (unat mid) data"
  obtain l k r where c: "limit_cut ?l ?r (unat ?lim) = (l, k, r)" by (metis prod_cases3)
  note lr = limit_cut_pieces [OF c]
  have "limit_chunks ?d (0, ?l) (mid, ?r) ?lim = Ok ((0, l), (mid + of_nat k, r))"
    using limit_chunks_cut [of ?l ?r mid ?d 0 ?lim] le assms(2) by (simp add: c)
  then have "write_sliced env 0 data sni b = bind_st (write_chunk env (mid + of_nat k) r b) (\<lambda>r b.
      bind_st (write_chunk env 0 l b) (\<lambda>l b. (Ok (r, l), b)) id) id"
    using le pk(1,2) by (simp add: write_sliced_def Let_def w mid split_at_def div_usize_def ro unat_gt_0)
  moreover have "unat (mid + of_nat k) = unat mid + k"
  proof -
    have k: "unat mid + k < 2 ^ 62" using lr(2) le assms(2) unfolding piece_def length_drop by linarith
    then have "unat (of_nat k :: u64) = k" by (simp add: unat_of_nat)
    with k show ?thesis by (subst unat_add_fits) simp_all
  qed
  moreover have "piece data (unat mid) ?r" "piece data 0 ?l" using le by (auto simp: piece_def)
  moreover have "r \<noteq> [] \<or> l \<noteq> []" if "4 \<le> unat (builder_limit env b)"
  proof -
    have "length data \<le> unat ?lim \<or> 2 \<le> unat ?lim"
      using slice_limit [OF pk(2-4) that] by (simp add: unat_div_distrib u)
    then have "0 < length l + length r" using lr(3) le assms(5) by (auto split: if_splits)
    then show ?thesis by auto
  qed
  ultimately show thesis
    using that [of "mid + of_nat k" r l] piece_trans [OF _ lr(2)] piece_trans [OF _ lr(1)] by fastforce
qed

lemma write_sliced_frames:
  assumes "varint_law env" and "builder_law env" and "builder_limit env b \<noteq> 0" and "length data < 2 ^ 62"
    and "range_start sni \<le> range_end sni" and "unat (range_end sni) \<le> length data" and "data \<noteq> []"
  obtains f g b' where
    "write_sliced env 0 data sni b = (Ok (map_option frame_chunk f, map_option frame_chunk g), b')"
    and "wrote env b (option_list f @ option_list g) b'"
    and "\<forall>x \<in> set (option_list f @ option_list g). within 0 data x"
    and "4 \<le> unat (builder_limit env b) \<and> 24 \<le> unat (builder_remaining env b) \<longrightarrow>
      carries_data (option_list f @ option_list g)"
proof -
  obtain q l r where eq: "write_sliced env 0 data sni b = bind_st (write_chunk env q r b) (\<lambda>r b.
      bind_st (write_chunk env 0 l b) (\<lambda>l b. (Ok (r, l), b)) id) id"
    and p: "piece data (unat q) r" "piece data 0 l" and ne: "4 \<le> unat (builder_limit env b) \<longrightarrow> r \<noteq> [] \<or> l \<noteq> []"
    using assms(3-7) by (rule write_sliced_cut)
  have "unat q < 2 ^ 62" "length r < 2 ^ 62" "unat (0 :: u64) < 2 ^ 62" "length l < 2 ^ 62"
    using p assms(4) by (simp_all add: piece_def)
  with assms(1,2) obtain f g b' where "bind_st (write_chunk env q r b) (\<lambda>r b. bind_st (write_chunk env 0 l b)
      (\<lambda>l b. (Ok (r, l), b)) id) id = (Ok (map_option frame_chunk f, map_option frame_chunk g), b')"
    and w: "wrote env b (option_list f @ option_list g) b'"
    and f: "\<forall>x \<in> set (option_list f). fst x = q \<and> piece r 0 (snd x)"
    and g: "\<forall>x \<in> set (option_list g). fst x = 0 \<and> piece l 0 (snd x)"
    and cd: "(r \<noteq> [] \<or> l \<noteq> []) \<and> 24 \<le> unat (builder_remaining env b) \<longrightarrow> carries_data (option_list f @ option_list g)"
    by (rule write_two [where b = b])
  with eq have "write_sliced env 0 data sni b = (Ok (map_option frame_chunk f, map_option frame_chunk g), b')"
    by simp
  moreover note w
  moreover have "\<forall>x \<in> set (option_list f @ option_list g). within 0 data x"
    using f g piece_trans [OF p(1)] piece_trans [OF p(2)]
    by (force simp: within_def intro: exI [of _ "unat q"] exI [of _ 0])
  ultimately show thesis
    by (rule that) (use ne cd in blast)
qed


lemma write_pass_frames:
  assumes "varint_law env" and "builder_law env" and "sni_law env" and "builder_limit env b \<noteq> 0"
    and "unat offset + length data < 2 ^ 62"
  obtains f g b' where
    "write_pass env sni offset data b = (Ok (map_option frame_chunk f, map_option frame_chunk g), b')"
    and "wrote env b (option_list f @ option_list g) b'"
    and "\<forall>x \<in> set (option_list f @ option_list g). within offset data x"
    and "data \<noteq> [] \<and> 4 \<le> unat (builder_limit env b) \<and> 24 \<le> unat (builder_remaining env b) \<longrightarrow>
      carries_data (option_list f @ option_list g)"
proof (cases "\<exists>s. sni \<and> offset = 0 \<and> find_sni env data = Some s")
  case True
  then obtain s where s: "sni" "offset = 0" "find_sni env data = Some s" by blast
  then have "range_start s \<le> range_end s" "unat (range_end s) \<le> length data" "data \<noteq> []"
    using assms(3) by (auto simp: sni_law_def)
  moreover have "length data < 2 ^ 62" using assms(5) by simp
  ultimately obtain f g b' where
    "write_sliced env 0 data s b = (Ok (map_option frame_chunk f, map_option frame_chunk g), b')"
    and r: "wrote env b (option_list f @ option_list g) b'"
    "\<forall>x \<in> set (option_list f @ option_list g). within 0 data x"
    "4 \<le> unat (builder_limit env b) \<and> 24 \<le> unat (builder_remaining env b) \<longrightarrow>
      carries_data (option_list f @ option_list g)"
    using assms(1,2,4) by (metis write_sliced_frames)
  with s have "write_pass env sni offset data b = (Ok (map_option frame_chunk f, map_option frame_chunk g), b')"
    by (simp add: write_pass_def)
  with r s(2) that show thesis by blast
next
  case False
  have "unat offset < 2 ^ 62" "length data < 2 ^ 62" using assms(5) by simp_all
  with assms(1,2) obtain f b' where "write_chunk env offset data b = (Ok (map_option frame_chunk f), b')"
    and w: "wrote env b (option_list f) b'" and f: "\<forall>x \<in> set (option_list f). fst x = offset \<and> piece data 0 (snd x)"
    and c: "data \<noteq> [] \<and> 12 \<le> unat (builder_remaining env b) \<longrightarrow> carries_data (option_list f)"
    by (rule write_chunk_frame [where b = b])
  with False have "write_pass env sni offset data b = (Ok (map_option frame_chunk f, map_option frame_chunk None), b')"
    by (auto simp: write_pass_def Let_def split: option.splits)
  moreover have "\<forall>x \<in> set (option_list f @ option_list None). within offset data x"
    using f by (auto simp: within_def intro!: exI [of _ 0])
  ultimately show thesis using w c by (intro that [of f None b']) auto
qed

end
