(* ===== verification/Write_Frame.thy ===== *)
theory Write_Frame
  imports Frames
begin

text \<open>
  The loop of \<^verbatim>\<open>CryptoStreams::write_frame\<close>, with the proof that it ends and does not panic. What it
  does is described by the list of frames it writes: \<open>wrote\<close> says what they do to the packet and \<open>sends\<close>
  how they come from the send buffer.
\<close>

section \<open>The loop of write_frame\<close>

text \<open>
  How the send buffer changes while frames are written: each frame has a piece of the data the buffer
  offers at that moment, and is marked as sent.
\<close>

definition mark_frames :: "('t, 'r, 'b) stream_env \<Rightarrow> frame list \<Rightarrow> 't \<Rightarrow> 't" where
  "mark_frames env fl t = fold (\<lambda>f. tx_mark_as_sent env (fst f) (len (snd f))) fl t"

lemma mark_frames_simps [simp]:
  "mark_frames env [] t = t"
  "mark_frames env (f # fl) t = mark_frames env fl (tx_mark_as_sent env (fst f) (len (snd f)) t)"
  "mark_frames env (fl @ gl) t = mark_frames env gl (mark_frames env fl t)"
  by (simp_all add: mark_frames_def)

inductive sends :: "('t, 'r, 'b) stream_env \<Rightarrow> 't \<Rightarrow> frame list \<Rightarrow> 't \<Rightarrow> bool" for env where
  Nothing: "sends env t [] (snd (tx_next_bytes env t))"
| Pass:
    "tx_next_bytes env t = (Some (offset, data), u) \<Longrightarrow> \<forall>f \<in> set fl. within offset data f \<Longrightarrow>
     sends env t fl (mark_frames env fl u)"
| Again: "sends env t fl u \<Longrightarrow> sends env u gl v \<Longrightarrow> sends env t (fl @ gl) v"

definition frame_token :: "packet_number_space \<Rightarrow> frame \<Rightarrow> crypto_recovery_token" where
  "frame_token space f = \<lparr>tok_space = space, tok_offset = fst f, tok_length = len (snd f)\<rparr>"

definition marked_fs ::
  "('t, 'r, 'b) stream_env \<Rightarrow> packet_number_space \<Rightarrow> frame list \<Rightarrow> ('t, 'r, 'b) frame_state \<Rightarrow>
   ('t, 'r, 'b) frame_state" where
  "marked_fs env space fl fs =
     fs\<lparr>fs_stream := (fs_stream fs)\<lparr>st_tx := mark_frames env fl (st_tx (fs_stream fs))\<rparr>,
        fs_tokens := fs_tokens fs @ map (frame_token space) fl,
        fs_stats := fs_stats fs + of_nat (length fl)\<rparr>"

lemma mark_as_sent_frame:
  assumes "unat (fs_stats fs) + 1 < 2 ^ 64"
  shows "mark_as_sent env space (fst f) (len (snd f)) fs = (Ok (), marked_fs env space [f] fs)"
  using assms by (simp add: mark_as_sent_def Let_def marked_fs_def add_w_fits frame_token_def)

lemma marked_fs_two: "marked_fs env space [g] (marked_fs env space [f] fs) = marked_fs env space [f, g] fs"
  by (simp add: marked_fs_def)

lemma write_step_pass:
  assumes "tx_next_bytes env (st_tx (fs_stream fs)) = (Some (offset, data), t)"
    and "write_pass env sni offset data (fs_builder fs) = (Ok (map_option frame_chunk f, map_option frame_chunk g), b)"
    and "unat (fs_stats fs) + length (option_list f @ option_list g) < 2 ^ 64"
  shows "write_step env space sni fs = (Ok ((f = None) \<noteq> (g = None)),
     marked_fs env space (option_list f @ option_list g)
       (fs\<lparr>fs_stream := (fs_stream fs)\<lparr>st_tx := t\<rparr>, fs_builder := b\<rparr>))"
proof -
  let ?fs = "fs\<lparr>fs_stream := (fs_stream fs)\<lparr>st_tx := t\<rparr>, fs_builder := b\<rparr>"
  have one: "mark_as_sent env space (fst x) (len (snd x)) ?fs = (Ok (), marked_fs env space [x] ?fs)"
    if "f = Some x \<or> g = Some x" for x
    using that assms(3) by (intro mark_as_sent_frame) auto
  have two: "mark_as_sent env space (fst y) (len (snd y)) (marked_fs env space [x] ?fs) =
      (Ok (), marked_fs env space [x, y] ?fs)" if "f = Some x" "g = Some y" for x y
  proof -
    have "unat (fs_stats (marked_fs env space [x] ?fs)) = unat (fs_stats fs) + 1"
      using that assms(3) by (simp add: marked_fs_def unat_add_fits)
    then show ?thesis using that assms(3) by (simp add: mark_as_sent_frame marked_fs_two)
  qed
  show ?thesis
    using assms(1,2) one two
    by (cases f; cases g) (simp_all add: write_step_def Let_def frame_chunk_def marked_fs_def [where fl = "[]"])
qed


text \<open>What the loop does to its state, as the list of frames it writes.\<close>

definition sent_frames ::
  "('t, 'r, 'b) stream_env \<Rightarrow> packet_number_space \<Rightarrow> ('t, 'r, 'b) frame_state \<Rightarrow> frame list \<Rightarrow>
   ('t, 'r, 'b) frame_state \<Rightarrow> bool" where
  "sent_frames env space fs fl fs' \<longleftrightarrow>
     sends env (st_tx (fs_stream fs)) fl (st_tx (fs_stream fs')) \<and>
     wrote env (fs_builder fs) fl (fs_builder fs') \<and>
     fs_tokens fs' = fs_tokens fs @ map (frame_token space) fl \<and>
     st_rx (fs_stream fs') = st_rx (fs_stream fs) \<and>
     unat (fs_stats fs') = unat (fs_stats fs) + length fl"

lemma sent_frames_trans:
  "sent_frames env space a fl b \<Longrightarrow> sent_frames env space b gl c \<Longrightarrow> sent_frames env space a (fl @ gl) c"
  by (auto simp: sent_frames_def intro: sends.Again wrote_append)

definition offers :: "('t, 'r, 'b) stream_env \<Rightarrow> 't \<Rightarrow> bool" where
  "offers env t \<longleftrightarrow> (\<exists>offset data t'. tx_next_bytes env t = (Some (offset, data), t') \<and> data \<noteq> [])"

definition roomy :: "('t, 'r, 'b) stream_env \<Rightarrow> 'b \<Rightarrow> bool" where
  "roomy env b \<longleftrightarrow> 4 \<le> unat (builder_limit env b) \<and> 24 \<le> unat (builder_remaining env b)"

lemma write_step_frames:
  assumes "loop_laws env" and "unat (fs_stats fs) + unat (builder_remaining env (fs_builder fs)) < 2 ^ 64"
  obtains again fs' fl where "write_step env space sni fs = (Ok again, fs')" and "again \<longrightarrow> fl \<noteq> []"
    and "sent_frames env space fs fl fs'"
    and "offers env (st_tx (fs_stream fs)) \<and> roomy env (fs_builder fs) \<longrightarrow> carries_data fl"
proof -
  let ?tx = "st_tx (fs_stream fs)"
  obtain nb t where nb: "tx_next_bytes env ?tx = (nb, t)" by (metis surj_pair)
  show thesis
  proof (cases nb)
    case None
    then have "write_step env space sni fs = (Ok False, fs\<lparr>fs_stream := (fs_stream fs)\<lparr>st_tx := t\<rparr>\<rparr>)"
      by (simp add: write_step_def nb)
    moreover have "sends env ?tx [] t" using sends.Nothing [of env ?tx] nb by simp
    ultimately show thesis
      using nb None by (intro that [of False _ "[]"]) (auto simp: sent_frames_def offers_def)
  next
    case (Some od)
    obtain offset data where od: "od = (offset, data)" by (cases od)
    have "unat offset + length data < 2 ^ 62"
      using assms(1) nb Some od unfolding loop_laws_def tx_bound_def by blast
    moreover have "varint_law env" "builder_law env" "sni_law env" "builder_limit env (fs_builder fs) \<noteq> 0"
      using assms(1) by (simp_all add: loop_laws_def)
    ultimately obtain f g b where wp: "write_pass env sni offset data (fs_builder fs) =
        (Ok (map_option frame_chunk f, map_option frame_chunk g), b)"
      and w: "wrote env (fs_builder fs) (option_list f @ option_list g) b"
      and wi: "\<forall>x \<in> set (option_list f @ option_list g). within offset data x"
      and cd: "data \<noteq> [] \<and> 4 \<le> unat (builder_limit env (fs_builder fs)) \<and>
        24 \<le> unat (builder_remaining env (fs_builder fs)) \<longrightarrow> carries_data (option_list f @ option_list g)"
      by (metis write_pass_frames)
    let ?fl = "option_list f @ option_list g"
    let ?fs = "marked_fs env space ?fl (fs\<lparr>fs_stream := (fs_stream fs)\<lparr>st_tx := t\<rparr>, fs_builder := b\<rparr>)"
    have room: "unat (fs_stats fs) + length ?fl < 2 ^ 64"
      using assms(2) w frames_size_ge [of ?fl] unfolding wrote_def by linarith
    have "write_step env space sni fs = (Ok ((f = None) \<noteq> (g = None)), ?fs)"
      using nb Some od by (intro write_step_pass [OF _ wp room]) simp
    moreover have "sent_frames env space fs ?fl ?fs"
    proof -
      have "sends env ?tx ?fl (mark_frames env ?fl t)"
        using nb Some od wi by (intro sends.Pass) simp_all
      moreover have "unat (fs_stats fs + of_nat (length ?fl)) = unat (fs_stats fs) + length ?fl"
      proof -
        have "unat (of_nat (length ?fl) :: usize) = length ?fl"
          using room by (simp add: unat_of_nat del: length_append of_nat_add)
        with room show ?thesis by (subst unat_add_fits) (simp_all del: length_append of_nat_add)
      qed
      ultimately show ?thesis using w by (simp add: sent_frames_def marked_fs_def)
    qed
    moreover have "offers env ?tx \<and> roomy env (fs_builder fs) \<longrightarrow> carries_data ?fl"
      using nb Some od cd by (auto simp: offers_def roomy_def)
    moreover have "(f = None) \<noteq> (g = None) \<longrightarrow> ?fl \<noteq> []" by (auto simp: option_list_def split: option.splits)
    ultimately show thesis by (intro that)
  qed
qed

lemma write_loop_unfold:
  "write_step env space sni fs = (Ok again, fs') \<Longrightarrow>
   write_loop env space sni fs = (if again then write_loop env space sni fs' else Some (Ok (), fs'))"
  by (simp add: write_loop.simps [of env space sni fs])

lemma write_loop_frames:
  assumes "loop_laws env" and "unat (fs_stats fs) + unat (builder_remaining env (fs_builder fs)) < 2 ^ 64"
  shows "\<exists>fs' fl. write_loop env space sni fs = Some (Ok (), fs') \<and> sent_frames env space fs fl fs' \<and>
     (offers env (st_tx (fs_stream fs)) \<and> roomy env (fs_builder fs) \<longrightarrow> carries_data fl)"
  using assms(2)
proof (induction "unat (builder_remaining env (fs_builder fs))" arbitrary: fs rule: less_induct)
  case less
  obtain again fs1 fl where step: "write_step env space sni fs = (Ok again, fs1)" and ne: "again \<longrightarrow> fl \<noteq> []"
    and s: "sent_frames env space fs fl fs1"
    and c: "offers env (st_tx (fs_stream fs)) \<and> roomy env (fs_builder fs) \<longrightarrow> carries_data fl"
    using assms(1) less.prems by (rule write_step_frames)
  show ?case
  proof (cases again)
    case False
    with step s c show ?thesis by (auto simp: write_loop_unfold)
  next
    case True
    have "0 < length fl" using ne True by simp
    then have lt: "unat (builder_remaining env (fs_builder fs1)) < unat (builder_remaining env (fs_builder fs))"
      using s frames_size_ge [of fl] unfolding sent_frames_def wrote_def by linarith
    have "unat (fs_stats fs1) + unat (builder_remaining env (fs_builder fs1)) < 2 ^ 64"
      using s frames_size_ge [of fl] less.prems unfolding sent_frames_def wrote_def by linarith
    from less.hyps [OF lt this] obtain fs' gl where "write_loop env space sni fs1 = Some (Ok (), fs')"
      and "sent_frames env space fs1 gl fs'" by blast
    with step True s c sent_frames_trans [OF s] show ?thesis
      by (intro exI [of _ fs'] exI [of _ "fl @ gl"]) (simp add: write_loop_unfold)
  qed
qed

text \<open>\<^verbatim>\<open>write_frame\<close> ends without a panic; everything it does follows from the frames it writes.\<close>

lemma write_frame_frames:
  assumes "loop_laws env" and "streams_get space s = Some cs"
    and "unat stats + unat (builder_remaining env b) < 2 ^ 64"
  obtains fl b' t' stats' where
    "streams_write_frame env space sni (s, b, tokens, stats) =
       Some (Ok (), streams_put space (cs\<lparr>st_tx := t'\<rparr>) s, b', tokens @ map (frame_token space) fl, stats')"
    and "sends env (st_tx cs) fl t'" and "wrote env b fl b'" and "unat stats' = unat stats + length fl"
    and "offers env (st_tx cs) \<and> roomy env b \<longrightarrow> carries_data fl"
proof -
  let ?fs = "\<lparr>fs_stream = cs, fs_builder = b, fs_tokens = tokens, fs_stats = stats\<rparr>"
  obtain fs' fl where l: "write_loop env space sni ?fs = Some (Ok (), fs')"
    and s: "sent_frames env space ?fs fl fs'"
    and c: "offers env (st_tx cs) \<and> roomy env b \<longrightarrow> carries_data fl"
    using write_loop_frames [OF assms(1), of ?fs space sni] assms(3) by auto
  let ?t = "st_tx (fs_stream fs')"
  have cs': "cs\<lparr>st_tx := ?t\<rparr> = fs_stream fs'" using s by (simp add: sent_frames_def)
  have "streams_write_frame env space sni (s, b, tokens, stats) =
      Some (Ok (), streams_put space (cs\<lparr>st_tx := ?t\<rparr>) s, fs_builder fs', tokens @ map (frame_token space) fl, fs_stats fs')"
    using s by (simp add: streams_write_frame_def assms(2) l sent_frames_def cs')
  moreover have "sends env (st_tx cs) fl ?t" "wrote env b fl (fs_builder fs')" "unat (fs_stats fs') = unat stats + length fl"
    using s by (simp_all add: sent_frames_def)
  ultimately show thesis using c by (rule that)
qed

section \<open>What write_frame accounts for\<close>

lemma sends_sent:
  assumes "tx_law env sent" and "sends env t fl t'"
  shows "sent t' = sent t @ map frame_chunk fl"
proof -
  have marks: "sent (mark_frames env fl t) = sent t @ map frame_chunk fl" for fl t
    using assms(1) by (induction fl arbitrary: t) (simp_all add: tx_law_def frame_chunk_def)
  show ?thesis
    using assms(2)
  proof (induction rule: sends.induct)
    case (Nothing t)
    then show ?case using assms(1) by (simp add: tx_law_def)
  next
    case (Pass t offset data u fl)
    have "sent u = sent t" using assms(1) Pass(1) by (metis snd_conv tx_law_def)
    then show ?case by (simp add: marks)
  qed simp
qed

definition sample_sent :: "u64 \<times> bytes \<times> (u64 \<times> usize) list \<Rightarrow> (u64 \<times> usize) list" where
  "sample_sent = (\<lambda>(off, d, l). l)"

lemma sample_frame_laws: "frame_laws sample_stream_env sample_sent"
proof -
  have "sni_law sample_stream_env"
    by (auto simp: sni_law_def sample_stream_env_def split: if_splits)
  moreover have "tx_law sample_stream_env sample_sent"
    by (auto simp: tx_law_def sample_stream_env_def sample_sent_def split: if_splits)
  moreover have "builder_limit sample_stream_env b \<noteq> 0" for b by (simp add: sample_stream_env_def)
  ultimately show ?thesis using sample_chunk_laws by (simp add: frame_laws_def)
qed

text \<open>
  C11. Under the documented behaviour of the buffer, the builder and the search for the server name,
  \<^verbatim>\<open>write_frame\<close> ends without a panic. The recovery tokens it adds are, in order, exactly the ranges it
  marked as sent; the counter grows by their number; the frames written use up exactly the bytes
  missing from the packet; and the streams of other spaces and all received data stay as they are.
\<close>

theorem write_frame_accounts:
  assumes "frame_laws env sent" and "streams_get space s = Some cs"
    and "unat stats + unat (builder_remaining env b) < 2 ^ 64"
  shows "\<exists>s' b' stats' cs' chunks.
     streams_write_frame env space sni (s, b, tokens, stats) = Some (Ok (), s', b',
       tokens @ map (\<lambda>c. \<lparr>tok_space = space, tok_offset = fst c, tok_length = snd c\<rparr>) chunks, stats') \<and>
     streams_get space s' = Some cs' \<and> sent (st_tx cs') = sent (st_tx cs) @ chunks \<and> st_rx cs' = st_rx cs \<and>
     unat stats' = unat stats + length chunks \<and>
     unat (builder_remaining env b') + (\<Sum>c\<leftarrow>chunks. frame_size (fst c) (unat (snd c))) =
       unat (builder_remaining env b) \<and>
     (\<forall>q. q \<noteq> space \<longrightarrow> streams_get q s' = streams_get q s)"
proof -
  obtain fl b' t' stats' where w: "streams_write_frame env space sni (s, b, tokens, stats) =
       Some (Ok (), streams_put space (cs\<lparr>st_tx := t'\<rparr>) s, b', tokens @ map (frame_token space) fl, stats')"
    and s: "sends env (st_tx cs) fl t'" and b: "wrote env b fl b'" and n: "unat stats' = unat stats + length fl"
    using frame_laws_loop [OF assms(1)] assms(2,3) by (rule write_frame_frames)
  have "tx_law env sent" using assms(1) by (simp add: frame_laws_def)
  then have "sent t' = sent (st_tx cs) @ map frame_chunk fl" using s by (rule sends_sent)
  moreover have "map (frame_token space) fl =
      map (\<lambda>c. \<lparr>tok_space = space, tok_offset = fst c, tok_length = snd c\<rparr>) (map frame_chunk fl)"
    by (simp add: frame_token_def frame_chunk_def)
  moreover have "unat (builder_remaining env b') + (\<Sum>c\<leftarrow>map frame_chunk fl. frame_size (fst c) (unat (snd c))) =
       unat (builder_remaining env b)"
  proof -
    have "(\<Sum>c\<leftarrow>map frame_chunk fl. frame_size (fst c) (unat (snd c))) = frames_size fl"
      unfolding frames_size_def map_map using wrote_len [OF b]
      by (intro arg_cong [where f = sum_list] map_cong) (simp_all add: frame_chunk_def)
    with b show ?thesis unfolding wrote_def by linarith
  qed
  ultimately show ?thesis
    using w n streams.get_put [OF assms(2), of "cs\<lparr>st_tx := t'\<rparr>"]
    by (intro exI [of _ "streams_put space (cs\<lparr>st_tx := t'\<rparr>) s"] exI [of _ b'] exI [of _ stats']
        exI [of _ "cs\<lparr>st_tx := t'\<rparr>"] exI [of _ "map frame_chunk fl"])
      (simp add: streams.get_put_other)
qed

theorem write_frame_accounts_witness:
  "\<exists>s' b' stats' chunks.
     streams_write_frame sample_stream_env HandshakeSpace True
       (HandshakeStreams \<lparr>st_tx = (0, replicate 10 7, []), st_rx = ()\<rparr> \<lparr>st_tx = (0, [], []), st_rx = ()\<rparr>, 100, [], 3) =
       Some (Ok (), s', b', map (\<lambda>c. \<lparr>tok_space = HandshakeSpace, tok_offset = fst c, tok_length = snd c\<rparr>) chunks,
         stats') \<and> unat stats' = 3 + length chunks"
proof -
  let ?s = "HandshakeStreams \<lparr>st_tx = (0, replicate 10 7, []), st_rx = ()\<rparr> \<lparr>st_tx = (0, [], []), st_rx = ()\<rparr>
    :: (u64 \<times> bytes \<times> (u64 \<times> usize) list, unit) crypto_streams"
  have g: "streams_get HandshakeSpace ?s = Some \<lparr>st_tx = (0, replicate 10 7, []), st_rx = ()\<rparr>" by simp
  have r: "unat (3 :: usize) + unat (builder_remaining sample_stream_env 100) < 2 ^ 64"
    by (simp add: sample_stream_env_def)
  from write_frame_accounts [OF sample_frame_laws g r, of True "[]"] show ?thesis by auto
qed

end
