(* ===== verification/Cert_Compress.thy ===== *)
theory Cert_Compress
  imports Constants
begin

text \<open>
  Certificate compression (RFC 8879): the three decompressors of \<^verbatim>\<open>nss-rs/src/cert_compress.rs\<close>, the
  trait \<^verbatim>\<open>CertificateCompressor\<close> they implement and the callbacks of \<^verbatim>\<open>nss-rs/src/agent.rs\<close> through
  which NSS calls them. A trait implementation is a value of the record \<open>compressor\<close>. A raw pointer
  is an option, \<open>None\<close> being null; what it points to is given by value, and a function that writes
  through it returns the new contents. The decompression libraries are parameters: the bytes that the
  whole input decompresses to, or \<open>None\<close> for an I/O error. \<open>alloc\<close> stands for \<^verbatim>\<open>SECITEM_AllocItem\<close>.
\<close>

section \<open>Pointers and slices\<close>

datatype sec_status = SECSuccess | SECFailure | SECWouldBlock

record sec_item =
  item_data :: "bytes option"
  item_len :: u32

definition null_safe_slice :: "'a list option \<Rightarrow> usize \<Rightarrow> 'a list" where
  "null_safe_slice data n =
     (case data of None \<Rightarrow> [] | Some xs \<Rightarrow> if n = 0 then [] else take (unat n) xs)"

definition copy_from_slice :: "'a list \<Rightarrow> 'a list \<Rightarrow> ('e, unit) result \<times> 'a list" where
  "copy_from_slice dst src = (if length dst = length src then (Ok (), src) else (Panic, dst))"

definition u32_try_from :: "usize \<Rightarrow> u32 option" where
  "u32_try_from v = (if unat v < 2 ^ 32 then Some (ucast v) else None)"

section \<open>The trait and its implementations\<close>

record compressor =
  cc_id :: u16
  cc_name :: string
  enable_encoding :: bool
  cc_encode :: "bytes \<Rightarrow> bytes \<Rightarrow> (nss_error, usize) result \<times> bytes"
  cc_decode :: "bytes \<Rightarrow> bytes \<Rightarrow> (nss_error, unit) result \<times> bytes"

definition default_encode :: "bytes \<Rightarrow> bytes \<Rightarrow> (nss_error, usize) result \<times> bytes" where
  "default_encode input output =
     (let n = min (len input) (len output) in
      (Ok n, take (unat n) input @ drop (unat n) output))"

definition finish :: "bytes \<Rightarrow> bytes \<Rightarrow> (nss_error, unit) result \<times> bytes" where
  "finish decoded output =
     (if length decoded \<noteq> length output then (Err CertificateDecoding, output)
      else copy_from_slice output decoded)"

definition zlib_decode :: "(bytes \<Rightarrow> bytes option) \<Rightarrow> bytes \<Rightarrow> bytes \<Rightarrow> (nss_error, unit) result \<times> bytes" where
  "zlib_decode zlib_read_to_end input output =
     try_st (ok_or (zlib_read_to_end input) CertificateDecoding) output (\<lambda>v. finish v output)"

definition brotli_decode :: "(bytes \<Rightarrow> bytes option) \<Rightarrow> bytes \<Rightarrow> bytes \<Rightarrow> (nss_error, unit) result \<times> bytes" where
  "brotli_decode brotli_read_to_end input output =
     try_st (ok_or (brotli_read_to_end input) CertificateDecoding) output (\<lambda>v. finish v output)"

definition zstd_decode :: "(bytes \<Rightarrow> bytes option) \<Rightarrow> bytes \<Rightarrow> bytes \<Rightarrow> (nss_error, unit) result \<times> bytes" where
  "zstd_decode decode_all input output =
     try_st (ok_or (decode_all input) CertificateDecoding) output (\<lambda>v. finish v output)"

definition Zlib :: "(bytes \<Rightarrow> bytes option) \<Rightarrow> compressor" where
  "Zlib zlib_read_to_end =
     \<lparr>cc_id = 1, cc_name = ''zlib'', enable_encoding = False, cc_encode = default_encode,
      cc_decode = zlib_decode zlib_read_to_end\<rparr>"

definition Brotli :: "(bytes \<Rightarrow> bytes option) \<Rightarrow> compressor" where
  "Brotli brotli_read_to_end =
     \<lparr>cc_id = 2, cc_name = ''brotli'', enable_encoding = False, cc_encode = default_encode,
      cc_decode = brotli_decode brotli_read_to_end\<rparr>"

definition Zstd :: "(bytes \<Rightarrow> bytes option) \<Rightarrow> compressor" where
  "Zstd decode_all =
     \<lparr>cc_id = 3, cc_name = ''zstd'', enable_encoding = False, cc_encode = default_encode,
      cc_decode = zstd_decode decode_all\<rparr>"

section \<open>The callbacks\<close>

text \<open>
  \<open>output\<close> is the memory of \<^verbatim>\<open>output_len\<close> bytes that NSS provides and \<open>used_len\<close> what \<^verbatim>\<open>used_len\<close> points to.
\<close>

definition decode_callback ::
  "compressor \<Rightarrow> sec_item option \<Rightarrow> bytes \<Rightarrow> usize \<Rightarrow> (nss_error, sec_status) result \<times> bytes \<times> usize" where
  "decode_callback c input output used_len =
     (case input of
        None \<Rightarrow> (Ok SECFailure, output, used_len)
      | Some input \<Rightarrow>
          if item_data input = None \<or> item_len input = 0 then (Ok SECFailure, output, used_len)
          else
            (let input_slice = null_safe_slice (item_data input) (ucast (item_len input)) in
             case cc_decode c input_slice output of
               (Panic, output) \<Rightarrow> (Panic, output, used_len)
             | (Err _, output) \<Rightarrow> (Ok SECFailure, output, used_len)
             | (Ok _, output) \<Rightarrow> (Ok SECSuccess, output, len output)))"

definition encode_callback ::
  "bool \<Rightarrow> (u32 \<Rightarrow> sec_item \<Rightarrow> sec_item) \<Rightarrow> compressor \<Rightarrow> sec_item option \<Rightarrow> sec_item \<Rightarrow>
   (nss_error, sec_status) result \<times> sec_item" where
  "encode_callback d alloc c input output =
     (case input of
        None \<Rightarrow> (Ok SECFailure, output)
      | Some input \<Rightarrow>
          if item_data input = None \<or> item_len input = 0 then (Ok SECFailure, output)
          else
            (let input_slice = null_safe_slice (item_data input) (ucast (item_len input)) in
             try_st (add_w d (item_len input) 1) output (\<lambda>n.
               (let output = alloc n output in
                case item_data output of
                  None \<Rightarrow> (Ok SECFailure, output)
                | Some buf \<Rightarrow>
                    (let output_len = ucast (item_len output) :: usize;
                         (r, written) = cc_encode c input_slice (take (unat output_len) buf);
                         output = output\<lparr>item_data := Some (written @ drop (unat output_len) buf)\<rparr> in
                     case r of
                       Panic \<Rightarrow> (Panic, output)
                     | Err _ \<Rightarrow> (Ok SECFailure, output)
                     | Ok encoded_len \<Rightarrow>
                         if encoded_len = 0 \<or> output_len < encoded_len then (Ok SECFailure, output)
                         else
                           (case u32_try_from encoded_len of
                              None \<Rightarrow> (Ok SECFailure, output)
                            | Some n \<Rightarrow> (Ok SECSuccess, output\<lparr>item_len := n\<rparr>)))))))"

section \<open>Installing an algorithm\<close>

record compression_algorithm =
  alg_id :: u16
  alg_name :: string
  alg_encode :: "(sec_item option \<Rightarrow> sec_item \<Rightarrow> (nss_error, sec_status) result \<times> sec_item) option"
  alg_decode :: "(sec_item option \<Rightarrow> bytes \<Rightarrow> usize \<Rightarrow> (nss_error, sec_status) result \<times> bytes \<times> usize) option"

text \<open>\<open>install\<close> stands for \<^verbatim>\<open>SSL_SetCertificateCompressionAlgorithm\<close> on the agent's descriptor.\<close>

definition set_certificate_compression ::
  "bool \<Rightarrow> (u32 \<Rightarrow> sec_item \<Rightarrow> sec_item) \<Rightarrow> (compression_algorithm \<Rightarrow> 'n \<Rightarrow> (nss_error, unit) result \<times> 'n) \<Rightarrow>
   compressor \<Rightarrow> 'n \<Rightarrow> (nss_error, unit) result \<times> 'n" where
  "set_certificate_compression d alloc install c n =
     (if cc_id c = 0 then (Err InvalidCertificateCompressionID, n)
      else
        install
          \<lparr>alg_id = cc_id c, alg_name = cc_name c,
           alg_encode = (if enable_encoding c then Some (encode_callback d alloc c) else None),
           alg_decode = Some (decode_callback c)\<rparr> n)"

section \<open>What a decompressor promises\<close>

lemma unat_ucast_usize [simp]: "unat (ucast (x :: u32) :: usize) = unat x"
  by (simp add: unsigned_ucast_eq take_bit_nat_eq_self unsigned_less [THEN order_less_le_trans])

lemma null_safe_item:
  assumes "item_data item = Some xs" and "item_len item = of_nat (length xs)"
    and "0 < length xs" and "length xs < 2 ^ 32"
  shows "null_safe_slice (item_data item) (ucast (item_len item)) = xs" and "item_len item \<noteq> 0"
proof -
  have n: "unat (item_len item) = length xs" using assms(2,4) by (simp add: unat_of_nat)
  then show "item_len item \<noteq> 0" using assms(3) by auto
  have "(ucast (item_len item) :: usize) \<noteq> 0"
    using n assms(3) unat_ucast_usize [of "item_len item"] by (metis less_irrefl unsigned_0)
  then show "null_safe_slice (item_data item) (ucast (item_len item)) = xs"
    using n by (simp add: null_safe_slice_def assms(1))
qed

text \<open>
  \<open>plain\<close> is what a compressed certificate stands for. A decoder accepts exactly the inputs that
  stand for as many bytes as the output has room for, and leaves the output alone otherwise.
\<close>

locale certificate_decoder =
  fixes decode :: "bytes \<Rightarrow> bytes \<Rightarrow> (nss_error, unit) result \<times> bytes"
    and plain :: "bytes \<Rightarrow> bytes option"
  assumes decode_Ok: "decode i out = (Ok (), out') \<longleftrightarrow> plain i = Some out' \<and> length out' = length out"
    and decode_Err: "decode i out = (Err e, out') \<Longrightarrow> out' = out"
    and decode_safe: "fst (decode i out) \<noteq> Panic"
begin

lemma decode_accepts: "plain i = Some p \<Longrightarrow> length p = length out \<Longrightarrow> decode i out = (Ok (), p)"
  by (simp add: decode_Ok)

lemma decode_rejects:
  assumes "\<And>p. plain i = Some p \<Longrightarrow> length p \<noteq> length out"
  obtains e where "decode i out = (Err e, out)"
proof (cases "decode i out")
  case (Pair r out')
  with assms that show thesis
    using decode_Ok [of i out] decode_Err [of i out] decode_safe [of i out] by (cases r) auto
qed

lemma callback_exact:
  assumes "cc_decode c = decode" and "item_data item = Some input" and "item_len item = of_nat (length input)"
    and "0 < length input" and "length input < 2 ^ 32"
  shows "decode_callback c (Some item) output used_len =
     (if plain input \<noteq> None \<and> length (the (plain input)) = length output
      then (Ok SECSuccess, the (plain input), len output) else (Ok SECFailure, output, used_len))"
proof -
  have slice: "null_safe_slice (item_data item) (ucast (item_len item)) = input" "item_len item \<noteq> 0"
    using null_safe_item [OF assms(2-5)] by simp_all
  show ?thesis
  proof (cases "plain input \<noteq> None \<and> length (the (plain input)) = length output")
    case True
    with decode_accepts [of input "the (plain input)" "output"] slice assms(1,2) show ?thesis
      by (auto simp: decode_callback_def len_def)
  next
    case False
    then obtain e where "decode input output = (Err e, output)"
      by (auto intro: decode_rejects [of input "output"])
    with False slice assms(1,2) show ?thesis by (auto simp: decode_callback_def)
  qed
qed

end

lemma finish_simps [simp]:
  "finish v output = (Ok (), out') \<longleftrightarrow> out' = v \<and> length v = length output"
  "finish v output = (Err e, out') \<longleftrightarrow> e = CertificateDecoding \<and> out' = output \<and> length v \<noteq> length output"
  "fst (finish v output) \<noteq> Panic"
  by (auto simp: finish_def copy_from_slice_def)

interpretation zlib: certificate_decoder "zlib_decode z" z for z
  by unfold_locales (auto simp: zlib_decode_def ok_or_def rust_simps split: option.splits)

interpretation brotli: certificate_decoder "brotli_decode b" b for b
  by unfold_locales (auto simp: brotli_decode_def ok_or_def rust_simps split: option.splits)

interpretation zstd: certificate_decoder "zstd_decode s" s for s
  by unfold_locales (auto simp: zstd_decode_def ok_or_def rust_simps split: option.splits)

section \<open>The callbacks on the implementations\<close>

lemmas compressor_defs = Zlib_def Brotli_def Zstd_def

text \<open>
  C26. With each of the three algorithms, NSS's decode callback succeeds exactly when the compressed
  certificate decompresses to as many bytes as NSS advertised room for: the output then holds these
  bytes and the used length is the output's. Otherwise it fails and neither of them is changed.
\<close>

theorem certificate_decoded_exactly:
  assumes "c \<in> {Zlib f, Brotli f, Zstd f}" and "item_data item = Some input"
    and "item_len item = of_nat (length input)" and "0 < length input" and "length input < 2 ^ 32"
  shows "decode_callback c (Some item) output used_len =
     (if f input \<noteq> None \<and> length (the (f input)) = length output
      then (Ok SECSuccess, the (f input), len output) else (Ok SECFailure, output, used_len))"
  using assms zlib.callback_exact [of c f item input] brotli.callback_exact [of c f item input]
    zstd.callback_exact [of c f item input]
  by (auto simp: compressor_defs)

theorem certificate_decoded_exactly_witness:
  "decode_callback (Zstd (\<lambda>d. Some (d @ d))) (Some \<lparr>item_data = Some [1, 2], item_len = 2\<rparr>) [0, 0, 0, 0] 9 =
     (Ok SECSuccess, [1, 2, 1, 2], 4) \<and>
   decode_callback (Zstd (\<lambda>d. Some (d @ d))) (Some \<lparr>item_data = Some [1, 2], item_len = 2\<rparr>) [0, 0, 0] 9 =
     (Ok SECFailure, [0, 0, 0], 9)"
proof -
  let ?f = "\<lambda>d :: bytes. Some (d @ d)" and ?i = "\<lparr>item_data = Some [1, 2], item_len = 2\<rparr> :: sec_item"
  show ?thesis
    using certificate_decoded_exactly [of "Zstd ?f" ?f ?i "[1, 2]" "[0, 0, 0, 0]" 9]
      certificate_decoded_exactly [of "Zstd ?f" ?f ?i "[1, 2]" "[0, 0, 0]" 9]
    by (simp add: len_def)
qed

text \<open>The allocation either fails, leaving a null pointer, or gives as many bytes as were asked for.\<close>

definition alloc_law :: "(u32 \<Rightarrow> sec_item \<Rightarrow> sec_item) \<Rightarrow> bool" where
  "alloc_law alloc \<longleftrightarrow> (\<forall>n item buf. item_data (alloc n item) = Some buf \<longrightarrow>
     item_len (alloc n item) = n \<and> length buf = unat n)"

definition encode_law :: "compressor \<Rightarrow> bool" where
  "encode_law c \<longleftrightarrow> (\<forall>i out. length (snd (cc_encode c i out)) = length out)"

lemma default_encode_law: "encode_law c" if "cc_encode c = default_encode"
proof -
  have "unat (min (len i) (len out)) \<le> length i" "unat (min (len i) (len out)) \<le> length out" for i out :: bytes
    by (auto simp: min_def len_def unat_of_nat word_le_nat_alt intro: order.trans [OF mod_less_eq_dividend] order.trans)
  then show ?thesis by (simp add: encode_law_def that default_encode_def Let_def)
qed

lemma u32_try_from_Some: "u32_try_from v = Some n \<longleftrightarrow> unat v < 2 ^ 32 \<and> unat n = unat v"
  by (auto simp: u32_try_from_def unsigned_ucast_eq take_bit_nat_eq_self word_unat_eq_iff)

lemma encode_callback_Success:
  assumes "encode_callback d alloc c (Some item) out = (Ok SECSuccess, out')"
    and "alloc_law alloc" and "encode_law c"
  obtains input buf written n m where "item_data item = Some input" and "item_len item \<noteq> 0"
    and "add_w d (item_len item) 1 = (Ok m :: (nss_error, u32) result)" and "length buf = unat m"
    and "cc_encode c (null_safe_slice (item_data item) (ucast (item_len item))) buf = (Ok n, written)"
    and "n \<noteq> 0" and "unat n \<le> unat m" and "item_data out' = Some written"
    and "unat (item_len out') = unat n" and "length written = length buf"
proof -
  obtain input where i: "item_data item = Some input" "item_len item \<noteq> 0"
    using assms(1) by (auto simp: encode_callback_def split: if_splits)
  then obtain m where m: "add_w d (item_len item) 1 = (Ok m :: (nss_error, u32) result)"
    using assms(1) by (auto simp: encode_callback_def rust_simps Let_def split: if_splits)
  then obtain buf where b: "item_data (alloc m out) = Some buf"
    using assms(1) i by (auto simp: encode_callback_def Let_def split: option.splits)
  then have l: "item_len (alloc m out) = m" "length buf = unat m"
    using assms(2) by (auto simp: alloc_law_def)
  obtain r written where e: "cc_encode c (null_safe_slice (item_data item) (ucast (item_len item))) buf = (r, written)"
    by (metis surj_pair)
  then have "length written = length buf" using assms(3) unfolding encode_law_def by (metis snd_conv)
  then show thesis
    using assms(1) i m b l e that [OF i m l(2)]
    by (cases r) (auto simp: encode_callback_def Let_def word_less_nat_alt u32_try_from_Some
        split: if_splits option.splits)
qed

lemma add_one_le: "add_w d (x :: u32) 1 = (Ok m :: (nss_error, u32) result) \<Longrightarrow> unat m \<le> unat x + 1"
  by (auto simp: add_w_def unat_word_ariths split: if_splits)

lemma add_one_eq:
  "add_w d (x :: u32) 1 = (Ok m :: (nss_error, u32) result) \<Longrightarrow> m \<noteq> 0 \<Longrightarrow> unat m = unat x + 1"
  by (cases "x = - 1") (auto simp: add_w_def unat_plus_one split: if_splits)

text \<open>
  When the encode callback succeeds, the length it reports is not 0, is within the memory it
  allocated and exceeds the length of the certificate by one byte at most.
\<close>

lemma encode_callback_bounds:
  assumes "encode_callback d alloc c (Some item) out = (Ok SECSuccess, out')"
    and "alloc_law alloc" and "encode_law c"
  shows "0 < unat (item_len out') \<and> unat (item_len out') \<le> unat (item_len item) + 1 \<and>
     (\<exists>buf. item_data out' = Some buf \<and> unat (item_len out') \<le> length buf)"
proof -
  obtain buf written :: bytes and n :: usize and m :: u32
    where m: "add_w d (item_len item) 1 = (Ok m :: (nss_error, u32) result)"
    and l: "length buf = unat m" "n \<noteq> 0" "unat n \<le> unat m" "item_data out' = Some written"
    "unat (item_len out') = unat n" "length written = length buf"
    by (rule encode_callback_Success [OF assms]) blast
  have "unat m \<le> unat (item_len item) + 1" by (rule add_one_le [OF m])
  with l show ?thesis by (auto simp: unat_gt_0)
qed

text \<open>
  C38. What the encode callback produces, the decode callback turns back into the certificate, for
  every compressor whose \<^verbatim>\<open>decode\<close> inverts its \<^verbatim>\<open>encode\<close>.
\<close>

theorem compression_round_trip:
  assumes "encode_callback d alloc c (Some item) out = (Ok SECSuccess, out')"
    and "item_data item = Some input" and "item_len item = of_nat (length input)"
    and "0 < length input" and "length input < 2 ^ 32" and "alloc_law alloc" and "encode_law c"
    and "\<And>i o1 o2 n written. length i < length o1 \<Longrightarrow> length o1 < 2 ^ 32 \<Longrightarrow> cc_encode c i o1 = (Ok n, written) \<Longrightarrow>
       length o2 = length i \<Longrightarrow> cc_decode c (take (unat n) written) o2 = (Ok (), i)"
    and "length room = length input"
  shows "decode_callback c (Some out') room used_len = (Ok SECSuccess, input, len input)"
proof -
  have s: "null_safe_slice (item_data item) (ucast (item_len item)) = input"
    using null_safe_item [OF assms(2-5)] by simp
  obtain buf written n m where m: "add_w d (item_len item) 1 = (Ok m :: (nss_error, u32) result)"
    and l: "length buf = unat m" and n: "unat n \<le> unat m" and
    e: "cc_encode c (null_safe_slice (item_data item) (ucast (item_len item))) buf = (Ok n, written)" "n \<noteq> 0"
    "item_data out' = Some written" "unat (item_len out') = unat n"
    by (rule encode_callback_Success [OF assms(1,6,7)]) blast
  have "m \<noteq> 0" using n e(2) by (metis le_zero_eq unat_eq_0)
  then have long: "length input < length buf"
    using add_one_eq [OF m] l assms(3,5) by (simp add: unat_of_nat)
  have small: "length buf < 2 ^ 32" using l unsigned_less [where ?'a = nat and w = m] by simp
  have "item_len out' \<noteq> 0" using e(2,4) by (metis unat_eq_0)
  moreover have "(ucast (item_len out') :: usize) \<noteq> 0"
    using e(2,4) unat_ucast_usize [of "item_len out'"] by (metis unat_eq_0)
  ultimately show ?thesis
    using assms(8) [OF long small e(1) [unfolded s] assms(9)] e(3,4) by (simp add: decode_callback_def null_safe_slice_def)
qed

definition sample_alloc :: "u32 \<Rightarrow> sec_item \<Rightarrow> sec_item" where
  "sample_alloc n item = \<lparr>item_data = Some (replicate (unat n) 0), item_len = n\<rparr>"

definition sample_copier :: compressor where
  "sample_copier = \<lparr>cc_id = 255, cc_name = ''copy'', enable_encoding = True, cc_encode = default_encode,
     cc_decode = zstd_decode Some\<rparr>"

lemma sample_alloc_law: "alloc_law sample_alloc"
  by (simp add: alloc_law_def sample_alloc_def)

lemma sample_copier_inverse:
  assumes "length i < length o1" and "length o1 < 2 ^ 32" and "cc_encode sample_copier i o1 = (Ok n, written)"
    and "length o2 = length i"
  shows "cc_decode sample_copier (take (unat n) written) o2 = (Ok (), i)"
proof -
  have u: "unat (len i) = length i" "unat (len o1) = length o1"
    using assms(1,2) by (simp_all add: len_def unat_of_nat)
  then have "min (len i) (len o1) = len i" using assms(1) by (simp add: min_def word_le_nat_alt)
  then have "take (unat n) written = i"
    using assms(3) u by (auto simp: sample_copier_def default_encode_def Let_def)
  then show ?thesis using assms(4) by (simp add: sample_copier_def zstd.decode_Ok)
qed

lemma sample_encoded:
  "encode_callback True sample_alloc sample_copier (Some \<lparr>item_data = Some [5, 6], item_len = 2\<rparr>)
     \<lparr>item_data = None, item_len = 0\<rparr> = (Ok SECSuccess, \<lparr>item_data = Some [5, 6, 0], item_len = 2\<rparr>)"
  by (simp add: encode_callback_def add_w_def sample_alloc_def null_safe_slice_def sample_copier_def
      default_encode_def len_def u32_try_from_def min_def Let_def)

lemmas sample_encode_facts =
  sample_encoded sample_alloc_law
  default_encode_law [of sample_copier, unfolded sample_copier_def, simplified, folded sample_copier_def]

lemma encode_callback_bounds_witness:
  "\<exists>out'. encode_callback True sample_alloc sample_copier (Some \<lparr>item_data = Some [5, 6], item_len = 2\<rparr>)
     \<lparr>item_data = None, item_len = 0\<rparr> = (Ok SECSuccess, out') \<and> 0 < unat (item_len out') \<and> unat (item_len out') \<le> 3"
  using encode_callback_bounds [OF sample_encode_facts] sample_encoded by fastforce

theorem compression_round_trip_witness:
  "decode_callback sample_copier (Some \<lparr>item_data = Some [5, 6, 0], item_len = 2\<rparr>) [0, 0] 0 =
     (Ok SECSuccess, [5, 6], len [5, 6 :: u8])"
  by (rule compression_round_trip [OF sample_encode_facts(1) _ _ _ _ sample_encode_facts(2,3) sample_copier_inverse])
    simp_all
end
