(* ===== verification/Agent_Info.thy ===== *)
theory Agent_Info
  imports Cert_Compress
begin

unbundle bit_operations_syntax

text \<open>
  What \<^verbatim>\<open>nss-rs/src/agent.rs\<close> reports about a TLS connection: \<^verbatim>\<open>HandshakeState\<close>, \<^verbatim>\<open>SecretAgentPreInfo\<close>,
  \<^verbatim>\<open>SecretAgentInfo\<close>, the negotiated protocol, and the environment the TLS agents run in.
  NSS, its descriptors, and the modules \<^verbatim>\<open>agentio\<close>, \<^verbatim>\<open>secrets\<close>, \<^verbatim>\<open>time\<close>, \<^verbatim>\<open>ext\<close>, \<^verbatim>\<open>ech\<close> and \<^verbatim>\<open>err\<close> are
  not part of the sources. Their states, among them the fields \<^verbatim>\<open>secrets\<close>, \<^verbatim>\<open>io\<close> and \<^verbatim>\<open>now\<close> of
  \<^verbatim>\<open>SecretAgent\<close>, are one value of the abstract type \<open>'w\<close>; the record \<open>nss_env\<close> has a function for
  each call. A field for a C function stands for the call together with \<^verbatim>\<open>secstatus_to_res\<close>, which
  turns the status into a \<^verbatim>\<open>Res\<close>. A call during which NSS may call back into the agent also returns
  the callbacks made, in order, as a list of \<open>nss_event\<close>; what they do is in the sources and modelled.
  \<open>'r\<close> is the type of records and \<open>'k\<close> that of symmetric keys.
\<close>

section \<open>Strings\<close>

text \<open>A Rust string is the list of its UTF-8 bytes; \<open>utf8_char\<close> drops one character (RFC 3629).\<close>

definition utf8_tail :: "u8 \<Rightarrow> bool" where
  "utf8_tail b \<longleftrightarrow> 0x80 \<le> b \<and> b \<le> 0xBF"

definition utf8_second :: "u8 \<Rightarrow> u8 \<Rightarrow> bool" where
  "utf8_second a b \<longleftrightarrow>
     (if a = 0xE0 then 0xA0 \<le> b \<and> b \<le> 0xBF else if a = 0xED then 0x80 \<le> b \<and> b \<le> 0x9F
      else if a = 0xF0 then 0x90 \<le> b \<and> b \<le> 0xBF else if a = 0xF4 then 0x80 \<le> b \<and> b \<le> 0x8F
      else utf8_tail b)"

fun utf8_char :: "bytes \<Rightarrow> bytes option" where
  "utf8_char [] = None"
| "utf8_char (a # xs) =
     (if a < 0x80 then Some xs
      else if 0xC2 \<le> a \<and> a \<le> 0xDF then
        (case xs of b # ys \<Rightarrow> if utf8_tail b then Some ys else None | _ \<Rightarrow> None)
      else if 0xE0 \<le> a \<and> a \<le> 0xEF then
        (case xs of b # c # ys \<Rightarrow> if utf8_second a b \<and> utf8_tail c then Some ys else None | _ \<Rightarrow> None)
      else if 0xF0 \<le> a \<and> a \<le> 0xF4 then
        (case xs of b # c # e # ys \<Rightarrow> if utf8_second a b \<and> utf8_tail c \<and> utf8_tail e then Some ys else None
         | _ \<Rightarrow> None)
      else None)"

lemma utf8_char_shorter: "utf8_char xs = Some ys \<Longrightarrow> length ys < length xs"
  by (cases xs) (auto split: if_splits list.splits)

function utf8_valid :: "bytes \<Rightarrow> bool" where
  "utf8_valid xs = (xs = [] \<or> (case utf8_char xs of None \<Rightarrow> False | Some ys \<Rightarrow> utf8_valid ys))"
  by auto
termination by (relation "measure length") (auto dest: utf8_char_shorter)

declare utf8_valid.simps [simp del]

lemma utf8_ascii: "list_all (\<lambda>b. b < 0x80) xs \<Longrightarrow> utf8_valid xs"
  by (induction xs) (simp_all add: utf8_valid.simps)

text \<open>\<^verbatim>\<open>CString::new\<close> refuses a string that contains a zero byte; \<open>e\<close> is the error it is converted to.\<close>

definition cstring_new :: "nss_error \<Rightarrow> bytes \<Rightarrow> (nss_error, bytes) result" where
  "cstring_new e s = (if 0 \<in> set s then Err e else Ok s)"

section \<open>The environment\<close>

type_synonym ptr = "nat option"

datatype next_proto_state =
    NEXT_PROTO_NO_SUPPORT | NEXT_PROTO_NEGOTIATED | NEXT_PROTO_NO_OVERLAP | NEXT_PROTO_SELECTED
  | NEXT_PROTO_EARLY_VALUE

record preliminary_channel_info =
  pre_valuesSet :: u32
  pre_protocolVersion :: u16
  pre_cipherSuite :: cipher
  pre_zeroRttCipherSuite :: cipher
  pre_canSendEarlyData :: u32
  pre_maxEarlyDataSize :: u32
  pre_echAccepted :: u32
  pre_echPublicName :: "bytes option"

record channel_info =
  ch_protocolVersion :: u16
  ch_cipherSuite :: cipher
  ch_keaGroup :: u32
  ch_resumed :: u32
  ch_earlyDataAccepted :: u32
  ch_echAccepted :: u32
  ch_signatureScheme :: u32

record ssl_alert =
  alert_level :: u8
  alert_description :: u8

datatype nss_event = AuthCertificate | AlertSent ssl_alert

type_synonym 'w nss_call = "'w \<Rightarrow> (nss_error, unit) result \<times> 'w"
type_synonym 'w nss_run = "'w \<Rightarrow> (nss_error, unit) result \<times> nss_event list \<times> 'w"

record ('r, 'k, 'w) nss_env =
  env_debug :: bool
  env_hdr :: headers
  disable_random :: bool
  int_error :: nss_error
  nul_error :: nss_error
  utf8_error :: nss_error
  is_blocked :: "(nss_error, unit) result \<Rightarrow> bool"
  is_initialized :: "'w \<Rightarrow> bool"
  PR_CreateIOLayerStub :: "'w \<Rightarrow> ptr \<times> 'w"
  SSL_ImportFD :: "ptr \<Rightarrow> 'w \<Rightarrow> ptr \<times> 'w"
  PR_Close :: "ptr \<Rightarrow> 'w \<Rightarrow> nss_event list \<times> 'w"
  SSL_AuthCertificateHook :: "ptr \<Rightarrow> 'w nss_call"
  SSL_AlertSentCallback :: "ptr \<Rightarrow> 'w nss_call"
  SSL_ResetHandshake :: "ptr \<Rightarrow> bool \<Rightarrow> 'w nss_call"
  SSL_VersionRangeSet :: "ptr \<Rightarrow> u16 \<Rightarrow> u16 \<Rightarrow> 'w nss_call"
  SSL_GetImplementedCiphers :: "cipher list"
  SSL_CipherPrefSet :: "ptr \<Rightarrow> cipher \<Rightarrow> bool \<Rightarrow> 'w nss_call"
  SSL_NamedGroupConfig :: "ptr \<Rightarrow> u32 list \<Rightarrow> 'w nss_call"
  SSL_SignatureSchemePrefSet :: "ptr \<Rightarrow> u32 list \<Rightarrow> 'w nss_call"
  SSL_SendAdditionalKeyShares :: "ptr \<Rightarrow> u32 \<Rightarrow> 'w nss_call"
  SSL_OptionSet :: "ptr \<Rightarrow> u32 \<Rightarrow> int \<Rightarrow> 'w nss_call"
  SSL_SetNextProtoNego :: "ptr \<Rightarrow> bytes \<Rightarrow> 'w nss_call"
  SSL_SetCertificateCompressionAlgorithm :: "ptr \<Rightarrow> compression_algorithm \<Rightarrow> 'w nss_call"
  SECITEM_AllocItem :: "u32 \<Rightarrow> sec_item \<Rightarrow> sec_item"
  SSL_GetNextProto :: "ptr \<Rightarrow> 'w \<Rightarrow> (nss_error, next_proto_state \<times> bytes \<times> u32) result"
  SSL_GetPreliminaryChannelInfo :: "ptr \<Rightarrow> 'w \<Rightarrow> (nss_error, preliminary_channel_info) result"
  SSL_GetChannelInfo :: "ptr \<Rightarrow> 'w \<Rightarrow> (nss_error, channel_info) result"
  SSL_ExportKeyingMaterial :: "ptr \<Rightarrow> bytes \<Rightarrow> bool \<Rightarrow> bytes \<Rightarrow> bytes \<Rightarrow> 'w \<Rightarrow> (nss_error, unit) result \<times> bytes"
  SSL_AuthCertificateComplete :: "ptr \<Rightarrow> int \<Rightarrow> 'w nss_run"
  SSL_ForceHandshake :: "ptr \<Rightarrow> 'w nss_run"
  convert_ech_error :: "ptr \<Rightarrow> nss_error \<Rightarrow> 'w \<Rightarrow> nss_error"
  time_bind :: "ptr \<Rightarrow> 'w nss_call"
  time_set :: "instant \<Rightarrow> 'w nss_call"
  io_wrap :: "bytes \<Rightarrow> 'w \<Rightarrow> 'w"
  io_unwrap :: "'w \<Rightarrow> 'w"
  io_take_output :: "'w \<Rightarrow> bytes \<times> 'w"
  record_list_setup :: "ptr \<Rightarrow> 'w nss_call"
  record_list :: "'w \<Rightarrow> 'r list"
  record_write :: "'r \<Rightarrow> ptr \<Rightarrow> 'w nss_run"
  secrets_register :: "ptr \<Rightarrow> 'w nss_call"
  secrets_has :: "epoch \<Rightarrow> 'w \<Rightarrow> bool"
  secrets_take_read :: "epoch \<Rightarrow> 'w \<Rightarrow> 'k option \<times> 'w"
  secrets_take_write :: "epoch \<Rightarrow> 'w \<Rightarrow> 'k option \<times> 'w"
  extension_tracker_new :: "ptr \<Rightarrow> u16 \<Rightarrow> 'w nss_call"

section \<open>The negotiated protocol\<close>

definition get_alpn :: "('r, 'k, 'w) nss_env \<Rightarrow> ptr \<Rightarrow> bool \<Rightarrow> 'w \<Rightarrow> (nss_error, bytes option) result" where
  "get_alpn env fd pre w =
     bind_res (SSL_GetNextProto env fd w) (\<lambda>(alpn_state, chosen, chosen_len).
       if (pre \<and> alpn_state = NEXT_PROTO_EARLY_VALUE) \<or>
          (\<not> pre \<and> (alpn_state = NEXT_PROTO_NEGOTIATED \<or> alpn_state = NEXT_PROTO_SELECTED))
       then
         (let chosen = take (unat chosen_len) chosen in
          if utf8_valid chosen then Ok (Some chosen) else Err NssInternal)
       else Ok None)"

section \<open>Preliminary information\<close>

record agent_pre_info =
  pi_info :: preliminary_channel_info
  pi_alpn :: "bytes option"

definition pre_info_new :: "('r, 'k, 'w) nss_env \<Rightarrow> ptr \<Rightarrow> 'w \<Rightarrow> (nss_error, agent_pre_info) result" where
  "pre_info_new env fd w =
     bind_res (SSL_GetPreliminaryChannelInfo env fd w) (\<lambda>info.
     bind_res (get_alpn env fd True w) (\<lambda>alpn. Ok \<lparr>pi_info = info, pi_alpn = alpn\<rparr>))"

definition preinfo_arg :: "headers \<Rightarrow> string \<Rightarrow> (preliminary_channel_info \<Rightarrow> u16) \<Rightarrow> agent_pre_info \<Rightarrow> u16 option" where
  "preinfo_arg hdr m f p = (if pre_valuesSet (pi_info p) AND hdr m = 0 then None else Some (f (pi_info p)))"

definition pre_version :: "headers \<Rightarrow> agent_pre_info \<Rightarrow> u16 option" where
  "pre_version hdr = preinfo_arg hdr ''ssl_preinfo_version'' pre_protocolVersion"

definition pre_cipher_suite :: "headers \<Rightarrow> agent_pre_info \<Rightarrow> cipher option" where
  "pre_cipher_suite hdr = preinfo_arg hdr ''ssl_preinfo_cipher_suite'' pre_cipherSuite"

definition pre_early_data_cipher :: "headers \<Rightarrow> agent_pre_info \<Rightarrow> cipher option" where
  "pre_early_data_cipher hdr = preinfo_arg hdr ''ssl_preinfo_0rtt_cipher_suite'' pre_zeroRttCipherSuite"

definition pre_early_data :: "agent_pre_info \<Rightarrow> bool" where
  "pre_early_data p \<longleftrightarrow> pre_canSendEarlyData (pi_info p) \<noteq> 0"

definition pre_max_early_data :: "agent_pre_info \<Rightarrow> (nss_error, usize) result" where
  "pre_max_early_data p = Ok (ucast (pre_maxEarlyDataSize (pi_info p)))"

definition pre_ech_accepted :: "headers \<Rightarrow> agent_pre_info \<Rightarrow> bool option" where
  "pre_ech_accepted hdr p =
     (if pre_valuesSet (pi_info p) AND hdr ''ssl_preinfo_ech'' = 0 then None
      else Some (pre_echAccepted (pi_info p) \<noteq> 0))"

definition pre_ech_public_name ::
  "('r, 'k, 'w) nss_env \<Rightarrow> agent_pre_info \<Rightarrow> (nss_error, bytes option) result" where
  "pre_ech_public_name env p =
     (case pre_echPublicName (pi_info p) of
        None \<Rightarrow> Ok None
      | Some n \<Rightarrow>
          if pre_valuesSet (pi_info p) AND env_hdr env ''ssl_preinfo_ech'' = 0 then Ok None
          else if utf8_valid n then Ok (Some n) else Err (utf8_error env))"

section \<open>Information about a complete connection\<close>

record agent_info =
  info_version :: u16
  info_cipher :: cipher
  info_group :: group
  info_resumed :: bool
  info_early_data :: bool
  info_ech_accepted :: bool
  info_alpn :: "bytes option"
  info_signature_scheme :: u16

definition u16_try_from :: "nss_error \<Rightarrow> u32 \<Rightarrow> (nss_error, u16) result" where
  "u16_try_from e v = (if unat v < 2 ^ 16 then Ok (ucast v) else Err e)"

definition info_new :: "('r, 'k, 'w) nss_env \<Rightarrow> ptr \<Rightarrow> 'w \<Rightarrow> (nss_error, agent_info) result" where
  "info_new env fd w =
     bind_res (SSL_GetChannelInfo env fd w) (\<lambda>info.
     bind_res (u16_try_from (int_error env) (ch_keaGroup info)) (\<lambda>group.
     bind_res (get_alpn env fd False w) (\<lambda>alpn.
     bind_res (u16_try_from (int_error env) (ch_signatureScheme info)) (\<lambda>scheme.
       Ok \<lparr>info_version = ch_protocolVersion info, info_cipher = ch_cipherSuite info, info_group = group,
           info_resumed = (ch_resumed info \<noteq> 0), info_early_data = (ch_earlyDataAccepted info \<noteq> 0),
           info_ech_accepted = (ch_echAccepted info \<noteq> 0), info_alpn = alpn,
           info_signature_scheme = scheme\<rparr>))))"

section \<open>The state of the handshake\<close>

datatype handshake_state =
    New
  | InProgress
  | AuthenticationPending
  | EchFallbackAuthenticationPending bytes
  | Authenticated int
  | Complete agent_info
  | Failed nss_error

fun is_connected :: "handshake_state \<Rightarrow> bool" where
  "is_connected (Complete _) = True"
| "is_connected _ = False"

fun is_final :: "handshake_state \<Rightarrow> bool" where
  "is_final (Complete _) = True"
| "is_final (Failed _) = True"
| "is_final _ = False"

fun authentication_needed :: "handshake_state \<Rightarrow> bool" where
  "authentication_needed AuthenticationPending = True"
| "authentication_needed (EchFallbackAuthenticationPending _) = True"
| "authentication_needed _ = False"

section \<open>Only well-formed strings and groups are reported\<close>

lemma get_alpn_valid: "get_alpn env fd pre w = Ok (Some a) \<Longrightarrow> utf8_valid a"
  by (auto simp: get_alpn_def rust_simps Let_def split: prod.splits if_splits)

lemma get_alpn_pre_or_final:
  "get_alpn env fd True w = Ok (Some a) \<Longrightarrow> get_alpn env fd False w = Ok None"
  by (auto simp: get_alpn_def rust_simps Let_def split: prod.splits if_splits)

end
