(* ===== verification/Agent.thy ===== *)
theory Agent
  imports Agent_Info
begin

text \<open>
  \<^verbatim>\<open>SecretAgent\<close> of \<^verbatim>\<open>nss-rs/src/agent.rs\<close>, the common part of a TLS client and server: its
  configuration, the two ways to drive its handshake, authentication of the peer, and closing.
  A method returns its result and the agent it leaves behind; \<open>ag_world\<close> is the state of the code
  that is called. \<open>nss_call\<close> makes a call of that code and \<open>nss_run\<close> one during which NSS calls back.
\<close>

section \<open>The agent\<close>

record 'w agent =
  ag_fd :: ptr
  ag_raw :: "bool option"
  ag_state :: handshake_state
  ag_auth_required :: bool
  ag_alert :: "u8 option"
  ag_extensions :: "u16 list"
  ag_ech_config :: bytes
  ag_world :: 'w

abbreviation and_then where
  "and_then m k \<equiv> bind_st m k id"

definition nss_call :: "('w \<Rightarrow> ('e, 'a) result \<times> 'w) \<Rightarrow> 'w agent \<Rightarrow> ('e, 'a) result \<times> 'w agent" where
  "nss_call f a = (let (r, w) = f (ag_world a) in (r, a\<lparr>ag_world := w\<rparr>))"

definition auth_complete_hook :: "'w agent \<Rightarrow> sec_status \<times> 'w agent" where
  "auth_complete_hook a = (SECWouldBlock, a\<lparr>ag_auth_required := True\<rparr>)"

definition alert_sent_cb :: "ssl_alert \<Rightarrow> 'w agent \<Rightarrow> 'w agent" where
  "alert_sent_cb alert a =
     (if alert_level alert = 2 then
        (if ag_alert a = None then a\<lparr>ag_alert := Some (alert_description alert)\<rparr> else a)
      else a)"

fun nss_callback :: "nss_event \<Rightarrow> 'w agent \<Rightarrow> 'w agent" where
  "nss_callback AuthCertificate a = snd (auth_complete_hook a)"
| "nss_callback (AlertSent alert) a = alert_sent_cb alert a"

definition nss_run :: "'w nss_run \<Rightarrow> 'w agent \<Rightarrow> (nss_error, unit) result \<times> 'w agent" where
  "nss_run f a = (let (r, events, w) = f (ag_world a) in (r, fold nss_callback events (a\<lparr>ag_world := w\<rparr>)))"

section \<open>Creation\<close>

definition create_fd :: "('r, 'k, 'w) nss_env \<Rightarrow> 'w \<Rightarrow> (nss_error, ptr) result \<times> 'w" where
  "create_fd env w =
     try_st (assert_that (is_initialized env w)) w (\<lambda>_.
       (let (base_fd, w) = PR_CreateIOLayerStub env w in
        if base_fd = None then (Err CreateSslSocket, w)
        else
          (let (fd, w) = SSL_ImportFD env base_fd w in
           if fd = None then (Err CreateSslSocket, snd (PR_Close env base_fd w))
           else (Ok fd, w))))"

definition agent_new :: "('r, 'k, 'w) nss_env \<Rightarrow> 'w \<Rightarrow> (nss_error, 'w agent) result \<times> 'w" where
  "agent_new env w =
     and_then (create_fd env w) (\<lambda>fd w.
       (Ok \<lparr>ag_fd = fd, ag_raw = None, ag_state = New, ag_auth_required = False, ag_alert = None,
            ag_extensions = [], ag_ech_config = [], ag_world = w\<rparr>, w))"

section \<open>Configuration\<close>

definition opt_set :: "('r, 'k, 'w) nss_env \<Rightarrow> opt \<Rightarrow> ptr \<Rightarrow> bool \<Rightarrow> 'w nss_call" where
  "opt_set env opt fd value = SSL_OptionSet env fd (opt_as_int (env_hdr env) opt) (opt_map_enabled opt value)"

definition set_option :: "('r, 'k, 'w) nss_env \<Rightarrow> opt \<Rightarrow> bool \<Rightarrow> 'w agent \<Rightarrow> (nss_error, unit) result \<times> 'w agent" where
  "set_option env opt value a = nss_call (opt_set env opt (ag_fd a) value) a"

definition set_version_range ::
  "('r, 'k, 'w) nss_env \<Rightarrow> u16 \<Rightarrow> u16 \<Rightarrow> 'w agent \<Rightarrow> (nss_error, unit) result \<times> 'w agent" where
  "set_version_range env min_v max_v a = nss_call (SSL_VersionRangeSet env (ag_fd a) min_v max_v) a"

definition configure :: "('r, 'k, 'w) nss_env \<Rightarrow> bool \<Rightarrow> 'w agent \<Rightarrow> (nss_error, unit) result \<times> 'w agent" where
  "configure env grease a =
     (let v13 = TLS_VERSION_1_3 (env_hdr env) in
      and_then (set_version_range env v13 v13 a) (\<lambda>_ a.
      and_then (set_option env Locking False a) (\<lambda>_ a.
      and_then (set_option env Tickets False a) (\<lambda>_ a.
      and_then (set_option env OcspStapling True a) (\<lambda>_ a.
      and_then (set_option env Grease (\<not> disable_random env \<and> grease) a) (\<lambda>_ a.
        set_option env EnableChExtensionPermutation (\<not> disable_random env) a))))))"

definition agent_ready ::
  "('r, 'k, 'w) nss_env \<Rightarrow> bool \<Rightarrow> bool \<Rightarrow> 'w agent \<Rightarrow> (nss_error, unit) result \<times> 'w agent" where
  "agent_ready env is_server grease a =
     and_then (nss_call (SSL_AuthCertificateHook env (ag_fd a)) a) (\<lambda>_ a.
     and_then (nss_call (SSL_AlertSentCallback env (ag_fd a)) a) (\<lambda>_ a.
     and_then (nss_call (time_bind env (ag_fd a)) a) (\<lambda>_ a.
     and_then (configure env grease a) (\<lambda>_ a.
       nss_call (SSL_ResetHandshake env (ag_fd a) is_server) a))))"

fun set_cipher_prefs :: "('r, 'k, 'w) nss_env \<Rightarrow> ptr \<Rightarrow> bool \<Rightarrow> cipher list \<Rightarrow> 'w nss_call" where
  "set_cipher_prefs env fd v [] w = (Ok (), w)"
| "set_cipher_prefs env fd v (c # cs) w =
     and_then (SSL_CipherPrefSet env fd c v w) (\<lambda>_ w. set_cipher_prefs env fd v cs w)"

definition set_ciphers ::
  "('r, 'k, 'w) nss_env \<Rightarrow> cipher list \<Rightarrow> 'w agent \<Rightarrow> (nss_error, unit) result \<times> 'w agent" where
  "set_ciphers env ciphers a =
     (if ag_state a \<noteq> New then (Err NssInternal, a)
      else
        and_then (nss_call (set_cipher_prefs env (ag_fd a) False (SSL_GetImplementedCiphers env)) a) (\<lambda>_ a.
          nss_call (set_cipher_prefs env (ag_fd a) True ciphers) a))"

text \<open>\<^verbatim>\<open>c_uint::try_from(xs.len())?\<close>\<close>

definition count_u32 :: "('r, 'k, 'w) nss_env \<Rightarrow> 'x list \<Rightarrow> (nss_error, u32) result" where
  "count_u32 env xs = ok_or (u32_try_from (len xs)) (int_error env)"

definition set_groups ::
  "('r, 'k, 'w) nss_env \<Rightarrow> group list \<Rightarrow> 'w agent \<Rightarrow> (nss_error, unit) result \<times> 'w agent" where
  "set_groups env groups a =
     (let group_vec = map ucast groups :: u32 list in
      try_st (count_u32 env group_vec) a (\<lambda>_. nss_call (SSL_NamedGroupConfig env (ag_fd a) group_vec) a))"

definition set_signature_schemes ::
  "('r, 'k, 'w) nss_env \<Rightarrow> u16 list \<Rightarrow> 'w agent \<Rightarrow> (nss_error, unit) result \<times> 'w agent" where
  "set_signature_schemes env schemes a =
     (let v = map ucast schemes :: u32 list in
      try_st (count_u32 env v) a (\<lambda>_. nss_call (SSL_SignatureSchemePrefSet env (ag_fd a) v) a))"

definition send_additional_key_shares ::
  "('r, 'k, 'w) nss_env \<Rightarrow> usize \<Rightarrow> 'w agent \<Rightarrow> (nss_error, unit) result \<times> 'w agent" where
  "send_additional_key_shares env count a =
     try_st (ok_or (u32_try_from count) (int_error env)) a (\<lambda>n.
       nss_call (SSL_SendAdditionalKeyShares env (ag_fd a) n) a)"

definition enable_0rtt :: "('r, 'k, 'w) nss_env \<Rightarrow> 'w agent \<Rightarrow> (nss_error, unit) result \<times> 'w agent" where
  "enable_0rtt env a = set_option env EarlyData True a"

definition disable_end_of_early_data ::
  "('r, 'k, 'w) nss_env \<Rightarrow> 'w agent \<Rightarrow> (nss_error, unit) result \<times> 'w agent" where
  "disable_end_of_early_data env a = set_option env SuppressEndOfEarlyData True a"

definition alpn_add :: "bytes \<Rightarrow> bytes \<Rightarrow> (nss_error, unit) result \<times> bytes" where
  "alpn_add v encoded =
     (if length v < 256 then
        (if 0 < length v then (Ok (), encoded @ of_nat (length v) # v) else (Err InvalidAlpn, encoded))
      else (Err InvalidAlpn, encoded))"

fun alpn_add_all :: "bytes list \<Rightarrow> bytes \<Rightarrow> (nss_error, unit) result \<times> bytes" where
  "alpn_add_all [] encoded = (Ok (), encoded)"
| "alpn_add_all (v # vs) encoded = and_then (alpn_add v encoded) (\<lambda>_ encoded. alpn_add_all vs encoded)"

definition alpn_encode :: "bytes list \<Rightarrow> (nss_error, bytes) result" where
  "alpn_encode protocols =
     (case protocols of
        [] \<Rightarrow> Err InvalidAlpn
      | first # rest \<Rightarrow>
          fst (and_then (alpn_add_all rest []) (\<lambda>_ encoded.
               and_then (alpn_add first encoded) (\<lambda>_ encoded. (Ok encoded, encoded)))))"

definition set_alpn ::
  "('r, 'k, 'w) nss_env \<Rightarrow> bytes list \<Rightarrow> 'w agent \<Rightarrow> (nss_error, unit) result \<times> 'w agent" where
  "set_alpn env protocols a =
     (let n = length protocols + sum_list (map length protocols) in
      try_st (alpn_encode protocols) a (\<lambda>encoded.
      try_st (debug_assert (env_debug env) (n = length encoded)) a (\<lambda>_.
      try_st (count_u32 env encoded) a (\<lambda>_.
        nss_call (SSL_SetNextProtoNego env (ag_fd a) encoded) a))))"

definition agent_set_certificate_compression ::
  "('r, 'k, 'w) nss_env \<Rightarrow> compressor \<Rightarrow> 'w agent \<Rightarrow> (nss_error, unit) result \<times> 'w agent" where
  "agent_set_certificate_compression env c a =
     nss_call (set_certificate_compression (env_debug env) (SECITEM_AllocItem env)
       (SSL_SetCertificateCompressionAlgorithm env (ag_fd a)) c) a"

definition extension_handler ::
  "('r, 'k, 'w) nss_env \<Rightarrow> u16 \<Rightarrow> 'w agent \<Rightarrow> (nss_error, unit) result \<times> 'w agent" where
  "extension_handler env ext a =
     and_then (nss_call (extension_tracker_new env (ag_fd a) ext) a) (\<lambda>_ a.
       (Ok (), a\<lparr>ag_extensions := ag_extensions a @ [ext]\<rparr>))"

section \<open>The handshake\<close>

definition set_raw :: "('r, 'k, 'w) nss_env \<Rightarrow> bool \<Rightarrow> 'w agent \<Rightarrow> (nss_error, unit) result \<times> 'w agent" where
  "set_raw env r a =
     (case ag_raw a of
        Some raw \<Rightarrow> if raw = r then (Ok (), a) else (Err MixedHandshakeMethod, a)
      | None \<Rightarrow>
          and_then (nss_call (secrets_register env (ag_fd a)) a) (\<lambda>_ a. (Ok (), a\<lparr>ag_raw := Some r\<rparr>)))"

definition info :: "'w agent \<Rightarrow> agent_info option" where
  "info a = (case ag_state a of Complete i \<Rightarrow> Some i | _ \<Rightarrow> None)"

definition preinfo :: "('r, 'k, 'w) nss_env \<Rightarrow> 'w agent \<Rightarrow> (nss_error, agent_pre_info) result" where
  "preinfo env a = pre_info_new env (ag_fd a) (ag_world a)"

definition export_keying_material ::
  "('r, 'k, 'w) nss_env \<Rightarrow> bytes \<Rightarrow> bytes \<Rightarrow> bytes \<Rightarrow> 'w agent \<Rightarrow> (nss_error, unit) result \<times> bytes" where
  "export_keying_material env label context out a =
     (if \<not> is_connected (ag_state a) then (Err InvalidState, out)
      else if out = [] then (Err InvalidInput, out)
      else
        try_st (count_u32 env label) out (\<lambda>_.
        try_st (count_u32 env context) out (\<lambda>_.
        try_st (count_u32 env out) out (\<lambda>_.
          SSL_ExportKeyingMaterial env (ag_fd a) label (context \<noteq> []) context out (ag_world a)))))"

definition authenticated :: "int \<Rightarrow> 'w agent \<Rightarrow> (nss_error, unit) result \<times> 'w agent" where
  "authenticated status a =
     try_st (assert_that (authentication_needed (ag_state a))) a (\<lambda>_.
       (Ok (), a\<lparr>ag_auth_required := False, ag_state := Authenticated status\<rparr>))"

definition capture_error ::
  "('r, 'k, 'w) nss_env \<Rightarrow> (nss_error, 'x) result \<Rightarrow> 'w agent \<Rightarrow> (nss_error, 'x) result \<times> 'w agent" where
  "capture_error env res a =
     (case res of
        Err e \<Rightarrow> (let e = convert_ech_error env (ag_fd a) e (ag_world a) in
                  (Err e, a\<lparr>ag_state := Failed e\<rparr>))
      | _ \<Rightarrow> (res, a))"

definition update_state ::
  "('r, 'k, 'w) nss_env \<Rightarrow> (nss_error, unit) result \<Rightarrow> 'w agent \<Rightarrow> (nss_error, unit) result \<times> 'w agent" where
  "update_state env res a =
     (if is_blocked env res then
        (if ag_auth_required a then
           try_st (preinfo env a) a (\<lambda>p.
           try_st (pre_ech_public_name env p) a (\<lambda>name.
             (Ok (), a\<lparr>ag_state := (case name of
                None \<Rightarrow> AuthenticationPending
              | Some public_name \<Rightarrow> EchFallbackAuthenticationPending public_name)\<rparr>)))
         else (Ok (), a\<lparr>ag_state := InProgress\<rparr>))
      else
        and_then (capture_error env res a) (\<lambda>_ a.
        and_then (capture_error env (info_new env (ag_fd a) (ag_world a)) a) (\<lambda>i a.
          (Ok (), a\<lparr>ag_state := Complete i\<rparr>))))"

definition handshake ::
  "('r, 'k, 'w) nss_env \<Rightarrow> instant \<Rightarrow> bytes \<Rightarrow> 'w agent \<Rightarrow> (nss_error, bytes) result \<times> 'w agent" where
  "handshake env now input a =
     and_then (nss_call (time_set env now) a) (\<lambda>_ a.
     and_then (set_raw env False a) (\<lambda>_ a.
       (let a = a\<lparr>ag_world := io_wrap env input (ag_world a)\<rparr>;
            (rv, a) = (case ag_state a of
                Authenticated err \<Rightarrow> nss_run (SSL_AuthCertificateComplete env (ag_fd a) err) a
              | _ \<Rightarrow> nss_run (SSL_ForceHandshake env (ag_fd a)) a);
            a = a\<lparr>ag_world := io_unwrap env (ag_world a)\<rparr>;
            (output, w) = io_take_output env (ag_world a);
            a = a\<lparr>ag_world := w\<rparr> in
        and_then (update_state env rv a) (\<lambda>_ a. (Ok output, a)))))"

definition setup_raw :: "('r, 'k, 'w) nss_env \<Rightarrow> 'w agent \<Rightarrow> (nss_error, unit) result \<times> 'w agent" where
  "setup_raw env a =
     and_then (set_raw env True a) (\<lambda>_ a.
       (let (r, a) = nss_call (record_list_setup env (ag_fd a)) a in capture_error env r a))"

definition handshake_raw ::
  "('r, 'k, 'w) nss_env \<Rightarrow> instant \<Rightarrow> 'r option \<Rightarrow> 'w agent \<Rightarrow> (nss_error, 'r list) result \<times> 'w agent" where
  "handshake_raw env now input a =
     and_then (nss_call (time_set env now) a) (\<lambda>_ a.
     and_then (setup_raw env a) (\<lambda>_ a.
     and_then
       (case ag_state a of
          Authenticated err \<Rightarrow>
            (let (r, a) = nss_run (SSL_AuthCertificateComplete env (ag_fd a) err) a in capture_error env r a)
        | _ \<Rightarrow> (Ok (), a)) (\<lambda>_ a.
     and_then
       (case input of
          Some rec \<Rightarrow> (let (r, a) = nss_run (record_write env rec (ag_fd a)) a in capture_error env r a)
        | None \<Rightarrow> (Ok (), a)) (\<lambda>_ a.
       (let (rv, a) = nss_run (SSL_ForceHandshake env (ag_fd a)) a in
        and_then (update_state env rv a) (\<lambda>_ a. (Ok (record_list env (ag_world a)), a)))))))"

section \<open>Closing, and the secrets\<close>

definition pr_close :: "('r, 'k, 'w) nss_env \<Rightarrow> 'w agent \<Rightarrow> 'w agent" where
  "pr_close env a =
     (let (events, w) = PR_Close env (ag_fd a) (ag_world a) in fold nss_callback events (a\<lparr>ag_world := w\<rparr>))"

definition agent_close :: "('r, 'k, 'w) nss_env \<Rightarrow> 'w agent \<Rightarrow> (nss_error, unit) result \<times> 'w agent" where
  "agent_close env a =
     (if ag_fd a = None then (Ok (), a)
      else
        (let (r, a) =
           (if ag_raw a = Some True then
              (case setup_raw env a of
                 (Ok _, a) \<Rightarrow> (Ok (), pr_close env a)
               | (_, a) \<Rightarrow> (Panic, a))
            else
              (let a = pr_close env (a\<lparr>ag_world := io_wrap env [] (ag_world a)\<rparr>) in
               (Ok (), a\<lparr>ag_world := io_unwrap env (ag_world a)\<rparr>))) in
         try_st r a (\<lambda>_. (Ok (), a\<lparr>ag_world := snd (io_take_output env (ag_world a)), ag_fd := None\<rparr>))))"

definition has_secret :: "('r, 'k, 'w) nss_env \<Rightarrow> epoch \<Rightarrow> 'w agent \<Rightarrow> bool" where
  "has_secret env e a = secrets_has env e (ag_world a)"

definition read_secret :: "('r, 'k, 'w) nss_env \<Rightarrow> epoch \<Rightarrow> 'w agent \<Rightarrow> 'k option \<times> 'w agent" where
  "read_secret env e a = (let (k, w) = secrets_take_read env e (ag_world a) in (k, a\<lparr>ag_world := w\<rparr>))"

definition write_secret :: "('r, 'k, 'w) nss_env \<Rightarrow> epoch \<Rightarrow> 'w agent \<Rightarrow> 'k option \<times> 'w agent" where
  "write_secret env e a = (let (k, w) = secrets_take_write env e (ag_world a) in (k, a\<lparr>ag_world := w\<rparr>))"

end
