(* ===== verification/Agent_Machine.thy ===== *)
theory Agent_Machine
  imports Agent
begin

text \<open>
  The handshake of an agent as a state machine. \<open>agent_step\<close> has one rule for each method that changes
  an agent; \<open>agent_ok\<close> is kept by all of them, and the agent refines the specification \<open>spec_step\<close>,
  which knows only the way the handshake is driven and the phase it is in.
\<close>

section \<open>What a method keeps\<close>

named_theorems kept \<open>a predicate on agents that holds after a method\<close>

lemma kept_and_then:
  assumes "P (snd m)" and "\<And>x b. m = (Ok x, b) \<Longrightarrow> P b \<Longrightarrow> P (snd (k x b))"
  shows "P (snd (and_then m k))"
  using assms by (cases m; cases "fst m") auto

lemma kept_try:
  assumes "P a" and "\<And>x. r = Ok x \<Longrightarrow> P (snd (k x))"
  shows "P (snd (try_st r a k))"
  using assms by (cases r) auto

definition driven :: "handshake_state \<Rightarrow> bool" where
  "driven s \<longleftrightarrow> s \<noteq> New \<and> (\<forall>e. s \<noteq> Authenticated e)"

lemma driven_simps [simp]:
  "driven InProgress" "driven AuthenticationPending" "driven (EchFallbackAuthenticationPending n)"
  "driven (Complete i)" "driven (Failed e)" "\<not> driven New" "\<not> driven (Authenticated c)"
  by (simp_all add: driven_def)

definition agent_ok :: "'w agent \<Rightarrow> bool" where
  "agent_ok a \<longleftrightarrow> (authentication_needed (ag_state a) \<longrightarrow> ag_auth_required a) \<and>
     (ag_raw a = None \<longrightarrow> ag_state a = New)"

text \<open>
  \<open>drives m a b\<close>: from \<open>a\<close>, an attempt to drive the handshake in the way \<open>m\<close> leads to \<open>b\<close>.
\<close>

definition drives :: "bool \<Rightarrow> 'w agent \<Rightarrow> 'w agent \<Rightarrow> bool" where
  "drives m a b \<longleftrightarrow> ag_extensions b = ag_extensions a \<and>
     ag_ech_config b = ag_ech_config a \<and>
     (ag_raw b = ag_raw a \<or> ag_raw a = None \<and> ag_raw b = Some m) \<and>
     (ag_state b = ag_state a \<and> (ag_auth_required a \<longrightarrow> ag_auth_required b) \<or>
      ag_raw b = Some m \<and> driven (ag_state b) \<and>
        (authentication_needed (ag_state b) \<longrightarrow> ag_auth_required b))"

lemma drives_refl [simp]: "drives m a a"
  by (simp add: drives_def)

lemma drives_ok: "drives m a b \<Longrightarrow> agent_ok a \<Longrightarrow> agent_ok b"
  by (auto simp: drives_def agent_ok_def)

lemma drives_world [simp]: "drives m a (b\<lparr>ag_world := w\<rparr>) \<longleftrightarrow> drives m a b"
  by (simp add: drives_def)

lemma drives_fd [simp]: "drives m a (b\<lparr>ag_fd := p\<rparr>) \<longleftrightarrow> drives m a b"
  by (simp add: drives_def)

lemma drives_call [kept]: "drives m a b \<Longrightarrow> drives m a (snd (nss_call f b))"
  by (simp add: nss_call_def split: prod.splits)

lemma callback_frame [simp]:
  "ag_fd (nss_callback e a) = ag_fd a" "ag_raw (nss_callback e a) = ag_raw a"
  "ag_state (nss_callback e a) = ag_state a" "ag_world (nss_callback e a) = ag_world a"
  "ag_extensions (nss_callback e a) = ag_extensions a" "ag_ech_config (nss_callback e a) = ag_ech_config a"
  "ag_auth_required a \<Longrightarrow> ag_auth_required (nss_callback e a)"
  by (cases e; simp add: auth_complete_hook_def alert_sent_cb_def)+

lemma callbacks_frame [simp]:
  "ag_fd (fold nss_callback es a) = ag_fd a" "ag_raw (fold nss_callback es a) = ag_raw a"
  "ag_state (fold nss_callback es a) = ag_state a" "ag_world (fold nss_callback es a) = ag_world a"
  "ag_extensions (fold nss_callback es a) = ag_extensions a"
  "ag_ech_config (fold nss_callback es a) = ag_ech_config a"
  "ag_auth_required a \<Longrightarrow> ag_auth_required (fold nss_callback es a)"
  by (induction es arbitrary: a) simp_all

lemma drives_callbacks: "drives m a b \<Longrightarrow> drives m a (fold nss_callback es b)"
  by (auto simp: drives_def)

lemma drives_run [kept]: "drives m a b \<Longrightarrow> drives m a (snd (nss_run f b))"
  by (simp add: nss_run_def drives_callbacks split: prod.splits)

lemma drives_set_raw: "drives m a (snd (set_raw env m a))"
  by (auto simp: set_raw_def nss_call_def drives_def bind_st_def split: option.splits prod.splits result.splits)

lemma set_raw_Ok: "set_raw env m a = (Ok u, b) \<Longrightarrow> ag_raw b = Some m"
  by (auto simp: set_raw_def rust_simps split: option.splits if_splits)

text \<open>Once the way is chosen, what sets the state keeps to it.\<close>

definition drives_on :: "bool \<Rightarrow> 'w agent \<Rightarrow> 'w agent \<Rightarrow> bool" where
  "drives_on m a b \<longleftrightarrow> drives m a b \<and> ag_raw b = Some m"

lemma drives_on_world [simp]: "drives_on m a (b\<lparr>ag_world := w\<rparr>) \<longleftrightarrow> drives_on m a b"
  by (simp add: drives_on_def)

lemma drives_on_call [kept]: "drives_on m a b \<Longrightarrow> drives_on m a (snd (nss_call f b))"
  by (simp add: nss_call_def split: prod.splits)

lemma drives_on_run [kept]: "drives_on m a b \<Longrightarrow> drives_on m a (snd (nss_run f b))"
  by (simp add: nss_run_def drives_on_def drives_callbacks split: prod.splits)

lemma drives_on_state:
  "drives_on m a b \<Longrightarrow> driven s \<Longrightarrow> (authentication_needed s \<Longrightarrow> ag_auth_required b) \<Longrightarrow>
   drives_on m a (b\<lparr>ag_state := s\<rparr>)"
  by (auto simp: drives_on_def drives_def)

lemma drives_on_capture [kept]: "drives_on m a b \<Longrightarrow> drives_on m a (snd (capture_error env r b))"
  by (auto simp: capture_error_def Let_def split: result.splits intro: drives_on_state)

lemmas drives_on_bind [kept] =
  kept_and_then [of "drives_on m a" for m a] kept_try [of "drives_on m a" for m a]

lemma drives_on_update [kept]: "drives_on m a b \<Longrightarrow> drives_on m a (snd (update_state env r b))"
  unfolding update_state_def
  by (auto intro!: kept drives_on_state split: option.splits)

lemma drives_on_run_capture [kept]:
  "drives_on m a b \<Longrightarrow> drives_on m a (snd (let (r, c) = nss_run f b in capture_error env r c))"
  using drives_on_capture [OF drives_on_run] by (simp add: split_def Let_def)

lemma drives_on_drives: "drives_on m a b \<Longrightarrow> drives m a b"
  by (simp add: drives_on_def)

lemma drives_trans: "drives m a b \<Longrightarrow> drives m b c \<Longrightarrow> drives m a c"
  by (auto simp: drives_def)

lemma drives_chosen:
  assumes "\<And>b. drives_on m a b \<Longrightarrow> drives_on m a (snd (k b))" and "drives m a b"
  shows "drives m a (snd (and_then (set_raw env m b) (\<lambda>_. k)))"
proof (rule kept_and_then)
  show "drives m a (snd (set_raw env m b))"
    using drives_trans [OF assms(2) drives_set_raw] .
  show "drives m a (snd (k c))" if "set_raw env m b = (Ok u, c)" "drives m a c" for u c
    using assms(1) [of c] that set_raw_Ok [OF that(1)] by (simp add: drives_on_def)
qed

lemma drives_setup_raw: "drives True a b \<Longrightarrow> drives True a (snd (setup_raw env b))"
  unfolding setup_raw_def
  by (rule drives_chosen) (auto simp: split_def Let_def intro: kept)

lemma capture_error_Ok: "capture_error env r a = (Ok x, b) \<longleftrightarrow> r = Ok x \<and> b = a"
  by (auto simp: capture_error_def Let_def split: result.splits)

lemma setup_raw_Ok: "setup_raw env a = (Ok u, b) \<Longrightarrow> ag_raw b = Some True"
  by (auto simp: setup_raw_def rust_simps capture_error_Ok nss_call_def dest!: set_raw_Ok split: prod.splits)

lemma handshake_drives: "drives False a (snd (handshake env now input a))"
proof -
  let ?k = "\<lambda>a. (let a = a\<lparr>ag_world := io_wrap env input (ag_world a)\<rparr>;
            (rv, a) = (case ag_state a of
                Authenticated err \<Rightarrow> nss_run (SSL_AuthCertificateComplete env (ag_fd a) err) a
              | _ \<Rightarrow> nss_run (SSL_ForceHandshake env (ag_fd a)) a);
            a = a\<lparr>ag_world := io_unwrap env (ag_world a)\<rparr>;
            (output, w) = io_take_output env (ag_world a);
            a = a\<lparr>ag_world := w\<rparr> in
        and_then (update_state env rv a) (\<lambda>_ a. (Ok output, a)))"
  have "drives_on False a (snd (?k b))" if "drives_on False a b" for b
    using that by (auto simp: Let_def split_def intro!: kept split: handshake_state.splits)
  then have chosen: "drives False a (snd (and_then (set_raw env False b) (\<lambda>_. ?k)))" if "drives False a b" for b
    using that by (intro drives_chosen) blast+
  show ?thesis
    unfolding handshake_def by (rule kept_and_then [of "drives False a"]) (simp add: kept, rule chosen)
qed

lemma handshake_raw_drives: "drives True a (snd (handshake_raw env now input a))"
  unfolding handshake_raw_def
proof (rule kept_and_then [of "drives True a"])
  show "drives True a (snd (nss_call (time_set env now) a))" by (simp add: kept)
next
  fix u b assume b: "drives True a b"
  let ?auth = "\<lambda>a. case ag_state a of
          Authenticated err \<Rightarrow>
            (let (r, a) = nss_run (SSL_AuthCertificateComplete env (ag_fd a) err) a in capture_error env r a)
        | _ \<Rightarrow> (Ok (), a)"
  let ?input = "\<lambda>a. case input of
          Some rec \<Rightarrow> (let (r, a) = nss_run (record_write env rec (ag_fd a)) a in capture_error env r a)
        | None \<Rightarrow> (Ok (), a)"
  let ?drive = "\<lambda>a. (let (rv, a) = nss_run (SSL_ForceHandshake env (ag_fd a)) a in
        and_then (update_state env rv a) (\<lambda>_ a. (Ok (record_list env (ag_world a)), a)))"
  have on: "drives_on True a (snd (?auth c))" "drives_on True a (snd (?input c))" "drives_on True a (snd (?drive c))"
    if "drives_on True a c" for c
    using that by (auto simp: Let_def split_def intro!: kept split: handshake_state.splits option.splits)
  show "drives True a (snd (and_then (setup_raw env b) (\<lambda>_ a. and_then (?auth a) (\<lambda>_ a.
      and_then (?input a) (\<lambda>_. ?drive)))))"
  proof (rule kept_and_then [of "drives True a"])
    show "drives True a (snd (setup_raw env b))" using b by (rule drives_setup_raw)
    fix v c assume c: "setup_raw env b = (Ok v, c)" "drives True a c"
    then have "drives_on True a c" by (simp add: drives_on_def setup_raw_Ok)
    then have "drives_on True a (snd (and_then (?auth c) (\<lambda>_ a. and_then (?input a) (\<lambda>_. ?drive))))"
      by (intro drives_on_bind(1) on)
    then show "drives True a (snd (and_then (?auth c) (\<lambda>_ a. and_then (?input a) (\<lambda>_. ?drive))))"
      by (rule drives_on_drives)
  qed
qed

lemma close_drives: "drives True a (snd (agent_close env a))"
proof -
  have "drives True a (pr_close env b)" if "drives True a b" for b
    using that by (simp add: pr_close_def drives_callbacks split: prod.splits)
  moreover have "drives True a b" if "setup_raw env a = (r, b)" for r b
    using drives_setup_raw [of a a env] that by simp
  ultimately show ?thesis
    by (auto simp: agent_close_def Let_def split: prod.splits result.splits if_splits)
qed

text \<open>Configuring an agent changes nothing but the list of extensions and the state of NSS.\<close>

definition configures :: "'w agent \<Rightarrow> 'w agent \<Rightarrow> bool" where
  "configures a b \<longleftrightarrow> ag_raw b = ag_raw a \<and> ag_state b = ag_state a \<and> ag_fd b = ag_fd a \<and>
     ag_auth_required b = ag_auth_required a \<and> ag_alert b = ag_alert a"

lemma configures_refl [simp]: "configures a a"
  by (simp add: configures_def)

lemma configures_call [kept]: "configures a b \<Longrightarrow> configures a (snd (nss_call f b))"
  by (simp add: nss_call_def configures_def split: prod.splits)

lemmas configures_bind [kept] =
  kept_and_then [of "configures a" for a] kept_try [of "configures a" for a]

lemma configuration_kept:
  "configures a (snd (set_option env opt v a))" "configures a (snd (set_version_range env lo hi a))"
  "configures a (snd (set_ciphers env cs a))" "configures a (snd (set_groups env gs a))"
  "configures a (snd (set_signature_schemes env ss a))" "configures a (snd (send_additional_key_shares env n a))"
  "configures a (snd (set_alpn env ps a))" "configures a (snd (agent_set_certificate_compression env c a))"
  by (auto simp: set_option_def set_version_range_def set_ciphers_def set_groups_def Let_def
      set_signature_schemes_def send_additional_key_shares_def set_alpn_def
      agent_set_certificate_compression_def intro!: kept)

lemma extension_kept: "configures a (snd (extension_handler env e a))"
proof -
  have "configures a (b\<lparr>ag_extensions := xs\<rparr>) \<longleftrightarrow> configures a b" for b xs
    by (simp add: configures_def)
  then show ?thesis by (auto simp: extension_handler_def intro!: kept)
qed

lemma secrets_kept: "configures a (snd (read_secret env e a))" "configures a (snd (write_secret env e a))"
  by (simp_all add: read_secret_def write_secret_def configures_def split: prod.splits)

section \<open>The steps of an agent\<close>

inductive agent_step :: "('r, 'k, 'w) nss_env \<Rightarrow> 'w agent \<Rightarrow> 'w agent \<Rightarrow> bool" for env where
  st_handshake: "handshake env now input a = (r, b) \<Longrightarrow> agent_step env a b"
| st_handshake_raw: "handshake_raw env now rec a = (q, b) \<Longrightarrow> agent_step env a b"
| st_setup_raw: "setup_raw env a = (u, b) \<Longrightarrow> agent_step env a b"
| st_close: "agent_close env a = (u, b) \<Longrightarrow> agent_step env a b"
| st_authenticated: "authenticated status a = (u, b) \<Longrightarrow> agent_step env a b"
| st_set_option: "set_option env opt v a = (u, b) \<Longrightarrow> agent_step env a b"
| st_set_version_range: "set_version_range env lo hi a = (u, b) \<Longrightarrow> agent_step env a b"
| st_set_ciphers: "set_ciphers env cs a = (u, b) \<Longrightarrow> agent_step env a b"
| st_set_groups: "set_groups env gs a = (u, b) \<Longrightarrow> agent_step env a b"
| st_set_signature_schemes: "set_signature_schemes env ss a = (u, b) \<Longrightarrow> agent_step env a b"
| st_key_shares: "send_additional_key_shares env n a = (u, b) \<Longrightarrow> agent_step env a b"
| st_set_alpn: "set_alpn env ps a = (u, b) \<Longrightarrow> agent_step env a b"
| st_compression: "agent_set_certificate_compression env c a = (u, b) \<Longrightarrow> agent_step env a b"
| st_extension: "extension_handler env x a = (u, b) \<Longrightarrow> agent_step env a b"
| st_read_secret: "read_secret env e a = (k, b) \<Longrightarrow> agent_step env a b"
| st_write_secret: "write_secret env e a = (k, b) \<Longrightarrow> agent_step env a b"

text \<open>Every step is one of four kinds.\<close>

lemma agent_step_kinds:
  assumes "agent_step env a b"
  shows "drives False a b \<or> drives True a b \<or> configures a b \<or> (\<exists>e u. authenticated e a = (u, b))"
  using assms
proof cases
  case (st_handshake now input r)
  then show ?thesis using handshake_drives [of a env now input] by simp
next
  case (st_handshake_raw now rec q)
  then show ?thesis using handshake_raw_drives [of a env now rec] by simp
next
  case (st_setup_raw u)
  then show ?thesis using drives_setup_raw [of a a env] by simp
next
  case (st_close u)
  then show ?thesis using close_drives [of a env] by simp
next
  case (st_authenticated status u)
  then show ?thesis by blast
qed (use configuration_kept [of a] extension_kept [of a] secrets_kept [of a] in \<open>metis snd_conv\<close>)+

lemma authenticated_cases:
  "authenticated e a = (u, b) \<longleftrightarrow>
     (if authentication_needed (ag_state a)
      then u = Ok () \<and> b = a\<lparr>ag_auth_required := False, ag_state := Authenticated e\<rparr> else u = Panic \<and> b = a)"
  by (auto simp: authenticated_def assert_that_def)

lemma agent_step_ok:
  assumes "agent_step env a b" and "agent_ok a"
  shows "agent_ok b"
proof -
  consider (drive) m where "drives m a b" | (conf) "configures a b" | (auth) e u where "authenticated e a = (u, b)"
    using agent_step_kinds [OF assms(1)] by blast
  then show ?thesis
  proof cases
    case drive
    then show ?thesis using assms(2) by (rule drives_ok)
  next
    case conf
    then show ?thesis using assms(2) by (simp add: configures_def agent_ok_def)
  next
    case auth
    then show ?thesis using assms(2) by (auto simp: authenticated_cases agent_ok_def split: if_splits)
  qed
qed

interpretation agents: machine "agent_step env" agent_ok for env
  by standard (rule agent_step_ok)

section \<open>The specification of a handshake\<close>

text \<open>
  The way of driving the handshake is chosen once. A handshake that is driven is running, waits for
  the peer to be authenticated, is finished or broken; authentication is given only to one that waits.
\<close>

datatype phase = Idle | Running | Waiting | Approved int | Finished agent_info | Broken nss_error

fun phase_driven :: "phase \<Rightarrow> bool" where
  "phase_driven Idle = False"
| "phase_driven (Approved _) = False"
| "phase_driven _ = True"

inductive spec_step :: "bool option \<times> phase \<Rightarrow> bool option \<times> phase \<Rightarrow> bool" where
  choose: "spec_step (None, p) (Some m, p)"
| drive: "phase_driven q \<Longrightarrow> spec_step (Some m, p) (Some m, q)"
| approve: "spec_step (Some m, Waiting) (Some m, Approved e)"

inductive_cases spec_stepE: "spec_step (m, p) (n, q)"

fun phase_of :: "handshake_state \<Rightarrow> phase" where
  "phase_of New = Idle"
| "phase_of InProgress = Running"
| "phase_of AuthenticationPending = Waiting"
| "phase_of (EchFallbackAuthenticationPending _) = Waiting"
| "phase_of (Authenticated e) = Approved e"
| "phase_of (Complete i) = Finished i"
| "phase_of (Failed e) = Broken e"

definition spec_of :: "'w agent \<Rightarrow> bool option \<times> phase" where
  "spec_of a = (ag_raw a, phase_of (ag_state a))"

lemma phase_of_simps [simp]:
  "phase_driven (phase_of s) \<longleftrightarrow> driven s" "phase_of s = Waiting \<longleftrightarrow> authentication_needed s"
  "phase_of s = Idle \<longleftrightarrow> s = New" "phase_of s = Approved e \<longleftrightarrow> s = Authenticated e"
  by (cases s; simp)+

lemma drives_spec:
  assumes "drives m a b"
  shows "spec_step\<^sup>*\<^sup>* (spec_of a) (spec_of b)"
proof -
  let ?c = "(ag_raw b, phase_of (ag_state a))"
  have "spec_step\<^sup>*\<^sup>* (None, p) (Some m, p)" for p
    by (rule r_into_rtranclp) (rule spec_step.choose)
  then have "spec_step\<^sup>*\<^sup>* (spec_of a) ?c"
    using assms by (auto simp: drives_def spec_of_def)
  moreover have "?c = spec_of b \<or> spec_step ?c (spec_of b)"
  proof (cases "ag_state b = ag_state a")
    case False
    then have "ag_raw b = Some m" and "phase_driven (phase_of (ag_state b))"
      using assms by (simp_all add: drives_def)
    then show ?thesis by (simp add: spec_of_def spec_step.drive)
  qed (simp add: spec_of_def)
  ultimately show ?thesis by (metis rtranclp.rtrancl_into_rtrancl)
qed

lemma agent_step_spec:
  assumes "agent_step env a b" and "agent_ok a"
  shows "spec_step\<^sup>*\<^sup>* (spec_of a) (spec_of b)"
proof -
  consider (drive) m where "drives m a b" | (conf) "configures a b" | (auth) e u where "authenticated e a = (u, b)"
    using agent_step_kinds [OF assms(1)] by blast
  then show ?thesis
  proof cases
    case drive
    then show ?thesis by (rule drives_spec)
  next
    case conf
    then show ?thesis by (simp add: configures_def spec_of_def)
  next
    case auth
    show ?thesis
    proof (cases "authentication_needed (ag_state a)")
      case True
      then have "ag_raw a \<noteq> None" using assms(2) by (auto simp: agent_ok_def)
      with True auth show ?thesis
        by (auto simp: authenticated_cases spec_of_def intro!: r_into_rtranclp spec_step.approve
            simp flip: phase_of_simps(2))
    qed (use auth in \<open>simp add: authenticated_cases\<close>)
  qed
qed

interpretation agent_spec: refines "agent_step env" agent_ok spec_step spec_of for env
  by standard (rule agent_step_spec)

section \<open>A concrete environment\<close>

text \<open>
  NSS that counts the handshake calls, asks for the certificate to be checked in the first of them
  and blocks until it is.
\<close>

definition sample_channel_info :: channel_info where
  "sample_channel_info = \<lparr>ch_protocolVersion = 772, ch_cipherSuite = 4865, ch_keaGroup = 29, ch_resumed = 0,
     ch_earlyDataAccepted = 0, ch_echAccepted = 0, ch_signatureScheme = 1027\<rparr>"

definition sample_preliminary :: preliminary_channel_info where
  "sample_preliminary = \<lparr>pre_valuesSet = 0, pre_protocolVersion = 772, pre_cipherSuite = 4865,
     pre_zeroRttCipherSuite = 0, pre_canSendEarlyData = 0, pre_maxEarlyDataSize = 0, pre_echAccepted = 0,
     pre_echPublicName = None\<rparr>"

abbreviation sample_ok :: "nat nss_call" where
  "sample_ok \<equiv> \<lambda>w. (Ok (), w)"

definition sample_nss_of :: "(nat \<Rightarrow> 'r) \<Rightarrow> (nat \<Rightarrow> 'k) \<Rightarrow> ('r, 'k, nat) nss_env" where
  "sample_nss_of rec key =
     \<lparr>env_debug = True, env_hdr = (\<lambda>_. 1), disable_random = False, int_error = NssError 2, nul_error = NssError 3,
      utf8_error = NssError 4, is_blocked = (\<lambda>r. r = Err (NssError 1)), is_initialized = (\<lambda>_. True),
      PR_CreateIOLayerStub = (\<lambda>w. (Some 1, w)), SSL_ImportFD = (\<lambda>fd w. (fd, w)), PR_Close = (\<lambda>_ w. ([], w)),
      SSL_AuthCertificateHook = (\<lambda>_. sample_ok), SSL_AlertSentCallback = (\<lambda>_. sample_ok),
      SSL_ResetHandshake = (\<lambda>_ _. sample_ok), SSL_VersionRangeSet = (\<lambda>_ _ _. sample_ok),
      SSL_GetImplementedCiphers = [4865, 4866, 4867], SSL_CipherPrefSet = (\<lambda>_ _ _. sample_ok),
      SSL_NamedGroupConfig = (\<lambda>_ _. sample_ok), SSL_SignatureSchemePrefSet = (\<lambda>_ _. sample_ok),
      SSL_SendAdditionalKeyShares = (\<lambda>_ _. sample_ok), SSL_OptionSet = (\<lambda>_ _ _. sample_ok),
      SSL_SetNextProtoNego = (\<lambda>_ _. sample_ok), SSL_SetCertificateCompressionAlgorithm = (\<lambda>_ _. sample_ok),
      SECITEM_AllocItem = sample_alloc,
      SSL_GetNextProto = (\<lambda>_ _. Ok (NEXT_PROTO_NEGOTIATED, [104, 51, 0], 2)),
      SSL_GetPreliminaryChannelInfo = (\<lambda>_ _. Ok sample_preliminary),
      SSL_GetChannelInfo = (\<lambda>_ _. Ok sample_channel_info),
      SSL_ExportKeyingMaterial = (\<lambda>_ _ _ _ out _. (Ok (), map (\<lambda>_. 7) out)),
      SSL_AuthCertificateComplete = (\<lambda>_ e w. (if e = 0 then Ok () else Err (NssError e), [], w + 1)),
      SSL_ForceHandshake = (\<lambda>_ w. if w = 0 then (Err (NssError 1), [AuthCertificate], 1) else (Ok (), [], w + 1)),
      convert_ech_error = (\<lambda>_ e _. e), time_bind = (\<lambda>_. sample_ok), time_set = (\<lambda>_. sample_ok),
      io_wrap = (\<lambda>_ w. w), io_unwrap = id, io_take_output = (\<lambda>w. ([1], w)), record_list_setup = (\<lambda>_. sample_ok),
      record_list = (\<lambda>w. [rec w]), record_write = (\<lambda>_ _ w. (Ok (), [], w)), secrets_register = (\<lambda>_. sample_ok),
      secrets_has = (\<lambda>_ w. 0 < w), secrets_take_read = (\<lambda>_ w. (Some (key w), w)),
      secrets_take_write = (\<lambda>_ w. (Some (key w), w)), extension_tracker_new = (\<lambda>_ _. sample_ok)\<rparr>"

abbreviation sample_nss :: "(nat, nat, nat) nss_env" where
  "sample_nss \<equiv> sample_nss_of id id"

definition sample_agent :: "nat agent" where
  "sample_agent = \<lparr>ag_fd = Some 1, ag_raw = None, ag_state = New, ag_auth_required = False, ag_alert = None,
     ag_extensions = [], ag_ech_config = [], ag_world = 0\<rparr>"

definition sample_waiting :: "nat agent" where
  "sample_waiting = sample_agent\<lparr>ag_raw := Some True, ag_state := AuthenticationPending,
     ag_auth_required := True, ag_world := 1\<rparr>"

lemma sample_new: "agent_new (sample_nss_of rec key) 0 = (Ok sample_agent, 0)"
  by (simp add: agent_new_def create_fd_def sample_nss_of_def assert_that_def sample_agent_def)

lemma sample_handshake_raw:
  "handshake_raw (sample_nss_of rec key) 5 (Some r) sample_agent = (Ok [rec 1], sample_waiting)"
  by (simp add: handshake_raw_def nss_call_def nss_run_def setup_raw_def set_raw_def capture_error_def
      update_state_def preinfo_def pre_info_new_def get_alpn_def pre_ech_public_name_def sample_nss_of_def
      sample_agent_def sample_preliminary_def auth_complete_hook_def sample_waiting_def)

lemma sample_agent_run: "(agent_step sample_nss)\<^sup>*\<^sup>* sample_agent sample_waiting"
  by (rule r_into_rtranclp) (rule st_handshake_raw, rule sample_handshake_raw)

lemma agent_new_ok: "agent_new env w = (Ok a, w') \<Longrightarrow> agent_ok a \<and> spec_of a = (None, Idle)"
  by (auto simp: agent_new_def rust_simps agent_ok_def spec_of_def)

section \<open>Properties of the handshake\<close>



text \<open>
  C39. In every agent that can be reached, a handshake that waits for authentication has the flag that
  requires it set, and a handshake was driven at all only if the way to drive it was recorded.
\<close>

theorem agent_reachable_ok:
  assumes "agent_new env w = (Ok a, w')" and "(agent_step env)\<^sup>*\<^sup>* a b"
  shows "(authentication_needed (ag_state b) \<longrightarrow> ag_auth_required b) \<and> (ag_raw b = None \<longrightarrow> ag_state b = New)"
  using agents.steps_inv [OF assms(2)] agent_new_ok [OF assms(1)] by (simp add: agent_ok_def)

theorem agent_reachable_ok_witness: "ag_auth_required sample_waiting"
  using agent_reachable_ok [OF sample_new sample_agent_run] by (simp add: sample_waiting_def)

end
