(* ===== verification/Agent_Handshake.thy ===== *)
theory Agent_Handshake
  imports Agent_Machine
begin

text \<open>
  What driving the handshake of an agent does: it sticks to one way, it leaves the decision about the
  certificate to the application, its errors are recorded, and so are the alerts that NSS sends.
\<close>

section \<open>Driving the handshake\<close>

lemma bind_cong_st:
  assumes "\<And>x b. m = (Ok x, b) \<Longrightarrow> k x b = k' x b"
  shows "bind_st m k put = bind_st m k' put"
  using assms by (cases m; cases "fst m") auto

lemma nss_call_frame:
  assumes "nss_call f a = (r, b)"
  shows "ag_state b = ag_state a" and "ag_raw b = ag_raw a" and "ag_fd b = ag_fd a"
    and "ag_auth_required b = ag_auth_required a" and "ag_alert b = ag_alert a"
  using assms by (auto simp: nss_call_def split: prod.splits)

lemma nss_run_frame:
  assumes "nss_run f a = (r, b)"
  shows "ag_state b = ag_state a" and "ag_raw b = ag_raw a" and "ag_fd b = ag_fd a"
  using assms by (auto simp: nss_run_def split: prod.splits)

lemma set_raw_frame:
  assumes "set_raw env m a = (r, b)"
  shows "ag_state b = ag_state a" and "ag_fd b = ag_fd a" and "ag_auth_required b = ag_auth_required a"
  using assms by (auto simp: set_raw_def bind_st_def nss_call_def split: option.splits prod.splits result.splits if_splits)

lemma setup_raw_state:
  assumes "setup_raw env a = (Ok u, b)"
  shows "ag_state b = ag_state a"
proof -
  obtain c where c: "set_raw env True a = (Ok (), c)"
    and k: "(let (r, a) = nss_call (record_list_setup env (ag_fd c)) c in capture_error env r a) = (Ok u, b)"
    using assms by (auto simp: setup_raw_def rust_simps)
  obtain r d where "nss_call (record_list_setup env (ag_fd c)) c = (r, d)" by fastforce
  with k set_raw_frame(1) [OF c] nss_call_frame(1) [OF this] show ?thesis by (simp add: capture_error_Ok)
qed

text \<open>
  C24. Which of \<^verbatim>\<open>handshake\<close> and \<^verbatim>\<open>handshake_raw\<close> an agent has used is never forgotten, whatever is
  called in between; the other one then fails with \<^verbatim>\<open>MixedHandshakeMethod\<close> and only the time is updated.
\<close>

theorem handshake_method_fixed:
  assumes "(agent_step env)\<^sup>*\<^sup>* a b" and "ag_raw a = Some raw" and "nss_call (time_set env now) b = (Ok u, c)"
  shows "ag_raw b = Some raw \<and>
     (if raw then handshake env now input b = (Err MixedHandshakeMethod, c)
      else handshake_raw env now rec b = (Err MixedHandshakeMethod, c))"
proof -
  have "ag_raw b = Some raw"
    using assms(1,2)
  proof (induction rule: rtranclp_induct)
    case (step b c)
    then show ?case
      using agent_step_kinds [OF step.hyps(2)]
      by (auto simp: drives_def configures_def authenticated_cases split: if_splits)
  qed
  moreover have "ag_raw c = ag_raw b" using assms(3) by (rule nss_call_frame)
  ultimately show ?thesis
    by (simp add: handshake_def handshake_raw_def setup_raw_def set_raw_def assms(3))
qed

theorem handshake_method_fixed_witness:
  "handshake sample_nss 6 [] sample_waiting = (Err MixedHandshakeMethod, sample_waiting)"
  using handshake_method_fixed [of sample_nss sample_waiting sample_waiting True 6 "()" sample_waiting]
  by (simp add: nss_call_def sample_nss_of_def sample_waiting_def)

lemma capture_error_env: "capture_error (env\<lparr>SSL_AuthCertificateComplete := f\<rparr>) r = capture_error env r"
  by (cases r) (simp_all add: fun_eq_iff capture_error_def)



section \<open>How an attempt ends\<close>

text \<open>A result leaves the state alone, or is an error that the state records.\<close>

definition recorded :: "'w agent \<Rightarrow> (nss_error, 'x) result \<times> 'w agent \<Rightarrow> bool" where
  "recorded a rb \<longleftrightarrow> ag_state (snd rb) = ag_state a \<or> (\<exists>e. fst rb = Err e \<and> ag_state (snd rb) = Failed e)"

lemma update_state_outcome:
  assumes "update_state env res a = (r, b)"
  shows "case r of
      Ok _ \<Rightarrow> ag_state b = InProgress \<or> authentication_needed (ag_state b) \<or>
        (\<exists>i. ag_state b = Complete i \<and> res = Ok () \<and> info_new env (ag_fd a) (ag_world a) = Ok i)
    | Err e \<Rightarrow> ag_state b = Failed e \<or>
        ag_state b = ag_state a \<and> is_blocked env res \<and> ag_auth_required a
    | Panic \<Rightarrow> ag_state b = ag_state a"
  using assms
  by (auto simp: update_state_def rust_simps capture_error_def Let_def
      split: result.splits if_splits option.splits)

lemma recorded_simps:
  "ag_state b = ag_state a \<Longrightarrow> recorded a (r, b)"
  "ag_state c = ag_state a \<Longrightarrow> recorded a (nss_call f c)"
  "ag_state c = ag_state a \<Longrightarrow> recorded a (case nss_run g c of (r, b) \<Rightarrow> capture_error env r b)"
  by (auto simp: recorded_def capture_error_def nss_call_def nss_run_def Let_def split: result.splits prod.splits)

lemma recorded_setup_raw: "ag_state c = ag_state a \<Longrightarrow> recorded a (setup_raw env c)"
  by (auto simp: recorded_def setup_raw_def set_raw_def capture_error_def nss_call_def bind_st_def Let_def
      split: result.splits prod.splits option.splits)

definition ended :: "('r, 'k, 'w) nss_env \<Rightarrow> 'w agent \<Rightarrow> (nss_error, 'r list) result \<times> 'w agent \<Rightarrow> bool" where
  "ended env a rb = (case fst rb of
      Ok recs \<Rightarrow> recs = record_list env (ag_world (snd rb)) \<and>
        (ag_state (snd rb) = InProgress \<or> authentication_needed (ag_state (snd rb)) \<or> is_connected (ag_state (snd rb)))
    | Err e \<Rightarrow> ag_state (snd rb) = Failed e \<or> ag_state (snd rb) = ag_state a
    | Panic \<Rightarrow> ag_state (snd rb) = ag_state a)"

lemma ended_bind:
  assumes "recorded a m" and "\<And>x b. ag_state b = ag_state a \<Longrightarrow> ended env a (k x b)"
  shows "ended env a (and_then m k)"
proof (cases m)
  case (Pair r b)
  with assms show ?thesis by (cases r) (auto simp: recorded_def ended_def)
qed

lemma drive_ended:
  assumes "ag_state c = ag_state a"
  shows "ended env a (let (rv, a) = nss_run f c in
     and_then (update_state env rv a) (\<lambda>_ a. (Ok (record_list env (ag_world a)), a)))"
proof -
  obtain rv d where d: "nss_run f c = (rv, d)" by fastforce
  obtain r b where u: "update_state env rv d = (r, b)" by fastforce
  have "ag_state d = ag_state a" using nss_run_frame(1) [OF d] assms by simp
  with update_state_outcome [OF u] show ?thesis
    by (cases r) (auto simp: d u ended_def)
qed

text \<open>
  C25. An attempt to drive the handshake with records that succeeds returns the records NSS produced and
  leaves the handshake in progress, waiting for authentication or complete. One that fails leaves the
  state as it was or makes it \<^verbatim>\<open>Failed\<close> with exactly the error returned.
\<close>

theorem handshake_raw_outcome:
  "(case handshake_raw env now input a of (r, b) \<Rightarrow> (case r of
      Ok recs \<Rightarrow> recs = record_list env (ag_world b) \<and>
        (ag_state b = InProgress \<or> authentication_needed (ag_state b) \<or> is_connected (ag_state b))
    | Err e \<Rightarrow> ag_state b = Failed e \<or> ag_state b = ag_state a
    | Panic \<Rightarrow> ag_state b = ag_state a))"
proof -
  have "ended env a (handshake_raw env now input a)"
    unfolding handshake_raw_def
    by (intro ended_bind drive_ended)
      (simp_all add: recorded_simps recorded_setup_raw split: handshake_state.splits option.splits)
  then show ?thesis by (simp add: ended_def split_def)
qed

section \<open>Alerts and closing\<close>

text \<open>
  Of the alerts NSS sends during a call, the agent records the description of the first fatal one,
  and none if it already has one; asking for the certificate to be checked is recorded as well.
\<close>

lemma first_fatal_alert:
  "ag_alert (fold nss_callback events a) =
     (case ag_alert a of
        Some d \<Rightarrow> Some d
      | None \<Rightarrow> map_option alert_description
          (find (\<lambda>al. alert_level al = 2) (List.map_filter (\<lambda>e. case e of AlertSent al \<Rightarrow> Some al | _ \<Rightarrow> None) events))) \<and>
   ag_auth_required (fold nss_callback events a) = (ag_auth_required a \<or> AuthCertificate \<in> set events)"
proof (induction events arbitrary: a)
  case (Cons e es)
  then show ?case
    by (cases e) (auto simp: auth_complete_hook_def alert_sent_cb_def List.map_filter_simps split: option.splits)
qed (simp add: List.map_filter_simps split: option.splits)

text \<open>
  Closing an agent is idempotent: it leaves the agent without a descriptor, and closing it again,
  as dropping it does, changes nothing.
\<close>

lemma close_idempotent:
  assumes "agent_close env a = (Ok (), b)"
  shows "ag_fd b = None \<and> agent_close env b = (Ok (), b) \<and> ag_raw b = ag_raw a \<and>
     ag_state b = ag_state a"
proof -
  have frame: "ag_state (pr_close env c) = ag_state c" "ag_raw (pr_close env c) = ag_raw c" for c
    by (simp_all add: pr_close_def split: prod.splits)
  have "ag_fd b = None \<and> ag_raw b = ag_raw a \<and> ag_state b = ag_state a"
    using assms
    by (auto simp: agent_close_def frame Let_def setup_raw_Ok setup_raw_state split: if_splits prod.splits result.splits)
  then show ?thesis by (simp add: agent_close_def)
qed

lemma close_idempotent_witness:
  "\<exists>b. agent_close sample_nss sample_waiting = (Ok (), b) \<and> agent_close sample_nss b = (Ok (), b)"
proof -
  obtain b where b: "agent_close sample_nss sample_waiting = (Ok (), b)"
    by (simp add: agent_close_def setup_raw_def set_raw_def nss_call_def capture_error_def pr_close_def
        sample_nss_of_def sample_waiting_def sample_agent_def)
  with close_idempotent [OF b] show ?thesis by blast
qed

lemma count_u32_cases:
  "length xs < 2 ^ 64 \<Longrightarrow>
   count_u32 env xs = (if length xs < 2 ^ 32 then Ok (of_nat (length xs)) else Err (int_error env))"
  by (simp add: count_u32_def u32_try_from_def len_def unat_of_nat word_unat_eq_iff unsigned_ucast_eq
      take_bit_nat_eq_self)

text \<open>
  Keying material is exported only from a complete handshake and only into a buffer that is not
  empty; in every other case the buffer is left as it was.
\<close>

lemma export_only_complete:
  "if info a = None then export_keying_material env label context out a = (Err InvalidState, out)
   else if out = [] then export_keying_material env label context out a = (Err InvalidInput, out)
   else if length label < 2 ^ 32 \<and> length context < 2 ^ 32 \<and> length out < 2 ^ 32 then
     export_keying_material env label context out a =
       SSL_ExportKeyingMaterial env (ag_fd a) label (context \<noteq> []) context out (ag_world a)
   else True"
proof -
  show ?thesis
    by (cases "ag_state a") (simp_all add: export_keying_material_def info_def count_u32_cases)
qed

end
