(* ===== verification/Agent_Config.thy ===== *)
theory Agent_Config
  imports Agent_Handshake
begin

text \<open>
  What configuring an agent tells NSS: the list of application protocols and the cipher suites.
\<close>

section \<open>Protocols and cipher suites\<close>

text \<open>What NSS reads back: items of one length byte and as many bytes, none of them empty.\<close>

function alpn_parse :: "bytes \<Rightarrow> bytes list option" where
  "alpn_parse [] = Some []"
| "alpn_parse (n # xs) =
     (if n = 0 \<or> length xs < unat n then None
      else map_option (Cons (take (unat n) xs)) (alpn_parse (drop (unat n) xs)))"
  by pat_completeness auto
termination by (relation "measure length") auto

definition alpn_item :: "bytes \<Rightarrow> bytes" where
  "alpn_item v = of_nat (length v) # v"

definition alpn_fits :: "bytes \<Rightarrow> bool" where
  "alpn_fits v \<longleftrightarrow> 0 < length v \<and> length v < 256"

lemma alpn_add_cases: "alpn_add v e = (if alpn_fits v then (Ok (), e @ alpn_item v) else (Err InvalidAlpn, e))"
  by (simp add: alpn_add_def alpn_fits_def alpn_item_def)

lemma alpn_parse_item:
  assumes "alpn_fits v"
  shows "alpn_parse (alpn_item v @ xs) = map_option (Cons v) (alpn_parse xs)"
proof -
  have "unat (of_nat (length v) :: u8) = length v" using assms by (simp add: alpn_fits_def unat_of_nat)
  moreover from this have "(of_nat (length v) :: u8) \<noteq> 0" using assms by (metis alpn_fits_def less_irrefl unsigned_0)
  ultimately show ?thesis by (simp add: alpn_item_def)
qed

lemma alpn_add_all_cases:
  "alpn_add_all vs e =
     (if list_all alpn_fits vs then (Ok (), e @ concat (map alpn_item vs))
      else (Err InvalidAlpn, e @ concat (map alpn_item (takeWhile alpn_fits vs))))"
  by (induction vs arbitrary: e) (auto simp: alpn_add_cases)

lemma alpn_encode_cases:
  "alpn_encode ps = (if ps \<noteq> [] \<and> list_all alpn_fits ps then Ok (concat (map alpn_item (rotate1 ps))) else Err InvalidAlpn)"
  by (cases ps) (auto simp: alpn_encode_def alpn_add_all_cases alpn_add_cases)

lemma alpn_parse_concat: "list_all alpn_fits ps \<Longrightarrow> alpn_parse (concat (map alpn_item ps)) = Some ps"
  by (induction ps) (simp_all add: alpn_parse_item)

lemma alpn_encode_length: "length (concat (map alpn_item ps)) = length ps + sum_list (map length ps)"
  by (induction ps) (simp_all add: alpn_item_def)

text \<open>
  C28. \<^verbatim>\<open>set_alpn\<close> refuses an empty list and empty or too long items without a change; otherwise it gives
  NSS an encoding that reads back as the list with its first, preferred, item moved to the end. Its
  debug assertion never fails.
\<close>

theorem set_alpn_protocols:
  assumes "length ps + sum_list (map length ps) < 2 ^ 32"
  shows "if ps \<noteq> [] \<and> list_all (\<lambda>p. 0 < length p \<and> length p < 256) ps
     then \<exists>encoded. alpn_parse encoded = Some (rotate1 ps) \<and>
       set_alpn env ps a = nss_call (SSL_SetNextProtoNego env (ag_fd a) encoded) a
     else set_alpn env ps a = (Err InvalidAlpn, a)"
proof -
  have fits: "(\<lambda>p. 0 < length p \<and> length p < 256) = alpn_fits" by (simp add: alpn_fits_def fun_eq_iff)
  let ?e = "concat (map alpn_item (rotate1 ps))"
  have "length ?e = length ps + sum_list (map length ps)"
    by (cases ps) (simp_all add: alpn_encode_length [unfolded length_concat] length_concat alpn_item_def comp_def sum_list_Suc)
  moreover have "list_all alpn_fits ps \<Longrightarrow> alpn_parse ?e = Some (rotate1 ps)"
    by (rule alpn_parse_concat) (simp add: list_all_iff)
  ultimately show ?thesis
    unfolding fits using assms
    by (auto simp: set_alpn_def alpn_encode_cases count_u32_cases)
qed

theorem set_alpn_protocols_witness:
  "\<exists>encoded. alpn_parse encoded = Some [[104, 50], [104, 51]] \<and>
     set_alpn sample_nss [[104, 51], [104, 50]] sample_agent =
     nss_call (SSL_SetNextProtoNego sample_nss (Some 1) encoded) sample_agent"
  using set_alpn_protocols [of "[[104, 51], [104, 50]]" sample_nss sample_agent] by (simp add: sample_agent_def)

text \<open>\<open>pref fd w\<close> is the set of suites that NSS would offer on the descriptor.\<close>

definition cipher_law :: "('r, 'k, 'w) nss_env \<Rightarrow> (ptr \<Rightarrow> 'w \<Rightarrow> cipher \<Rightarrow> bool) \<Rightarrow> bool" where
  "cipher_law env pref \<longleftrightarrow> (\<forall>fd c v w w'. SSL_CipherPrefSet env fd c v w = (Ok (), w') \<longrightarrow>
     pref fd w' = (pref fd w)(c := v))"

lemma set_cipher_prefs_Ok:
  assumes "cipher_law env pref" and "set_cipher_prefs env fd v cs w = (Ok (), w')"
  shows "pref fd w' c = (if c \<in> set cs then v else pref fd w c)"
  using assms(2)
proof (induction cs arbitrary: w)
  case (Cons d ds)
  then obtain w1 where "SSL_CipherPrefSet env fd d v w = (Ok (), w1)" "set_cipher_prefs env fd v ds w1 = (Ok (), w')"
    by (auto simp: rust_simps)
  with Cons.IH assms(1) show ?case by (auto simp: cipher_law_def)
qed simp

text \<open>
  When \<^verbatim>\<open>set_ciphers\<close> succeeds, the handshake has not started and exactly the suites in the list are
  enabled, provided NSS enables only suites that it implements.
\<close>

lemma set_ciphers_exact:
  assumes "cipher_law env pref" and "set_ciphers env cs a = (Ok (), b)"
    and "\<And>c. pref (ag_fd a) (ag_world a) c \<Longrightarrow> c \<in> set (SSL_GetImplementedCiphers env)"
  shows "ag_state a = New \<and> {c. pref (ag_fd a) (ag_world b) c} = set cs"
proof -
  obtain w w' where new: "ag_state a = New"
    and w: "set_cipher_prefs env (ag_fd a) False (SSL_GetImplementedCiphers env) (ag_world a) = (Ok (), w)"
    "set_cipher_prefs env (ag_fd a) True cs w = (Ok (), w')" and b: "ag_world b = w'"
    using assms(2) by (auto simp: set_ciphers_def rust_simps nss_call_def split: if_splits prod.splits)
  have "\<not> pref (ag_fd a) w c" for c
    using set_cipher_prefs_Ok [OF assms(1) w(1)] assms(3) by auto
  then show ?thesis
    using new b set_cipher_prefs_Ok [OF assms(1) w(2)] by auto
qed

definition sample_cipher_nss :: "(nat, nat, nat) nss_env" where
  "sample_cipher_nss = sample_nss\<lparr>SSL_CipherPrefSet :=
     \<lambda>_ c v w. (Ok (), if v then set_bit (unat c) w else unset_bit (unat c) w)\<rparr>"

lemma set_ciphers_exact_witness:
  "\<exists>b. set_ciphers sample_cipher_nss [4866] sample_agent = (Ok (), b) \<and> {c :: cipher. bit (ag_world b) (unat c)} = {4866}"
proof -
  have law: "cipher_law sample_cipher_nss (\<lambda>_ w c. bit w (unat c))"
    by (auto simp: cipher_law_def sample_cipher_nss_def fun_eq_iff bit_set_bit_iff bit_unset_bit_iff word_unat_eq_iff
        split: if_splits)
  obtain b where b: "set_ciphers sample_cipher_nss [4866] sample_agent = (Ok (), b)"
    by (simp add: set_ciphers_def sample_cipher_nss_def nss_call_def sample_nss_of_def sample_agent_def)
  with set_ciphers_exact [OF law b] show ?thesis by (simp add: sample_agent_def)
qed

end
