(* ===== verification/Tls_Client.thy ===== *)
theory Tls_Client
  imports Agent_Config
begin

text \<open>
  \<^verbatim>\<open>Client\<close> of \<^verbatim>\<open>nss-rs/src/agent.rs\<close>: creation, the resumption tokens NSS hands over through a callback,
  and encrypted ClientHello. \<open>client_env\<close> adds the NSS functions that only a client calls. A client that
  fails to be created drops its agent, which closes it.
\<close>

section \<open>The client\<close>

record ('r, 'k, 'w) client_env =
  cl_nss :: "('r, 'k, 'w) nss_env"
  SSL_SetURL :: "ptr \<Rightarrow> bytes \<Rightarrow> 'w nss_call"
  SSL_SetResumptionTokenCallback :: "ptr \<Rightarrow> 'w nss_call"
  SSL_GetResumptionTokenInfo :: "bytes option \<Rightarrow> u32 \<Rightarrow> (nss_error, int) result"
  SSL_DestroyResumptionTokenInfo :: "bytes option \<Rightarrow> (nss_error, unit) result"
  SSL_SetResumptionToken :: "ptr \<Rightarrow> bytes \<Rightarrow> 'w nss_call"
  SSL_EnableTls13GreaseEch :: "ptr \<Rightarrow> bool \<Rightarrow> 'w nss_call"
  SSL_SetClientEchConfigs :: "ptr \<Rightarrow> bytes \<Rightarrow> 'w nss_call"
  SSL_CallExtensionWriterOnEchInner :: "ptr \<Rightarrow> bool \<Rightarrow> 'w nss_call"
  time_try_from :: "int \<Rightarrow> instant option"

definition MAX_TICKETS :: nat where
  "MAX_TICKETS = 4"

record resumption_token =
  rt_token :: bytes
  rt_expiration_time :: instant

record 'w client =
  cl_agent :: "'w agent"
  cl_server_name :: bytes
  cl_resumption :: "resumption_token list"

text \<open>What becomes of an agent under construction: it is kept on success and dropped on an error.\<close>

definition built ::
  "('r, 'k, 'w) nss_env \<Rightarrow> ('w agent \<Rightarrow> 'c) \<Rightarrow> (nss_error, unit) result \<times> 'w agent \<Rightarrow> (nss_error, 'c) result \<times> 'w" where
  "built env mk ra =
     (case ra of
        (Ok _, a) \<Rightarrow> (Ok (mk a), ag_world a)
      | (Err e, a) \<Rightarrow> (case agent_close env a of (Ok _, b) \<Rightarrow> (Err e, ag_world b) | (_, b) \<Rightarrow> (Panic, ag_world b))
      | (Panic, a) \<Rightarrow> (Panic, ag_world a))"

definition client_ready :: "('r, 'k, 'w) client_env \<Rightarrow> 'w agent \<Rightarrow> (nss_error, unit) result \<times> 'w agent" where
  "client_ready env a = nss_call (SSL_SetResumptionTokenCallback env (ag_fd a)) a"

definition client_new ::
  "('r, 'k, 'w) client_env \<Rightarrow> bytes \<Rightarrow> bool \<Rightarrow> 'w \<Rightarrow> (nss_error, 'w client) result \<times> 'w" where
  "client_new env server_name grease w =
     and_then (agent_new (cl_nss env) w) (\<lambda>agent w.
       built (cl_nss env) (\<lambda>a. \<lparr>cl_agent = a, cl_server_name = server_name, cl_resumption = []\<rparr>)
         (try_st (cstring_new (nul_error (cl_nss env)) server_name) agent (\<lambda>url.
          and_then (nss_call (SSL_SetURL env (ag_fd agent) url) agent) (\<lambda>_ agent.
          and_then (agent_ready (cl_nss env) False grease agent) (\<lambda>_ agent.
            client_ready env agent)))))"

section \<open>Resumption\<close>

text \<open>\<open>resumption\<close> is the list the callback's argument points to.\<close>

definition resumption_token_cb ::
  "('r, 'k, 'w) client_env \<Rightarrow> bytes option \<Rightarrow> u32 \<Rightarrow> resumption_token list option \<Rightarrow>
   sec_status \<times> resumption_token list option" where
  "resumption_token_cb env token n resumption =
     (case SSL_GetResumptionTokenInfo env token n of
        Ok expiration_time \<Rightarrow>
          if \<not> is_ok (SSL_DestroyResumptionTokenInfo env token) then (SECSuccess, resumption)
          else
            (case resumption of
               None \<Rightarrow> (SECFailure, None)
             | Some tokens \<Rightarrow>
                 (let v = null_safe_slice token (ucast n);
                      tokens = (if MAX_TICKETS \<le> length tokens then tl tokens else tokens) in
                  case time_try_from env expiration_time of
                    Some t \<Rightarrow> (SECSuccess, Some (tokens @ [\<lparr>rt_token = v, rt_expiration_time = t\<rparr>]))
                  | None \<Rightarrow> (SECSuccess, Some tokens)))
      | _ \<Rightarrow> (SECSuccess, resumption))"

text \<open>NSS calls it with the argument that \<^verbatim>\<open>ready\<close> registered.\<close>

definition client_token_event :: "('r, 'k, 'w) client_env \<Rightarrow> bytes option \<Rightarrow> u32 \<Rightarrow> 'w client \<Rightarrow> 'w client" where
  "client_token_event env token n c =
     (case snd (resumption_token_cb env token n (Some (cl_resumption c))) of
        Some tokens \<Rightarrow> c\<lparr>cl_resumption := tokens\<rparr> | None \<Rightarrow> c)"

definition client_resumption_token :: "'w client \<Rightarrow> resumption_token option \<times> 'w client" where
  "client_resumption_token c =
     (case cl_resumption c of
        [] \<Rightarrow> (None, c)
      | ts \<Rightarrow> (Some (last ts), c\<lparr>cl_resumption := butlast ts\<rparr>))"

definition client_has_resumption_token :: "'w client \<Rightarrow> bool" where
  "client_has_resumption_token c \<longleftrightarrow> cl_resumption c \<noteq> []"

definition enable_resumption ::
  "('r, 'k, 'w) client_env \<Rightarrow> bytes \<Rightarrow> 'w agent \<Rightarrow> (nss_error, unit) result \<times> 'w agent" where
  "enable_resumption env token a =
     try_st (count_u32 (cl_nss env) token) a (\<lambda>_. nss_call (SSL_SetResumptionToken env (ag_fd a) token) a)"

section \<open>Encrypted ClientHello\<close>

definition client_enable_ech ::
  "('r, 'k, 'w) client_env \<Rightarrow> bytes \<Rightarrow> 'w agent \<Rightarrow> (nss_error, unit) result \<times> 'w agent" where
  "client_enable_ech env config a =
     (let a = a\<lparr>ag_ech_config := config\<rparr> in
      if config = [] then nss_call (SSL_EnableTls13GreaseEch env (ag_fd a) True) a
      else
        try_st (count_u32 (cl_nss env) config) a (\<lambda>_.
        and_then (nss_call (SSL_SetClientEchConfigs env (ag_fd a) config) a) (\<lambda>_ a.
          nss_call (SSL_CallExtensionWriterOnEchInner env (ag_fd a) True) a)))"

section \<open>What is shown of a token in a log\<close>

fun decimal :: "nat \<Rightarrow> string" where
  "decimal n = (if n < 10 then [char_of (48 + n)] else decimal (n div 10) @ [char_of (48 + n mod 10)])"

declare decimal.simps [simp del]

definition hex_digit :: "nat \<Rightarrow> char" where
  "hex_digit n = char_of (if n < 10 then 48 + n else 87 + n)"

definition hex_byte :: "u8 \<Rightarrow> string" where
  "hex_byte b = [hex_digit (unat b div 16), hex_digit (unat b mod 16)]"

text \<open>\<open>hex_with_len\<close> is a function of the module \<^verbatim>\<open>p11\<close>.\<close>

definition hex_snip_middle :: "(bytes \<Rightarrow> string) \<Rightarrow> bytes \<Rightarrow> string" where
  "hex_snip_middle hex_with_len buf =
     (if length buf \<le> 8 * 2 then hex_with_len buf
      else ''['' @ decimal (length buf) @ '']: '' @ concat (map hex_byte (take 8 buf)) @ ''..'' @
           concat (map hex_byte (drop (length buf - 8) buf)))"

section \<open>Properties\<close>

definition token_good :: "('r, 'k, 'w) client_env \<Rightarrow> bytes option \<times> u32 \<Rightarrow> bool" where
  "token_good env tn \<longleftrightarrow> (\<exists>e t. SSL_GetResumptionTokenInfo env (fst tn) (snd tn) = Ok e \<and>
     SSL_DestroyResumptionTokenInfo env (fst tn) = Ok () \<and> time_try_from env e = Some t)"

definition token_of :: "('r, 'k, 'w) client_env \<Rightarrow> bytes option \<times> u32 \<Rightarrow> resumption_token" where
  "token_of env tn =
     (case SSL_GetResumptionTokenInfo env (fst tn) (snd tn) of
        Ok e \<Rightarrow> \<lparr>rt_token = null_safe_slice (fst tn) (ucast (snd tn)), rt_expiration_time = the (time_try_from env e)\<rparr>)"

lemma token_event_good:
  assumes "token_good env tn"
  shows "client_token_event env (fst tn) (snd tn) c =
     c\<lparr>cl_resumption := (if length (cl_resumption c) < 4 then cl_resumption c else tl (cl_resumption c)) @ [token_of env tn]\<rparr>"
  using assms by (auto simp: client_token_event_def resumption_token_cb_def token_good_def token_of_def MAX_TICKETS_def Let_def)

lemma take_newest:
  "fst (client_resumption_token c) = (if cl_resumption c = [] then None else Some (last (cl_resumption c)))"
  by (simp add: client_resumption_token_def split: list.splits)

lemma drop_snoc_window:
  "k \<noteq> 0 \<Longrightarrow> (if length (drop (length xs - k) xs) < k then drop (length xs - k) xs else tl (drop (length xs - k) xs)) @ [x] =
     drop (length (xs @ [x]) - k) (xs @ [x])"
  by (auto simp: drop_Suc [symmetric] Suc_diff_le simp flip: drop_tl tl_drop)


definition sample_client_env_of :: "(nat \<Rightarrow> 'r) \<Rightarrow> (nat \<Rightarrow> 'k) \<Rightarrow> ('r, 'k, nat) client_env" where
  "sample_client_env_of rec key =
     \<lparr>cl_nss = sample_nss_of rec key, SSL_SetURL = (\<lambda>_ _. sample_ok), SSL_SetResumptionTokenCallback = (\<lambda>_. sample_ok),
      SSL_GetResumptionTokenInfo = (\<lambda>_ n. Ok (if n = 1 then - 1 else 9)),
      SSL_DestroyResumptionTokenInfo = (\<lambda>_. Ok ()), SSL_SetResumptionToken = (\<lambda>_ _. sample_ok),
      SSL_EnableTls13GreaseEch = (\<lambda>_ _. sample_ok),
      SSL_SetClientEchConfigs = (\<lambda>_ config w. (if config = [0] then Err (NssError 5) else Ok (), w)),
      SSL_CallExtensionWriterOnEchInner = (\<lambda>_ _. sample_ok),
      time_try_from = (\<lambda>t. if t < 0 then None else Some (nat t))\<rparr>"

abbreviation sample_client_env :: "(nat, nat, nat) client_env" where
  "sample_client_env \<equiv> sample_client_env_of id id"

definition sample_client :: "nat client" where
  "sample_client = \<lparr>cl_agent = sample_agent, cl_server_name = [97], cl_resumption = []\<rparr>"


text \<open>
  A token whose expiry time cannot be represented is not stored, but when four tokens are held the
  oldest of them is lost all the same.
\<close>

lemma unusable_token_evicts:
  assumes "SSL_GetResumptionTokenInfo env token n = Ok e" and "SSL_DestroyResumptionTokenInfo env token = Ok ()"
    and "time_try_from env e = None" and "cl_resumption c = t # ts" and "length ts = 3"
  shows "client_token_event env token n c = c\<lparr>cl_resumption := ts\<rparr>"
  using assms by (simp add: client_token_event_def resumption_token_cb_def MAX_TICKETS_def)

lemma unusable_token_evicts_witness:
  "cl_resumption (client_token_event sample_client_env (Some [8]) 1
      (sample_client\<lparr>cl_resumption := map (\<lambda>i. \<lparr>rt_token = [i], rt_expiration_time = 9\<rparr>) [1, 2, 3, 4]\<rparr>)) =
     map (\<lambda>i. \<lparr>rt_token = [i], rt_expiration_time = 9\<rparr>) [2, 3, 4]"
  using unusable_token_evicts [of sample_client_env "Some [8]" 1 "- 1"
      "sample_client\<lparr>cl_resumption := map (\<lambda>i. \<lparr>rt_token = [i], rt_expiration_time = 9\<rparr>) [1, 2, 3, 4]\<rparr>"
      "\<lparr>rt_token = [1], rt_expiration_time = 9\<rparr>" "map (\<lambda>i. \<lparr>rt_token = [i], rt_expiration_time = 9\<rparr>) [2, 3, 4]"]
  by (simp add: sample_client_env_of_def)

text \<open>
  When NSS refuses an ECH configuration, the client reports the error but holds the refused
  configuration as the one in use.
\<close>

lemma refused_ech_config_recorded:
  assumes "config \<noteq> []" and "length config < 2 ^ 32"
    and "SSL_SetClientEchConfigs env (ag_fd a) config (ag_world a) = (Err e, w)"
  shows "client_enable_ech env config a = (Err e, a\<lparr>ag_ech_config := config, ag_world := w\<rparr>)"
  using assms by (simp add: client_enable_ech_def count_u32_cases nss_call_def)

lemma refused_ech_config_recorded_witness:
  "\<exists>b. client_enable_ech sample_client_env [0] sample_agent = (Err (NssError 5), b) \<and> ag_ech_config b = [0]"
  using refused_ech_config_recorded [of "[0]" sample_client_env sample_agent "NssError 5" 0]
  by (simp add: sample_client_env_of_def sample_agent_def)

text \<open>A logged token shows its length and the bytes at its ends only.\<close>

lemma hex_snip_hides:
  assumes "16 < length a" and "length b = length a" and "take 8 b = take 8 a"
    and "drop (length a - 8) b = drop (length a - 8) a"
  shows "hex_snip_middle h b = hex_snip_middle h a"
  using assms by (simp add: hex_snip_middle_def)

end
