(* ===== verification/Tls_Server.thy ===== *)
theory Tls_Server
  imports Tls_Client
begin

text \<open>
  \<^verbatim>\<open>Server\<close> of \<^verbatim>\<open>nss-rs/src/agent.rs\<close>: certificates, the check of 0-RTT through NSS's callback for a
  HelloRetryRequest, session tickets and ECH; and \<^verbatim>\<open>Agent\<close>, either a client or a server.
  A \<^verbatim>\<open>ZeroRttChecker\<close> is its \<^verbatim>\<open>check\<close> function. Certificates and keys are pointers of NSS.
\<close>

section \<open>Checking 0-RTT\<close>

datatype zero_rtt_check_result = Accept | Reject | HelloRetryRequest bytes | Fail

type_synonym zero_rtt_checker = "bytes \<Rightarrow> zero_rtt_check_result"

definition AllowZeroRtt :: zero_rtt_checker where
  "AllowZeroRtt token = Accept"

datatype hello_retry_action = hello_retry_fail | hello_retry_accept | hello_retry_request | hello_retry_reject_0rtt

text \<open>
  \<open>retry_token\<close> is the memory of \<^verbatim>\<open>retry_token_max\<close> bytes at the pointer of that name and \<open>retry_token_len\<close>
  what \<^verbatim>\<open>retry_token_len\<close> points to; \<open>arg\<close> is the check state, \<open>None\<close> for a null pointer.
\<close>

definition hello_retry_cb ::
  "u32 \<Rightarrow> bytes option \<Rightarrow> u32 \<Rightarrow> bytes \<Rightarrow> u32 \<Rightarrow> u32 \<Rightarrow> zero_rtt_checker option \<Rightarrow>
   (nss_error, hello_retry_action) result \<times> bytes \<times> u32" where
  "hello_retry_cb first_hello client_token client_token_len retry_token retry_token_len retry_token_max arg =
     (if first_hello = 0 then (Ok hello_retry_accept, retry_token, retry_token_len)
      else
        (case arg of
           None \<Rightarrow> (Panic, retry_token, retry_token_len)
         | Some checker \<Rightarrow>
             (case checker (null_safe_slice client_token (ucast client_token_len)) of
                Accept \<Rightarrow> (Ok hello_retry_accept, retry_token, retry_token_len)
              | Fail \<Rightarrow> (Ok hello_retry_fail, retry_token, retry_token_len)
              | Reject \<Rightarrow> (Ok hello_retry_reject_0rtt, retry_token, retry_token_len)
              | HelloRetryRequest tok \<Rightarrow>
                  if length tok \<le> unat retry_token_max
                  then (Ok hello_retry_request, tok @ drop (length tok) retry_token, of_nat (length tok))
                  else (Panic, retry_token, retry_token_len))))"

section \<open>The server\<close>

record ('r, 'k, 'w) server_env =
  sv_nss :: "('r, 'k, 'w) nss_env"
  PK11_FindCertFromNickname :: "bytes \<Rightarrow> 'w \<Rightarrow> ptr"
  PK11_FindKeyByAnyCert :: "ptr \<Rightarrow> 'w \<Rightarrow> ptr"
  SSL_ConfigServerCert :: "ptr \<Rightarrow> ptr \<Rightarrow> ptr \<Rightarrow> (bytes list \<times> bytes) option \<Rightarrow> 'w nss_call"
  sec_item_wrap :: "bytes \<Rightarrow> (nss_error, unit) result"
  SSL_HelloRetryRequestCallback :: "ptr \<Rightarrow> zero_rtt_checker \<Rightarrow> 'w nss_call"
  SSL_SetMaxEarlyDataSize :: "ptr \<Rightarrow> u32 \<Rightarrow> 'w nss_call"
  anti_replay_config_socket :: "ptr \<Rightarrow> 'w nss_call"
  SSL_SendSessionTicket :: "ptr \<Rightarrow> bytes \<Rightarrow> 'w nss_run"
  ech_encode_config :: "u8 \<Rightarrow> bytes \<Rightarrow> ptr \<Rightarrow> (nss_error, bytes) result"
  SSL_SetServerEchConfigs :: "ptr \<Rightarrow> ptr \<Rightarrow> ptr \<Rightarrow> bytes \<Rightarrow> 'w nss_call"

record 'w server =
  sv_agent :: "'w agent"
  sv_zero_rtt_check :: "zero_rtt_checker option"

definition load_cert_and_key ::
  "('r, 'k, 'w) server_env \<Rightarrow> bytes \<Rightarrow> 'w \<Rightarrow> (nss_error, ptr \<times> ptr) result" where
  "load_cert_and_key env name w =
     bind_res (cstring_new (nul_error (sv_nss env)) name) (\<lambda>c.
       (let cert = PK11_FindCertFromNickname env c w in
        if cert = None then Err CertificateLoading
        else
          (let key = PK11_FindKeyByAnyCert env cert w in
           if key = None then Err CertificateLoading else Ok (cert, key))))"

fun config_certs ::
  "('r, 'k, 'w) server_env \<Rightarrow> (bytes list \<times> bytes) option \<Rightarrow> bytes list \<Rightarrow> 'w agent \<Rightarrow>
   (nss_error, unit) result \<times> 'w agent" where
  "config_certs env extra [] a = (Ok (), a)"
| "config_certs env extra (n # ns) a =
     try_st (load_cert_and_key env n (ag_world a)) a (\<lambda>(cert, key).
     and_then (nss_call (SSL_ConfigServerCert env (ag_fd a) cert key extra) a) (\<lambda>_ a.
       config_certs env extra ns a))"

definition server_new ::
  "('r, 'k, 'w) server_env \<Rightarrow> bytes list \<Rightarrow> 'w \<Rightarrow> (nss_error, 'w server) result \<times> 'w" where
  "server_new env certificates w =
     and_then (agent_new (sv_nss env) w) (\<lambda>agent w.
       built (sv_nss env) (\<lambda>a. \<lparr>sv_agent = a, sv_zero_rtt_check = None\<rparr>)
         (and_then (config_certs env None certificates agent) (\<lambda>_ agent.
            agent_ready (sv_nss env) True True agent)))"

fun wrap_all :: "(bytes \<Rightarrow> (nss_error, unit) result) \<Rightarrow> bytes list \<Rightarrow> (nss_error, unit) result" where
  "wrap_all wrap [] = Ok ()"
| "wrap_all wrap (b # bs) = bind_res (wrap b) (\<lambda>_. wrap_all wrap bs)"

fun config_certs_with ::
  "('r, 'k, 'w) server_env \<Rightarrow> bytes list \<Rightarrow> bytes \<Rightarrow> bytes list \<Rightarrow> 'w agent \<Rightarrow>
   (nss_error, unit) result \<times> 'w agent" where
  "config_certs_with env ocsp scts [] a = (Ok (), a)"
| "config_certs_with env ocsp scts (n # ns) a =
     try_st (load_cert_and_key env n (ag_world a)) a (\<lambda>(cert, key).
     try_st (wrap_all (sec_item_wrap env) ocsp) a (\<lambda>_.
     try_st (count_u32 (sv_nss env) ocsp) a (\<lambda>_.
     try_st (sec_item_wrap env scts) a (\<lambda>_.
     and_then (nss_call (SSL_ConfigServerCert env (ag_fd a) cert key (Some (ocsp, scts))) a) (\<lambda>_ a.
       config_certs_with env ocsp scts ns a)))))"

definition new_with_ocsp_and_scts ::
  "('r, 'k, 'w) server_env \<Rightarrow> bytes list \<Rightarrow> bytes list \<Rightarrow> bytes \<Rightarrow> 'w \<Rightarrow> (nss_error, 'w server) result \<times> 'w" where
  "new_with_ocsp_and_scts env certificates ocsp_responses scts w =
     and_then (agent_new (sv_nss env) w) (\<lambda>agent w.
       built (sv_nss env) (\<lambda>a. \<lparr>sv_agent = a, sv_zero_rtt_check = None\<rparr>)
         (and_then (config_certs_with env ocsp_responses scts certificates agent) (\<lambda>_ agent.
            agent_ready (sv_nss env) True True agent)))"

text \<open>A method of the server's agent.\<close>

definition on_agent ::
  "('w agent \<Rightarrow> ('e, 'x) result \<times> 'w agent) \<Rightarrow> 'w server \<Rightarrow> ('e, 'x) result \<times> 'w server" where
  "on_agent f s = (let (r, a) = f (sv_agent s) in (r, s\<lparr>sv_agent := a\<rparr>))"

definition server_enable_0rtt ::
  "('r, 'k, 'w) server_env \<Rightarrow> u32 \<Rightarrow> zero_rtt_checker \<Rightarrow> 'w server \<Rightarrow> (nss_error, unit) result \<times> 'w server" where
  "server_enable_0rtt env max_early_data checker s =
     (let fd = ag_fd (sv_agent s) in
      and_then (on_agent (nss_call (SSL_HelloRetryRequestCallback env fd checker)) s) (\<lambda>_ s.
      and_then (on_agent (nss_call (SSL_SetMaxEarlyDataSize env fd max_early_data)) s) (\<lambda>_ s.
        (let s = s\<lparr>sv_zero_rtt_check := Some checker\<rparr> in
         and_then (on_agent (enable_0rtt (sv_nss env)) s) (\<lambda>_ s.
           on_agent (nss_call (anti_replay_config_socket env fd)) s)))))"

definition send_ticket ::
  "('r, 'k, 'w) server_env \<Rightarrow> instant \<Rightarrow> bytes \<Rightarrow> 'w agent \<Rightarrow> (nss_error, 'r list) result \<times> 'w agent" where
  "send_ticket env now extra a =
     and_then (nss_call (time_set (sv_nss env) now) a) (\<lambda>_ a.
     and_then (setup_raw (sv_nss env) a) (\<lambda>_ a.
     try_st (count_u32 (sv_nss env) extra) a (\<lambda>_.
     and_then (nss_run (SSL_SendSessionTicket env (ag_fd a) extra) a) (\<lambda>_ a.
       (Ok (record_list (sv_nss env) (ag_world a)), a)))))"

definition server_enable_ech ::
  "('r, 'k, 'w) server_env \<Rightarrow> u8 \<Rightarrow> bytes \<Rightarrow> ptr \<Rightarrow> ptr \<Rightarrow> 'w agent \<Rightarrow> (nss_error, unit) result \<times> 'w agent" where
  "server_enable_ech env config public_name sk pk a =
     try_st (ech_encode_config env config public_name pk) a (\<lambda>cfg.
     try_st (count_u32 (sv_nss env) cfg) a (\<lambda>_.
     and_then (nss_call (SSL_SetServerEchConfigs env (ag_fd a) pk sk cfg) a) (\<lambda>_ a.
       (Ok (), a\<lparr>ag_ech_config := cfg\<rparr>))))"

section \<open>Either of the two\<close>

datatype 'w any_agent = ClientAgent "'w client" | ServerAgent "'w server"

fun agent_deref :: "'w any_agent \<Rightarrow> 'w agent" where
  "agent_deref (ClientAgent c) = cl_agent c"
| "agent_deref (ServerAgent s) = sv_agent s"

fun agent_deref_put :: "'w agent \<Rightarrow> 'w any_agent \<Rightarrow> 'w any_agent" where
  "agent_deref_put a (ClientAgent c) = ClientAgent (c\<lparr>cl_agent := a\<rparr>)"
| "agent_deref_put a (ServerAgent s) = ServerAgent (s\<lparr>sv_agent := a\<rparr>)"

interpretation any_agent: store "\<lambda>(_ :: unit) g. Some (agent_deref g)" "\<lambda>_. agent_deref_put"
proof (standard, goal_cases)
  case (1 p s u v)
  then show ?case by (cases s) auto
qed simp

section \<open>Properties\<close>

text \<open>
  C40. The callback for a ClientHello follows the application's decision on the first one and accepts
  the second without asking. A retry token is copied into NSS's buffer whole and within its bounds, with
  its length; nothing is written otherwise, and the callback panics exactly when the token is too long.
\<close>

theorem hello_retry_follows_checker:
  assumes "length retry = unat max_len"
  shows "hello_retry_cb first token n retry retry_len max_len (Some checker) =
     (if first = 0 then (Ok hello_retry_accept, retry, retry_len)
      else (case checker (null_safe_slice token (ucast n)) of
          Accept \<Rightarrow> (Ok hello_retry_accept, retry, retry_len)
        | Reject \<Rightarrow> (Ok hello_retry_reject_0rtt, retry, retry_len)
        | Fail \<Rightarrow> (Ok hello_retry_fail, retry, retry_len)
        | HelloRetryRequest tok \<Rightarrow>
            if unat max_len < length tok then (Panic, retry, retry_len)
            else (Ok hello_retry_request, tok @ drop (length tok) retry, of_nat (length tok)))) \<and>
     (case hello_retry_cb first token n retry retry_len max_len (Some checker) of (r, mem, k) \<Rightarrow>
        length mem = unat max_len \<and> (r = Ok hello_retry_request \<longrightarrow>
          HelloRetryRequest (take (unat k) mem) = checker (null_safe_slice token (ucast n))))"
proof -
  have "length tok \<le> unat max_len \<Longrightarrow> unat (of_nat (length tok) :: u32) = length tok" for tok :: bytes
    using unsigned_less [where ?'a = nat and w = max_len] by (simp add: unat_of_nat)
  then show ?thesis
    using assms by (auto simp: hello_retry_cb_def split: zero_rtt_check_result.splits)
qed

theorem hello_retry_follows_checker_witness:
  "hello_retry_cb 1 (Some [7]) 1 [0, 0, 0] 0 3 (Some (\<lambda>t. HelloRetryRequest (t @ [8]))) =
     (Ok hello_retry_request, [7, 8, 0], 2)"
  using hello_retry_follows_checker [of "[0, 0, 0]" 3 1 "Some [7]" 1 0 "\<lambda>t. HelloRetryRequest (t @ [8])"]
  by (simp add: null_safe_slice_def)

text \<open>
  If the callback was registered but the limit of early data is refused, \<^verbatim>\<open>enable_0rtt\<close> returns the
  error with the checker still registered in NSS, while the server does not keep it: the memory the
  registration points to is freed. \<open>registered w c\<close> means that NSS will pass \<open>c\<close> to the callback.
\<close>

lemma refused_limit_leaves_callback:
  assumes "\<And>fd c w w'. SSL_HelloRetryRequestCallback env fd c w = (Ok (), w') \<Longrightarrow> registered w' c"
    and "\<And>fd n w r w' c. SSL_SetMaxEarlyDataSize env fd n w = (r, w') \<Longrightarrow> registered w c \<Longrightarrow> registered w' c"
    and "SSL_HelloRetryRequestCallback env (ag_fd (sv_agent s)) checker (ag_world (sv_agent s)) = (Ok (), w1)"
    and "SSL_SetMaxEarlyDataSize env (ag_fd (sv_agent s)) n w1 = (Err e, w2)"
  shows "\<exists>s'. server_enable_0rtt env n checker s = (Err e, s') \<and> sv_zero_rtt_check s' = sv_zero_rtt_check s \<and>
     registered (ag_world (sv_agent s')) checker"
  using assms(2) [OF assms(4) assms(1) [OF assms(3)]] assms(3,4)
  by (simp add: server_enable_0rtt_def on_agent_def nss_call_def Let_def)

definition sample_server_env_of :: "(nat \<Rightarrow> 'r) \<Rightarrow> (nat \<Rightarrow> 'k) \<Rightarrow> ('r, 'k, nat) server_env" where
  "sample_server_env_of rec key =
     \<lparr>sv_nss = sample_nss_of rec key, PK11_FindCertFromNickname = (\<lambda>_ _. Some 1), PK11_FindKeyByAnyCert = (\<lambda>_ _. Some 2),
      SSL_ConfigServerCert = (\<lambda>_ _ _ _. sample_ok), sec_item_wrap = (\<lambda>_. Ok ()),
      SSL_HelloRetryRequestCallback = (\<lambda>_ c _. (Ok (), if c [] = Accept then 1 else 2)),
      SSL_SetMaxEarlyDataSize = (\<lambda>_ n w. (if n = 0 then Err (NssError 6) else Ok (), w)),
      anti_replay_config_socket = (\<lambda>_. sample_ok), SSL_SendSessionTicket = (\<lambda>_ _ w. (Ok (), [], w)),
      ech_encode_config = (\<lambda>c n _. Ok (c # n)), SSL_SetServerEchConfigs = (\<lambda>_ _ _ _. sample_ok)\<rparr>"

abbreviation sample_server_env :: "(nat, nat, nat) server_env" where
  "sample_server_env \<equiv> sample_server_env_of id id"

lemma refused_limit_leaves_callback_witness:
  "\<exists>s'. server_enable_0rtt sample_server_env 0 AllowZeroRtt \<lparr>sv_agent = sample_agent, sv_zero_rtt_check = None\<rparr> =
     (Err (NssError 6), s') \<and> sv_zero_rtt_check s' = None \<and> ag_world (sv_agent s') = 1"
  using refused_limit_leaves_callback [of sample_server_env "\<lambda>w c. w = (if c [] = Accept then 1 else 2)"
      "\<lparr>sv_agent = sample_agent, sv_zero_rtt_check = None\<rparr>" AllowZeroRtt 1 0 "NssError 6" 1]
  by (auto simp: sample_server_env_of_def AllowZeroRtt_def)

text \<open>A ticket is sent only by an agent that is driven with records.\<close>

lemma send_ticket_raw:
  "send_ticket env now extra a = (Ok recs, b) \<Longrightarrow> ag_raw b = Some True \<and> recs = record_list (sv_nss env) (ag_world b)"
  by (auto simp: send_ticket_def rust_simps dest!: setup_raw_Ok nss_run_frame(2))

end
