(* ===== verification/Crypto.thy ===== *)
theory Crypto
  imports Keys_Invariant Write_Frame Tls_Server
begin

text \<open>
  \<^verbatim>\<open>Crypto\<close> of \<^verbatim>\<open>neqo-transport/src/crypto.rs\<close>, which ties the TLS agent, the handshake streams and the
  packet protection keys of a connection together. \<open>crypto_env_all\<close> collects the environments of the
  three; \<open>Record\<close> is the record of TLS content that \<^verbatim>\<open>handshake_raw\<close> takes and returns, and the
  conversions between epochs and packet number spaces, the encoder and the transport parameters are
  code of other modules.
\<close>

section \<open>The state\<close>

record tls_record =
  rec_epoch :: epoch
  rec_ct :: u8
  rec_data :: bytes

record ('k, 'a, 'h, 't, 'r, 'b, 'w) crypto_env_all =
  ce_keys :: "('k, 'a, 'h) crypto_env"
  ce_streams :: "('t, 'r, 'b) stream_env"
  ce_client :: "(tls_record, 'k, 'w) client_env"
  ce_server :: "(tls_record, 'k, 'w) server_env"
  epoch_of_space :: "packet_number_space \<Rightarrow> epoch"
  space_of_epoch :: "epoch \<Rightarrow> packet_number_space"
  ce_zlib :: "bytes \<Rightarrow> bytes option"
  ce_brotli :: "bytes \<Rightarrow> bytes option"
  ce_zstd :: "bytes \<Rightarrow> bytes option"
  wire_version :: "version \<Rightarrow> u32"
  encode_uint4 :: "u32 \<Rightarrow> bytes"
  encode_varint :: "u64 \<Rightarrow> bytes"
  encode_vvec :: "bytes \<Rightarrow> bytes"

abbreviation ce_nss :: "('k, 'a, 'h, 't, 'r, 'b, 'w) crypto_env_all \<Rightarrow> (tls_record, 'k, 'w) nss_env" where
  "ce_nss env \<equiv> cl_nss (ce_client env)"

abbreviation ce_hdr :: "('k, 'a, 'h, 't, 'r, 'b, 'w) crypto_env_all \<Rightarrow> headers" where
  "ce_hdr env \<equiv> env_hdr (ce_nss env)"

record ('k, 'a, 'h, 't, 'r, 'w) crypto =
  cr_version :: version
  cr_protocols :: "bytes list"
  cr_tls :: "'w any_agent"
  cr_streams :: "('t, 'r) crypto_streams"
  cr_states :: "('k, 'a, 'h) crypto_states"

text \<open>A method of the TLS agent, of the streams and of the keys.\<close>

definition on_tls ::
  "('k, 'a, 'h, 't, 'r, 'b, 'w) crypto_env_all \<Rightarrow> ('w agent \<Rightarrow> (nss_error, 'x) result \<times> 'w agent) \<Rightarrow>
   ('k, 'a, 'h, 't, 'r, 'w) crypto \<Rightarrow> (transport_error, 'x) result \<times> ('k, 'a, 'h, 't, 'r, 'w) crypto" where
  "on_tls env f c =
     (let (r, a) = f (agent_deref (cr_tls c)) in
      (from_crypto (ce_keys env) r, c\<lparr>cr_tls := agent_deref_put a (cr_tls c)\<rparr>))"

definition on_states ::
  "(('k, 'a, 'h) crypto_states \<Rightarrow> ('e, 'x) result \<times> ('k, 'a, 'h) crypto_states) \<Rightarrow>
   ('k, 'a, 'h, 't, 'r, 'w) crypto \<Rightarrow> ('e, 'x) result \<times> ('k, 'a, 'h, 't, 'r, 'w) crypto" where
  "on_states f c = (let (r, st) = f (cr_states c) in (r, c\<lparr>cr_states := st\<rparr>))"

definition take_secret ::
  "('w agent \<Rightarrow> 'k option \<times> 'w agent) \<Rightarrow> ('k, 'a, 'h, 't, 'r, 'w) crypto \<Rightarrow>
   'k option \<times> ('k, 'a, 'h, 't, 'r, 'w) crypto" where
  "take_secret f c = (let (k, a) = f (agent_deref (cr_tls c)) in (k, c\<lparr>cr_tls := agent_deref_put a (cr_tls c)\<rparr>))"

section \<open>Creation\<close>

definition quic_groups :: "headers \<Rightarrow> bool \<Rightarrow> group list" where
  "quic_groups hdr mlkem_enabled =
     (if mlkem_enabled
      then [TLS_GRP_KEM_MLKEM768X25519 hdr, TLS_GRP_EC_X25519 hdr, TLS_GRP_EC_SECP256R1 hdr,
            TLS_GRP_EC_SECP384R1 hdr, TLS_GRP_EC_SECP521R1 hdr, TLS_GRP_FFDHE_2048 hdr, TLS_GRP_FFDHE_3072 hdr]
      else [TLS_GRP_EC_X25519 hdr, TLS_GRP_EC_SECP256R1 hdr, TLS_GRP_EC_SECP384R1 hdr, TLS_GRP_EC_SECP521R1 hdr])"

definition firefox_client ::
  "('k, 'a, 'h, 't, 'r, 'b, 'w) crypto_env_all \<Rightarrow> bool \<Rightarrow> 'w agent \<Rightarrow> (nss_error, unit) result \<times> 'w agent" where
  "firefox_client env mlkem_enabled a =
     and_then (set_option (ce_nss env) Grease False a) (\<lambda>_ a.
     and_then (set_option (ce_nss env) SignedCertificateTimestamps True a) (\<lambda>_ a.
     and_then (set_option (ce_nss env) EnableChExtensionPermutation False a) (\<lambda>_ a.
     and_then (set_option (ce_nss env) DelegatedCredentials True a) (\<lambda>_ a.
     and_then (set_signature_schemes (ce_nss env)
       [0x0403, 0x0503, 0x0603, 0x0804, 0x0805, 0x0806, 0x0401, 0x0501, 0x0601, 0x0203, 0x0201] a) (\<lambda>_ a.
     and_then (client_enable_ech (ce_client env) [] a) (\<lambda>_ a.
     and_then (agent_set_certificate_compression (ce_nss env) (Zlib (ce_zlib env)) a) (\<lambda>_ a.
     and_then (agent_set_certificate_compression (ce_nss env) (Brotli (ce_brotli env)) a) (\<lambda>_ a.
     and_then (agent_set_certificate_compression (ce_nss env) (Zstd (ce_zstd env)) a) (\<lambda>_ a.
     and_then (send_additional_key_shares (ce_nss env) (of_bool mlkem_enabled) a) (\<lambda>_ a.
       enable_0rtt (ce_nss env) a))))))))))"

definition tp_extension :: "version \<Rightarrow> u16" where
  "tp_extension version = (case version of Draft29 \<Rightarrow> 0xffa5 | _ \<Rightarrow> 0x39)"

definition configure_quic ::
  "('k, 'a, 'h, 't, 'r, 'b, 'w) crypto_env_all \<Rightarrow> version \<Rightarrow> bool \<Rightarrow> bool \<Rightarrow> bytes list \<Rightarrow> 'w agent \<Rightarrow>
   (nss_error, unit) result \<times> 'w agent" where
  "configure_quic env version mlkem_enabled is_client protocols a =
     (let hdr = ce_hdr env in
      and_then (set_version_range (ce_nss env) (TLS_VERSION_1_3 hdr) (TLS_VERSION_1_3 hdr) a) (\<lambda>_ a.
      and_then (set_ciphers (ce_nss env)
        [TLS_AES_128_GCM_SHA256 hdr, TLS_AES_256_GCM_SHA384 hdr, TLS_CHACHA20_POLY1305_SHA256 hdr] a) (\<lambda>_ a.
      and_then (set_groups (ce_nss env) (quic_groups hdr mlkem_enabled) a) (\<lambda>_ a.
      and_then (if is_client then firefox_client env mlkem_enabled a else (Ok (), a)) (\<lambda>_ a.
      and_then (set_alpn (ce_nss env) protocols a) (\<lambda>_ a.
      and_then (disable_end_of_early_data (ce_nss env) a) (\<lambda>_ a.
        extension_handler (ce_nss env) (tp_extension version) a)))))))"

fun is_client_agent :: "'w any_agent \<Rightarrow> bool" where
  "is_client_agent (ClientAgent c) = True"
| "is_client_agent (ServerAgent s) = False"

definition crypto_new ::
  "('k, 'a, 'h, 't, 'r, 'b, 'w) crypto_env_all \<Rightarrow> version \<Rightarrow> bool \<Rightarrow> 'w any_agent \<Rightarrow> bytes list \<Rightarrow>
   (transport_error, ('k, 'a, 'h, 't, 'r, 'w) crypto) result \<times> 'w" where
  "crypto_new env version mlkem_enabled agent protocols =
     (let (r, w) = built (ce_nss env)
        (\<lambda>a. \<lparr>cr_version = version, cr_protocols = protocols, cr_tls = agent_deref_put a agent,
              cr_streams = streams_default (ce_streams env), cr_states = crypto_states_default\<rparr>)
        (configure_quic env version mlkem_enabled (is_client_agent agent) protocols (agent_deref agent)) in
      (from_crypto (ce_keys env) r, w))"

fun crypto_server_name :: "('k, 'a, 'h, 't, 'r, 'w) crypto \<Rightarrow> bytes option" where
  "crypto_server_name c = (case cr_tls c of ClientAgent cl \<Rightarrow> Some (cl_server_name cl) | ServerAgent _ \<Rightarrow> None)"

definition crypto_server_enable_0rtt ::
  "('k, 'a, 'h, 't, 'r, 'b, 'w) crypto_env_all \<Rightarrow> zero_rtt_checker \<Rightarrow> ('k, 'a, 'h, 't, 'r, 'w) crypto \<Rightarrow>
   (transport_error, unit) result \<times> ('k, 'a, 'h, 't, 'r, 'w) crypto" where
  "crypto_server_enable_0rtt env checker c =
     (case cr_tls c of
        ServerAgent s \<Rightarrow>
          (let (r, s) = server_enable_0rtt (ce_server env) 0xffffffff checker s in
           (from_crypto (ce_keys env) r, c\<lparr>cr_tls := ServerAgent s\<rparr>))
      | ClientAgent _ \<Rightarrow> (Panic, c))"

definition crypto_server_enable_ech ::
  "('k, 'a, 'h, 't, 'r, 'b, 'w) crypto_env_all \<Rightarrow> u8 \<Rightarrow> bytes \<Rightarrow> ptr \<Rightarrow> ptr \<Rightarrow> ('k, 'a, 'h, 't, 'r, 'w) crypto \<Rightarrow>
   (transport_error, unit) result \<times> ('k, 'a, 'h, 't, 'r, 'w) crypto" where
  "crypto_server_enable_ech env config public_name sk pk c =
     (if is_client_agent (cr_tls c) then (Panic, c)
      else on_tls env (server_enable_ech (ce_server env) config public_name sk pk) c)"

definition crypto_client_enable_ech ::
  "('k, 'a, 'h, 't, 'r, 'b, 'w) crypto_env_all \<Rightarrow> bytes \<Rightarrow> ('k, 'a, 'h, 't, 'r, 'w) crypto \<Rightarrow>
   (transport_error, unit) result \<times> ('k, 'a, 'h, 't, 'r, 'w) crypto" where
  "crypto_client_enable_ech env config c =
     (if is_client_agent (cr_tls c) then on_tls env (client_enable_ech (ce_client env) config) c else (Panic, c))"

section \<open>The handshake\<close>

fun buffer_records ::
  "('k, 'a, 'h, 't, 'r, 'b, 'w) crypto_env_all \<Rightarrow> tls_record list \<Rightarrow> ('k, 'a, 'h, 't, 'r, 'w) crypto \<Rightarrow>
   (transport_error, unit) result \<times> ('k, 'a, 'h, 't, 'r, 'w) crypto" where
  "buffer_records env [] c = (Ok (), c)"
| "buffer_records env (r # rs) c =
     (if rec_ct r \<noteq> TLS_CT_HANDSHAKE (ce_hdr env) then (Err ProtocolViolation, c)
      else
        bind_st (streams_send (ce_streams env) (space_of_epoch env (rec_epoch r)) (rec_data r) (cr_streams c))
          (\<lambda>_ s. buffer_records env rs (c\<lparr>cr_streams := s\<rparr>)) (\<lambda>s. c\<lparr>cr_streams := s\<rparr>))"

definition crypto_handshake ::
  "('k, 'a, 'h, 't, 'r, 'b, 'w) crypto_env_all \<Rightarrow> instant \<Rightarrow> packet_number_space \<Rightarrow> bytes option \<Rightarrow>
   ('k, 'a, 'h, 't, 'r, 'w) crypto \<Rightarrow> (transport_error, handshake_state) result \<times> ('k, 'a, 'h, 't, 'r, 'w) crypto" where
  "crypto_handshake env now space data c =
     (let input = map_option (\<lambda>d. \<lparr>rec_epoch = epoch_of_space env space, rec_ct = TLS_CT_HANDSHAKE (ce_hdr env),
            rec_data = d\<rparr>) data;
          (r, a) = handshake_raw (ce_nss env) now input (agent_deref (cr_tls c));
          c = c\<lparr>cr_tls := agent_deref_put a (cr_tls c)\<rparr> in
      case r of
        Ok output \<Rightarrow>
          and_then (buffer_records env output c) (\<lambda>_ c. (Ok (ag_state (agent_deref (cr_tls c))), c))
      | Err (NssEchRetry v) \<Rightarrow> (Err (EchRetry v), c)
      | Err e \<Rightarrow>
          (Err (case ag_alert (agent_deref (cr_tls c)) of None \<Rightarrow> CryptoError e | Some al \<Rightarrow> CryptoAlert al), c)
      | Panic \<Rightarrow> (Panic, c))"

section \<open>Keys\<close>

definition crypto_enable_0rtt ::
  "('k, 'a, 'h, 't, 'r, 'b, 'w) crypto_env_all \<Rightarrow> version \<Rightarrow> role \<Rightarrow> ('k, 'a, 'h, 't, 'r, 'w) crypto \<Rightarrow>
   (transport_error, bool) result \<times> ('k, 'a, 'h, 't, 'r, 'w) crypto" where
  "crypto_enable_0rtt env version role c =
     try_st (from_crypto (ce_keys env) (preinfo (ce_nss env) (agent_deref (cr_tls c)))) c (\<lambda>info.
       (case pre_early_data_cipher (ce_hdr env) info of
          None \<Rightarrow> (Ok False, c)
        | Some cipher \<Rightarrow>
            (let dir = (case role of Client \<Rightarrow> Write | Server \<Rightarrow> Read);
                 (secret, c) = take_secret
                   (case role of Client \<Rightarrow> write_secret (ce_nss env) ZeroRtt | Server \<Rightarrow> read_secret (ce_nss env) ZeroRtt) c in
             try_st (ok_or secret Internal) c (\<lambda>secret.
             and_then (on_states (set_0rtt_keys (ce_keys env) version dir secret cipher) c) (\<lambda>_ c.
               (Ok True, c))))))"

definition crypto_confirm_version ::
  "('k, 'a, 'h, 't, 'r, 'b, 'w) crypto_env_all \<Rightarrow> version \<Rightarrow> ('k, 'a, 'h, 't, 'r, 'w) crypto \<Rightarrow>
   (transport_error, unit) result \<times> ('k, 'a, 'h, 't, 'r, 'w) crypto" where
  "crypto_confirm_version env confirmed c =
     and_then (on_states (states_confirm_version (ce_keys env) (cr_version c) confirmed) c) (\<lambda>_ c.
       (Ok (), c\<lparr>cr_version := confirmed\<rparr>))"

definition install_handshake_keys ::
  "('k, 'a, 'h, 't, 'r, 'b, 'w) crypto_env_all \<Rightarrow> ('k, 'a, 'h, 't, 'r, 'w) crypto \<Rightarrow>
   (transport_error, bool) result \<times> ('k, 'a, 'h, 't, 'r, 'w) crypto" where
  "install_handshake_keys env c =
     (let (ws, c) = take_secret (write_secret (ce_nss env) Handshake) c in
      case ws of
        None \<Rightarrow> (Ok False, c)
      | Some wsecret \<Rightarrow>
          (let (rs, c) = take_secret (read_secret (ce_nss env) Handshake) c in
           try_st (ok_or rs Internal) c (\<lambda>rsecret.
           try_st
             (bind_res
               (case info (agent_deref (cr_tls c)) of
                  None \<Rightarrow> bind_res (from_crypto (ce_keys env) (preinfo (ce_nss env) (agent_deref (cr_tls c))))
                           (\<lambda>p. Ok (pre_cipher_suite (ce_hdr env) p))
                | Some i \<Rightarrow> Ok (Some (info_cipher i))) (\<lambda>cipher. ok_or cipher Internal)) c (\<lambda>cipher.
           and_then (on_states (set_handshake_keys (ce_keys env) (cr_version c) wsecret rsecret cipher) c) (\<lambda>_ c.
             (Ok True, c))))))"

definition has_handshake_keys :: "('k, 'a, 'h, 't, 'r, 'w) crypto \<Rightarrow> bool" where
  "has_handshake_keys c \<longleftrightarrow> handshake_keys (cr_states c) \<noteq> None \<or> app_write (cr_states c) \<noteq> None"

definition maybe_install_application_write_key ::
  "('k, 'a, 'h, 't, 'r, 'b, 'w) crypto_env_all \<Rightarrow> version \<Rightarrow> ('k, 'a, 'h, 't, 'r, 'w) crypto \<Rightarrow>
   (transport_error, unit) result \<times> ('k, 'a, 'h, 't, 'r, 'w) crypto" where
  "maybe_install_application_write_key env version c =
     (let (secret, c) = take_secret (write_secret (ce_nss env) ApplicationData) c in
      case secret of
        None \<Rightarrow> (Ok (), c)
      | Some secret \<Rightarrow> on_states (set_application_write_key (ce_keys env) version secret) c)"

definition install_keys ::
  "('k, 'a, 'h, 't, 'r, 'b, 'w) crypto_env_all \<Rightarrow> role \<Rightarrow> ('k, 'a, 'h, 't, 'r, 'w) crypto \<Rightarrow>
   (transport_error, bool) result \<times> ('k, 'a, 'h, 't, 'r, 'w) crypto" where
  "install_keys env role c =
     (if is_final (ag_state (agent_deref (cr_tls c))) then (Ok False, c)
      else
        and_then (install_handshake_keys env c) (\<lambda>installed_hs c.
        and_then
          (if role = Server then maybe_install_application_write_key env (cr_version c) c else (Ok (), c)) (\<lambda>_ c.
          (Ok installed_hs, c))))"

definition install_application_keys ::
  "('k, 'a, 'h, 't, 'r, 'b, 'w) crypto_env_all \<Rightarrow> version \<Rightarrow> instant \<Rightarrow> ('k, 'a, 'h, 't, 'r, 'w) crypto \<Rightarrow>
   (transport_error, unit) result \<times> ('k, 'a, 'h, 't, 'r, 'w) crypto" where
  "install_application_keys env version expire_0rtt c =
     and_then (maybe_install_application_write_key env version c) (\<lambda>_ c.
     try_st (debug_assert (dbg (ce_keys env)) (app_write (cr_states c) \<noteq> None)) c (\<lambda>_.
       (let (rs, c) = take_secret (read_secret (ce_nss env) ApplicationData) c in
        try_st (ok_or rs Internal) c (\<lambda>rsecret.
          on_states (set_application_read_key (ce_keys env) version rsecret expire_0rtt) c))))"

section \<open>Streams and tokens\<close>

text \<open>
  In \<open>create_resumption_token\<close>, \<open>tps\<close> is the encoding of the transport parameters; an encoder appends.
\<close>

definition crypto_write_frame ::
  "('k, 'a, 'h, 't, 'r, 'b, 'w) crypto_env_all \<Rightarrow> packet_number_space \<Rightarrow> bool \<Rightarrow>
   ('k, 'a, 'h, 't, 'r, 'w) crypto \<times> 'b \<times> crypto_recovery_token list \<times> usize \<Rightarrow>
   ((transport_error, unit) result \<times> ('k, 'a, 'h, 't, 'r, 'w) crypto \<times> 'b \<times> crypto_recovery_token list \<times> usize) option" where
  "crypto_write_frame env space sni_slicing = (\<lambda>(c, builder, tokens, stats).
     map_option (\<lambda>(r, s, rest). (r, c\<lparr>cr_streams := s\<rparr>, rest))
       (streams_write_frame (ce_streams env) space sni_slicing (cr_streams c, builder, tokens, stats)))"

definition crypto_acked ::
  "('k, 'a, 'h, 't, 'r, 'b, 'w) crypto_env_all \<Rightarrow> crypto_recovery_token \<Rightarrow> ('k, 'a, 'h, 't, 'r, 'w) crypto \<Rightarrow>
   ('k, 'a, 'h, 't, 'r, 'w) crypto" where
  "crypto_acked env token c = c\<lparr>cr_streams := streams_acked (ce_streams env) token (cr_streams c)\<rparr>"

definition crypto_lost ::
  "('k, 'a, 'h, 't, 'r, 'b, 'w) crypto_env_all \<Rightarrow> crypto_recovery_token \<Rightarrow> ('k, 'a, 'h, 't, 'r, 'w) crypto \<Rightarrow>
   ('k, 'a, 'h, 't, 'r, 'w) crypto" where
  "crypto_lost env token c = c\<lparr>cr_streams := streams_lost (ce_streams env) token (cr_streams c)\<rparr>"

definition crypto_resend_unacked ::
  "('k, 'a, 'h, 't, 'r, 'b, 'w) crypto_env_all \<Rightarrow> packet_number_space \<Rightarrow> ('k, 'a, 'h, 't, 'r, 'w) crypto \<Rightarrow>
   ('k, 'a, 'h, 't, 'r, 'w) crypto" where
  "crypto_resend_unacked env space c =
     c\<lparr>cr_streams := streams_resend_unacked (ce_streams env) space (cr_streams c)\<rparr>"

definition crypto_discard ::
  "('k, 'a, 'h, 't, 'r, 'b, 'w) crypto_env_all \<Rightarrow> packet_number_space \<Rightarrow> ('k, 'a, 'h, 't, 'r, 'w) crypto \<Rightarrow>
   (transport_error, bool) result \<times> ('k, 'a, 'h, 't, 'r, 'w) crypto" where
  "crypto_discard env space c =
     (let (r, s) = streams_discard space (cr_streams c); c = c\<lparr>cr_streams := s\<rparr> in
      try_st r c (\<lambda>_. on_states (states_discard (ce_keys env) space) c))"

definition create_resumption_token ::
  "('k, 'a, 'h, 't, 'r, 'b, 'w) crypto_env_all \<Rightarrow> bytes option \<Rightarrow> bytes \<Rightarrow> version \<Rightarrow> u64 \<Rightarrow>
   ('k, 'a, 'h, 't, 'r, 'w) crypto \<Rightarrow>
   (transport_error, resumption_token option) result \<times> ('k, 'a, 'h, 't, 'r, 'w) crypto" where
  "create_resumption_token env new_token tps version rtt c =
     (case cr_tls c of
        ClientAgent cl \<Rightarrow>
          (let (t, cl) = client_resumption_token cl in
           (Ok (map_option (\<lambda>t.
              \<lparr>rt_token = encode_uint4 env (wire_version env version) @ encode_varint env rtt @ encode_vvec env tps @
                 encode_vvec env (case new_token of None \<Rightarrow> [] | Some n \<Rightarrow> n) @ rt_token t,
               rt_expiration_time = rt_expiration_time t\<rparr>) t),
            c\<lparr>cr_tls := ClientAgent cl\<rparr>))
      | ServerAgent _ \<Rightarrow> (Panic, c))"

definition crypto_has_resumption_token :: "('k, 'a, 'h, 't, 'r, 'w) crypto \<Rightarrow> (transport_error, bool) result" where
  "crypto_has_resumption_token c =
     (case cr_tls c of ClientAgent cl \<Rightarrow> Ok (client_has_resumption_token cl) | ServerAgent _ \<Rightarrow> Panic)"

end
