(* ===== verification/Connection.thy ===== *)
theory Connection
  imports Crypto
begin

text \<open>
  How the parts of \<^verbatim>\<open>Crypto\<close> work together: what TLS produces is queued for sending, and the keys only take
  steps of the key machine.
\<close>

section \<open>The output of the handshake is queued\<close>

definition queued :: "('k, 'a, 'h, 't, 'r, 'b, 'w) crypto_env_all \<Rightarrow> packet_number_space \<Rightarrow> tls_record list \<Rightarrow> bytes list" where
  "queued env sp recs = map rec_data (filter (\<lambda>r. space_of_epoch env (rec_epoch r) = sp) recs)"

lemma streams_send_present:
  assumes "streams_get sp s = Some cs"
  shows "streams_send env sp data s = (Ok (), streams_put sp (cs\<lparr>st_tx := tx_send env data (st_tx cs)\<rparr>) s)"
  using assms by (simp add: streams_send_def)

lemma buffer_records_queued:
  assumes "list_all (\<lambda>r. rec_ct r = TLS_CT_HANDSHAKE (ce_hdr env) \<and>
     space_of_epoch env (rec_epoch r) \<in> stream_spaces (cr_streams c)) recs"
  shows "\<exists>s. buffer_records env recs c = (Ok (), c\<lparr>cr_streams := s\<rparr>) \<and>
     (\<forall>sp. streams_get sp s = map_option (\<lambda>cs. cs\<lparr>st_tx := fold (tx_send (ce_streams env)) (queued env sp recs) (st_tx cs)\<rparr>)
        (streams_get sp (cr_streams c)))"
  using assms
proof (induction recs arbitrary: c)
  case Nil
  then show ?case by (intro exI [of _ "cr_streams c"]) (simp add: queued_def option.map_ident)
next
  case (Cons r rs)
  let ?sp = "space_of_epoch env (rec_epoch r)"
  obtain cs where cs: "streams_get ?sp (cr_streams c) = Some cs"
    using Cons.prems by (auto simp: stream_spaces_def)
  let ?s = "streams_put ?sp (cs\<lparr>st_tx := tx_send (ce_streams env) (rec_data r) (st_tx cs)\<rparr>) (cr_streams c)"
  let ?c = "c\<lparr>cr_streams := ?s\<rparr>"
  have "list_all (\<lambda>r. rec_ct r = TLS_CT_HANDSHAKE (ce_hdr env) \<and>
      space_of_epoch env (rec_epoch r) \<in> stream_spaces (cr_streams ?c)) rs"
    using Cons.prems by simp
  from Cons.IH [OF this] obtain s where s: "buffer_records env rs ?c = (Ok (), ?c\<lparr>cr_streams := s\<rparr>)"
    and g: "\<And>sp. streams_get sp s = map_option (\<lambda>cs. cs\<lparr>st_tx := fold (tx_send (ce_streams env)) (queued env sp rs) (st_tx cs)\<rparr>)
        (streams_get sp ?s)" by auto
  have "buffer_records env (r # rs) c = (Ok (), c\<lparr>cr_streams := s\<rparr>)"
    using Cons.prems s by (simp add: streams_send_present [OF cs])
  moreover have "streams_get sp s = map_option (\<lambda>cs. cs\<lparr>st_tx := fold (tx_send (ce_streams env)) (queued env sp (r # rs)) (st_tx cs)\<rparr>)
      (streams_get sp (cr_streams c))" for sp
    using cs by (auto simp: g streams.get_put_all [OF cs] queued_def)
  ultimately show ?case by blast
qed

lemma streams_send_Ok: "streams_send env sp data s = (Ok u, s') \<Longrightarrow> sp \<in> stream_spaces s \<and> stream_spaces s' = stream_spaces s"
  by (auto simp: streams_send_def rust_simps ok_or_def split: option.splits) (simp add: stream_spaces_def)

lemma buffer_records_Ok:
  assumes "buffer_records env recs c = (Ok u, c')"
  shows "list_all (\<lambda>r. rec_ct r = TLS_CT_HANDSHAKE (ce_hdr env) \<and>
     space_of_epoch env (rec_epoch r) \<in> stream_spaces (cr_streams c)) recs"
  using assms
proof (induction recs arbitrary: c)
  case (Cons r rs)
  then obtain s where ct: "rec_ct r = TLS_CT_HANDSHAKE (ce_hdr env)"
    and s: "streams_send (ce_streams env) (space_of_epoch env (rec_epoch r)) (rec_data r) (cr_streams c) = (Ok (), s)"
    and rs: "buffer_records env rs (c\<lparr>cr_streams := s\<rparr>) = (Ok u, c')"
    by (auto simp: rust_simps split: if_splits)
  from Cons.IH [OF rs] streams_send_Ok [OF s] ct show ?case by simp
qed simp

text \<open>What a handshake that makes progress does to the streams.\<close>

lemma crypto_handshake_queues:
  assumes "handshake_raw (ce_nss env) now (map_option (\<lambda>d. \<lparr>rec_epoch = epoch_of_space env space,
       rec_ct = TLS_CT_HANDSHAKE (ce_hdr env), rec_data = d\<rparr>) data) (agent_deref (cr_tls c)) = (Ok recs, a)"
    and "crypto_handshake env now space data c = (Ok st, c')"
  shows "streams_get sp (cr_streams c') =
     map_option (\<lambda>cs. cs\<lparr>st_tx := fold (tx_send (ce_streams env)) (queued env sp recs) (st_tx cs)\<rparr>) (streams_get sp (cr_streams c))"
proof -
  let ?c = "c\<lparr>cr_tls := agent_deref_put a (cr_tls c)\<rparr>"
  obtain u where b: "buffer_records env recs ?c = (Ok u, c')"
    using assms by (auto simp: crypto_handshake_def rust_simps Let_def)
  from buffer_records_queued [OF buffer_records_Ok [OF b]] b show ?thesis by auto
qed

text \<open>
  C19. When TLS makes progress, all the records it produced are appended to the send buffers of their
  packet number spaces, in the order in which TLS produced them and to no other space; the result is
  the state of TLS, and the keys are not touched.
\<close>

theorem handshake_output_queued:
  assumes "handshake_raw (ce_nss env) now (map_option (\<lambda>d. \<lparr>rec_epoch = epoch_of_space env space,
       rec_ct = TLS_CT_HANDSHAKE (ce_hdr env), rec_data = d\<rparr>) data) (agent_deref (cr_tls c)) = (Ok recs, a)"
    and "list_all (\<lambda>r. rec_ct r = TLS_CT_HANDSHAKE (ce_hdr env) \<and>
       space_of_epoch env (rec_epoch r) \<in> stream_spaces (cr_streams c)) recs"
  shows "\<exists>c'. crypto_handshake env now space data c = (Ok (ag_state a), c') \<and> agent_deref (cr_tls c') = a \<and>
     cr_states c' = cr_states c \<and>
     (\<forall>sp. streams_get sp (cr_streams c') = map_option (\<lambda>cs. cs\<lparr>st_tx := fold (tx_send (ce_streams env))
        (map rec_data (filter (\<lambda>r. space_of_epoch env (rec_epoch r) = sp) recs)) (st_tx cs)\<rparr>)
        (streams_get sp (cr_streams c)))"
proof -
  let ?c = "c\<lparr>cr_tls := agent_deref_put a (cr_tls c)\<rparr>"
  have tls: "agent_deref (agent_deref_put a (cr_tls c)) = a" by (cases "cr_tls c") simp_all
  have "list_all (\<lambda>r. rec_ct r = TLS_CT_HANDSHAKE (ce_hdr env) \<and>
      space_of_epoch env (rec_epoch r) \<in> stream_spaces (cr_streams ?c)) recs"
    using assms(2) by simp
  from buffer_records_queued [OF this] obtain s where "buffer_records env recs ?c = (Ok (), ?c\<lparr>cr_streams := s\<rparr>)"
    and "\<forall>sp. streams_get sp s = map_option (\<lambda>cs. cs\<lparr>st_tx := fold (tx_send (ce_streams env)) (queued env sp recs) (st_tx cs)\<rparr>)
        (streams_get sp (cr_streams c))" by auto
  then show ?thesis
    using assms(1) tls by (intro exI [of _ "?c\<lparr>cr_streams := s\<rparr>"]) (simp add: crypto_handshake_def queued_def)
qed

section \<open>The keys of a connection follow the rules for keys\<close>

inductive crypto_step ::
  "('k, 'a, 'h, 't, 'r, 'b, 'w) crypto_env_all \<Rightarrow> ('k, 'a, 'h, 't, 'r, 'w) crypto \<Rightarrow> ('k, 'a, 'h, 't, 'r, 'w) crypto \<Rightarrow> bool"
  for env where
  cs_handshake: "crypto_handshake env now space data c = (r, d) \<Longrightarrow> crypto_step env c d"
| cs_enable_0rtt:
    "crypto_enable_0rtt env version role c = (Ok b, d) \<Longrightarrow> app_read (cr_states c) = None \<Longrightarrow>
     app_write (cr_states c) = None \<Longrightarrow> crypto_step env c d"
| cs_confirm_version: "crypto_confirm_version env version c = (Ok u, d) \<Longrightarrow> crypto_step env c d"
| cs_install_keys: "install_keys env role c = (Ok b, d) \<Longrightarrow> crypto_step env c d"
| cs_install_application_keys: "install_application_keys env version expire c = (Ok u, d) \<Longrightarrow> crypto_step env c d"
| cs_write_frame:
    "crypto_write_frame env space sni (c, builder, tokens, stats) = Some (u, d, rest) \<Longrightarrow> crypto_step env c d"
| cs_acked: "crypto_step env c (crypto_acked env token c)"
| cs_lost: "crypto_step env c (crypto_lost env token c)"
| cs_resend: "crypto_step env c (crypto_resend_unacked env space c)"
| cs_discard: "crypto_discard env space c = (Ok b, d) \<Longrightarrow> crypto_step env c d"
| cs_token: "create_resumption_token env nt tps version rtt c = (q, d) \<Longrightarrow> crypto_step env c d"
| cs_tls: "crypto_step env c (c\<lparr>cr_tls := g\<rparr>)"
| cs_streams: "crypto_step env c (c\<lparr>cr_streams := s\<rparr>)"
| cs_states: "states_step (ce_keys env) (cr_states c) st \<Longrightarrow> crypto_step env c (c\<lparr>cr_states := st\<rparr>)"

lemma take_secret_states: "take_secret f c = (k, d) \<Longrightarrow> cr_states d = cr_states c \<and> cr_version d = cr_version c"
  by (auto simp: take_secret_def split: prod.splits)

lemma on_states_Ok: "on_states f c = (Ok x, d) \<longleftrightarrow> (\<exists>st. f (cr_states c) = (Ok x, st) \<and> d = c\<lparr>cr_states := st\<rparr>)"
  by (auto simp: on_states_def split: prod.splits)

lemma buffer_records_states: "buffer_records env rs c = (r, d) \<Longrightarrow> cr_states d = cr_states c"
proof (induction rs arbitrary: c)
  case (Cons q rs)
  then show ?case
    by (auto simp: bind_st_def split: if_splits prod.splits result.splits)
qed simp

lemma crypto_handshake_states: "crypto_handshake env now space data c = (r, d) \<Longrightarrow> cr_states d = cr_states c"
  by (auto simp: crypto_handshake_def Let_def bind_st_def dest!: buffer_records_states
      split: prod.splits result.splits nss_error.splits)

lemma install_handshake_keys_states:
  assumes "install_handshake_keys env c = (Ok b, d)"
  shows "cr_states d = cr_states c \<or> (\<exists>ws rs cipher. set_handshake_keys (ce_keys env) (cr_version c) ws rs cipher (cr_states c) = (Ok (), cr_states d))"
  using assms
  by (auto simp: install_handshake_keys_def rust_simps on_states_Ok split: prod.splits option.splits dest!: take_secret_states)

lemma maybe_install_states:
  assumes "maybe_install_application_write_key env v c = (Ok u, d)"
  shows "cr_states d = cr_states c \<or> (\<exists>secret. set_application_write_key (ce_keys env) v secret (cr_states c) = (Ok (), cr_states d))"
  using assms
  by (auto simp: maybe_install_application_write_key_def rust_simps on_states_Ok split: prod.splits option.splits
      dest!: take_secret_states)

lemma states_run_one: "states_step k st st' \<or> st' = st \<Longrightarrow> (states_step k)\<^sup>*\<^sup>* st st'"
  by auto

lemma install_handshake_run:
  assumes "install_handshake_keys env c = (Ok b, d)" and "debug_build (ce_keys env) = ce_keys env"
  shows "(states_step (ce_keys env))\<^sup>*\<^sup>* (cr_states c) (cr_states d)"
  using install_handshake_keys_states [OF assms(1)] states_step.Set_Handshake [of "ce_keys env"] assms(2)
  by (intro states_run_one) fastforce

lemma maybe_install_run:
  assumes "maybe_install_application_write_key env v c = (Ok u, d)" and "debug_build (ce_keys env) = ce_keys env"
  shows "(states_step (ce_keys env))\<^sup>*\<^sup>* (cr_states c) (cr_states d)"
  using maybe_install_states [OF assms(1)] states_step.Set_Write [of "ce_keys env"] assms(2)
  by (intro states_run_one) fastforce

lemma install_keys_run:
  assumes "install_keys env role c = (Ok b, d)" and "debug_build (ce_keys env) = ce_keys env"
  shows "(states_step (ce_keys env))\<^sup>*\<^sup>* (cr_states c) (cr_states d)"
proof (cases "is_final (ag_state (agent_deref (cr_tls c)))")
  case False
  then obtain i e where e: "install_handshake_keys env c = (Ok i, e)"
    and d: "(if role = Server then maybe_install_application_write_key env (cr_version e) e else (Ok (), e)) = (Ok (), d)"
    using assms(1) by (auto simp: install_keys_def rust_simps)
  then show ?thesis
    using install_handshake_run [OF e assms(2)] maybe_install_run [OF _ assms(2), of _ e]
    by (auto split: if_splits intro: rtranclp_trans)
qed (use assms(1) in \<open>simp add: install_keys_def\<close>)

lemma install_application_run:
  assumes "install_application_keys env v expire c = (Ok u, d)" and "debug_build (ce_keys env) = ce_keys env"
  shows "(states_step (ce_keys env))\<^sup>*\<^sup>* (cr_states c) (cr_states d)"
proof -
  obtain e where e: "maybe_install_application_write_key env v c = (Ok (), e)"
    using assms(1) by (auto simp: install_application_keys_def rust_simps)
  obtain q f where f: "take_secret (read_secret (ce_nss env) ApplicationData) e = (q, f)" by fastforce
  with e obtain k where d: "set_application_read_key (ce_keys env) v k expire (cr_states f) = (Ok (), cr_states d)"
    using assms(1) by (auto simp: install_application_keys_def rust_simps on_states_Ok)
  have "states_step (ce_keys env) (cr_states e) (cr_states d)"
    using d take_secret_states [OF f] states_step.Set_Read [of "ce_keys env"] assms(2) by simp
  with maybe_install_run [OF e assms(2)] show ?thesis by (rule rtranclp.rtrancl_into_rtrancl)
qed

lemma enable_0rtt_run:
  assumes "crypto_enable_0rtt env v role c = (Ok b, d)" and "debug_build (ce_keys env) = ce_keys env"
    and "app_read (cr_states c) = None" and "app_write (cr_states c) = None"
  shows "(states_step (ce_keys env))\<^sup>*\<^sup>* (cr_states c) (cr_states d)"
proof -
  obtain q e where e: "take_secret (case role of Client \<Rightarrow> write_secret (ce_nss env) ZeroRtt
      | Server \<Rightarrow> read_secret (ce_nss env) ZeroRtt) c = (q, e)" by fastforce
  then have "cr_states d = cr_states c \<or>
      (\<exists>dir k cipher. set_0rtt_keys (ce_keys env) v dir k cipher (cr_states c) = (Ok (), cr_states d))"
    using assms(1) take_secret_states [OF e]
    by (auto simp: crypto_enable_0rtt_def rust_simps on_states_Ok split: option.splits)
  then show ?thesis
    using states_step.Set_0rtt [of "ce_keys env"] assms(2-4) by (intro states_run_one) fastforce
qed

lemma crypto_step_keys:
  assumes "crypto_step env c d" and "debug_build (ce_keys env) = ce_keys env"
  shows "(states_step (ce_keys env))\<^sup>*\<^sup>* (cr_states c) (cr_states d)"
  using assms(1)
proof cases
  case (cs_handshake now space data r)
  then show ?thesis by (simp add: crypto_handshake_states)
next
  case (cs_enable_0rtt version role b)
  then show ?thesis using enable_0rtt_run assms(2) by blast
next
  case (cs_confirm_version version u)
  then show ?thesis
    using states_step.Confirm_Version [of "ce_keys env"] assms(2)
    by (intro states_run_one) (force simp: crypto_confirm_version_def rust_simps on_states_Ok)
next
  case (cs_install_keys role b)
  then show ?thesis using install_keys_run assms(2) by blast
next
  case (cs_install_application_keys version expire u)
  then show ?thesis using install_application_run assms(2) by blast
next
  case (cs_discard space b)
  obtain q s where "streams_discard space (cr_streams c) = (q, s)" by fastforce
  with cs_discard have "states_discard (ce_keys env) space (cr_states c) = (Ok b, cr_states d)"
    by (auto simp: crypto_discard_def rust_simps on_states_Ok Let_def)
  then show ?thesis
    using states_step.Discard [of "ce_keys env"] assms(2) by (intro states_run_one) simp
next
  case (cs_write_frame space sni builder tokens stats u rest)
  then show ?thesis by (auto simp: crypto_write_frame_def)
next
  case (cs_token nt tps version rtt q)
  then show ?thesis
    by (auto simp: create_resumption_token_def split: any_agent.splits prod.splits)
qed (auto simp: crypto_acked_def crypto_lost_def crypto_resend_unacked_def)

interpretation crypto_keys:
  refines "crypto_step (env\<lparr>ce_keys := debug_build k\<rparr>)" "\<lambda>_. True" "states_step (debug_build k)" cr_states for env k
proof (standard, goal_cases)
  case (2 c d)
  then show ?case using crypto_step_keys [of "env\<lparr>ce_keys := debug_build k\<rparr>" c d] by simp
qed simp


section \<open>A concrete connection\<close>

definition sample_record :: "nat \<Rightarrow> tls_record" where
  "sample_record w = \<lparr>rec_epoch = Initial, rec_ct = 1, rec_data = [of_nat w, 2]\<rparr>"

definition sample_crypto_env ::
  "(nat list, nat list, nat list, u64 \<times> bytes \<times> (u64 \<times> usize) list, unit, usize, nat) crypto_env_all" where
  "sample_crypto_env =
     \<lparr>ce_keys = sample_env True, ce_streams = sample_stream_env,
      ce_client = sample_client_env_of sample_record (\<lambda>w. [w]), ce_server = sample_server_env_of sample_record (\<lambda>w. [w]),
      epoch_of_space = (\<lambda>s. case s of InitialSpace \<Rightarrow> Initial | HandshakeSpace \<Rightarrow> Handshake | _ \<Rightarrow> ApplicationData),
      space_of_epoch = (\<lambda>e. case e of Initial \<Rightarrow> InitialSpace | Handshake \<Rightarrow> HandshakeSpace | _ \<Rightarrow> ApplicationDataSpace),
      ce_zlib = Some, ce_brotli = Some, ce_zstd = Some, wire_version = (\<lambda>_. 1), encode_uint4 = (\<lambda>_. [0, 0, 0, 1]),
      encode_varint = (\<lambda>n. [ucast n]), encode_vvec = (\<lambda>v. of_nat (length v) # v)\<rparr>"

definition sample_crypto ::
  "(nat list, nat list, nat list, u64 \<times> bytes \<times> (u64 \<times> usize) list, unit, nat) crypto" where
  "sample_crypto = \<lparr>cr_version = Version1, cr_protocols = [[104, 51]],
     cr_tls = ClientAgent (sample_client\<lparr>cl_agent := sample_agent\<lparr>ag_extensions := [0x39]\<rparr>\<rparr>),
     cr_streams = streams_default sample_stream_env, cr_states = crypto_states_default\<rparr>"

theorem handshake_output_queued_witness:
  "\<exists>c'. crypto_handshake sample_crypto_env 5 InitialSpace (Some [9])
       (sample_crypto\<lparr>cr_tls := ClientAgent sample_client\<rparr>) = (Ok AuthenticationPending, c') \<and>
     streams_get InitialSpace (cr_streams c') = Some \<lparr>st_tx = (0, [1, 2], []), st_rx = ()\<rparr>"
proof -
  let ?c = "sample_crypto\<lparr>cr_tls := ClientAgent sample_client\<rparr>"
  let ?in = "map_option (\<lambda>d. \<lparr>rec_epoch = epoch_of_space sample_crypto_env InitialSpace,
       rec_ct = TLS_CT_HANDSHAKE (ce_hdr sample_crypto_env), rec_data = d\<rparr>) (Some [9])"
  have "handshake_raw (ce_nss sample_crypto_env) 5 ?in (agent_deref (cr_tls ?c)) = (Ok [sample_record 1], sample_waiting)"
    by (simp add: sample_crypto_env_def sample_client_env_of_def sample_client_def sample_handshake_raw)
  from handshake_output_queued [OF this] show ?thesis
    by (auto simp: sample_record_def sample_crypto_env_def sample_client_env_of_def sample_nss_of_def TLS_CT_HANDSHAKE_def
        remap8_def stream_spaces_def sample_crypto_def streams_default_def crypto_stream_default_def sample_stream_env_def
        sample_waiting_def)
qed

lemma sample_crypto_new:
  "crypto_new sample_crypto_env Version1 False (ClientAgent sample_client) [[104, 51]] = (Ok sample_crypto, 0)"
  by (simp add: crypto_new_def configure_quic_def firefox_client_def built_def sample_crypto_env_def
      sample_client_env_of_def sample_client_def sample_crypto_def from_crypto_def tp_extension_def quic_groups_def
      set_version_range_def set_ciphers_def set_groups_def set_option_def set_signature_schemes_def client_enable_ech_def
      agent_set_certificate_compression_def send_additional_key_shares_def enable_0rtt_def opt_set_def set_alpn_def
      disable_end_of_early_data_def extension_handler_def nss_call_def sample_nss_of_def sample_agent_def
      set_certificate_compression_def Zlib_def Brotli_def Zstd_def count_u32_cases u32_try_from_def
      alpn_encode_def alpn_add_def)


end
