(* ===== verification/Stream_Delivery.thy ===== *)
theory Stream_Delivery
  imports Write_Frame
begin

text \<open>
  The handshake bytes of one packet number space on their way from one endpoint to the other: sent into
  a stream, cut into CRYPTO frames, delivered in any order and any number of times, reassembled and
  read. What is read is always a beginning of what was sent; once the frames delivered cover
  everything, all of it is read; and enough packets carry everything.
\<close>

section \<open>What the buffers promise\<close>

text \<open>
  The send buffer: \<open>holds c t\<close> says that \<open>c\<close> is everything ever put into \<open>t\<close>, although \<open>t\<close> may have dropped
  what was acknowledged. It offers pieces of \<open>c\<close> at their offsets.
\<close>

definition tx_content_law :: "('t, 'r, 'b) stream_env \<Rightarrow> (bytes \<Rightarrow> 't \<Rightarrow> bool) \<Rightarrow> bool" where
  "tx_content_law env holds \<longleftrightarrow>
     holds [] (tx_default env) \<and>
     (\<forall>c t d. holds c t \<longrightarrow> holds (c @ d) (tx_send env d t)) \<and>
     (\<forall>c t. holds c t \<longrightarrow> holds c (snd (tx_next_bytes env t))) \<and>
     (\<forall>c t offset d. holds c t \<longrightarrow> fst (tx_next_bytes env t) = Some (offset, d) \<longrightarrow> piece c (unat offset) d) \<and>
     (\<forall>c t offset n. holds c t \<longrightarrow> unat offset + unat n \<le> length c \<longrightarrow>
        holds c (tx_mark_as_sent env offset n t) \<and> holds c (tx_mark_as_acked env offset n t) \<and>
        holds c (tx_mark_as_lost env offset n t)) \<and>
     (\<forall>c t. holds c t \<longrightarrow> holds c (tx_unmark_sent env t) \<and> holds c (snd (tx_is_empty env t)))"

text \<open>
  The reassembly buffer: \<open>pos\<close> bytes have been read, \<open>known\<close> has those that arrived. A frame adds the
  bytes that are not known yet; where it overlaps, either value may be kept. Reading takes everything
  up to the first gap.
\<close>

definition covers :: "frame \<Rightarrow> nat \<Rightarrow> bool" where
  "covers f i \<longleftrightarrow> unat (fst f) \<le> i \<and> i < unat (fst f) + length (snd f)"

definition rx_law :: "('t, 'r, 'b) stream_env \<Rightarrow> ('r \<Rightarrow> nat) \<Rightarrow> ('r \<Rightarrow> nat \<Rightarrow> u8 option) \<Rightarrow> bool" where
  "rx_law env pos known \<longleftrightarrow>
     pos (rx_default env) = 0 \<and> (\<forall>i. known (rx_default env) i = None) \<and>
     (\<forall>offset d r. pos (rx_inbound_frame env offset d r) = pos r \<and>
        (\<forall>i \<ge> pos r. known (rx_inbound_frame env offset d r) i \<noteq> None \<longleftrightarrow> known r i \<noteq> None \<or> covers (offset, d) i) \<and>
        (\<forall>i x. known (rx_inbound_frame env offset d r) i = Some x \<longrightarrow>
           known r i = Some x \<or> covers (offset, d) i \<and> x = d ! (i - unat offset))) \<and>
     (\<forall>buf r n buf' r'. rx_read_to_end env buf r = (n, buf', r') \<longrightarrow>
        (\<exists>d. buf' = buf @ d \<and> pos r' = pos r + length d \<and>
           (\<forall>j < length d. known r (pos r + j) = Some (d ! j)) \<and> known r (pos r + length d) = None \<and>
           (\<forall>i \<ge> pos r'. known r' i = known r i) \<and> (\<forall>i x. known r' i = Some x \<longrightarrow> known r i = Some x)))"

text \<open>The frames that a packet has been given so far.\<close>

definition frames_law :: "('t, 'r, 'b) stream_env \<Rightarrow> ('b \<Rightarrow> frame list) \<Rightarrow> bool" where
  "frames_law env frames \<longleftrightarrow>
     (\<forall>offset d b. frames (encode_crypto_frame env offset d b) = frames b @ [(offset, d)])"

lemma encode_frames_frames:
  assumes "frames_law env frames"
  shows "frames (encode_frames env fl b) = frames b @ fl"
  unfolding encode_frames_def using assms
  by (induction fl arbitrary: b) (auto simp: frames_law_def)

section \<open>Frames carry the data of the stream\<close>

lemma piece_within:
  assumes "piece c (unat offset) d" and "within offset d f" and "length c < 2 ^ 64"
  shows "piece c (unat (fst f)) (snd f)"
proof -
  from assms(2) obtain k where k: "fst f = offset + of_nat k" and p: "piece d k (snd f)"
    by (auto simp: within_def)
  have "unat offset + k \<le> length c" using assms(1) p unfolding piece_def by linarith
  then have "unat (fst f) = unat offset + k"
    using assms(3) k by (simp add: unat_word_ariths unat_of_nat)
  with piece_trans [OF assms(1) p] show ?thesis by simp
qed

lemma sends_carries:
  assumes "tx_content_law env holds" and "sends env t fl t'" and "holds c t" and "length c < 2 ^ 64"
  shows "holds c t' \<and> (\<forall>f \<in> set fl. piece c (unat (fst f)) (snd f))"
proof -
  have marks: "holds c (mark_frames env fl u)" if "holds c u" "\<forall>f \<in> set fl. piece c (unat (fst f)) (snd f)" for fl u
    using that
  proof (induction fl arbitrary: u)
    case (Cons f fl)
    then have "unat (fst f) + unat (len (snd f)) \<le> length c"
      using assms(4) by (simp add: piece_def unat_len)
    with Cons.prems(1) assms(1) have "holds c (tx_mark_as_sent env (fst f) (len (snd f)) u)"
      unfolding tx_content_law_def by blast
    with Cons show ?case by simp
  qed simp
  from assms(2,3) show ?thesis
  proof (induction rule: sends.induct)
    case (Nothing t)
    then show ?case using assms(1) by (simp add: tx_content_law_def)
  next
    case (Pass t offset d u fl)
    have "holds c u" "piece c (unat offset) d"
      using assms(1) Pass(1,3) unfolding tx_content_law_def by (metis fst_conv snd_conv)+
    then show ?case using Pass(2) piece_within [OF _ _ assms(4)] marks by blast
  qed auto
qed

lemma write_frame_carries:
  assumes "loop_laws env" and "tx_content_law env holds" and "frames_law env frames"
    and "streams_get space s = Some cs" and "holds c (st_tx cs)" and "length c < 2 ^ 64"
    and "unat stats + unat (builder_remaining env b) < 2 ^ 64"
  shows "\<exists>s' b' stats' fl t'. streams_write_frame env space sni (s, b, tokens, stats) =
       Some (Ok (), s', b', tokens @ map (frame_token space) fl, stats') \<and>
     frames b' = frames b @ fl \<and> (\<forall>f \<in> set fl. piece c (unat (fst f)) (snd f)) \<and>
     streams_get space s' = Some (cs\<lparr>st_tx := t'\<rparr>) \<and> holds c t'"
proof -
  obtain fl b' t' stats' where w: "streams_write_frame env space sni (s, b, tokens, stats) =
       Some (Ok (), streams_put space (cs\<lparr>st_tx := t'\<rparr>) s, b', tokens @ map (frame_token space) fl, stats')"
    and s: "sends env (st_tx cs) fl t'" and b: "wrote env b fl b'"
    using assms(1,4,7) by (rule write_frame_frames)
  have "frames b' = frames b @ fl" using b encode_frames_frames [OF assms(3)] by (simp add: wrote_def)
  with w sends_carries [OF assms(2) s assms(5,6)] streams.get_put [OF assms(4)] show ?thesis by blast
qed

text \<open>
  C8. Every CRYPTO frame that \<^verbatim>\<open>write_frame\<close> puts into a packet, also those of a ClientHello cut at its
  server name, has exactly the bytes of the stream that belong at its offset. The recovery tokens name
  these frames in order, and the packet has them and nothing else.
\<close>

theorem frames_carry_stream:
  assumes "loop_laws env" and "tx_content_law env holds" and "frames_law env frames"
    and "streams_get space s = Some cs" and "holds c (st_tx cs)" and "length c < 2 ^ 64"
    and "unat stats + unat (builder_remaining env b) < 2 ^ 64"
  shows "\<exists>s' b' stats' fl t'. streams_write_frame env space sni (s, b, tokens, stats) =
       Some (Ok (), s', b', tokens @ map (frame_token space) fl, stats') \<and>
     frames b' = frames b @ fl \<and> (\<forall>f \<in> set fl. piece c (unat (fst f)) (snd f)) \<and>
     streams_get space s' = Some (cs\<lparr>st_tx := t'\<rparr>) \<and> holds c t'"
  using assms by (rule write_frame_carries)

section \<open>From one endpoint to the other\<close>

text \<open>
  The streams of the two endpoints, everything the application of the first sent into the space, the
  frames it wrote and their tokens, the frames that reached the second endpoint and what that read.
\<close>

record ('t, 'r) delivery =
  dl_sender :: "('t, 'r) crypto_streams"
  dl_sent :: bytes
  dl_wire :: "frame list"
  dl_tokens :: "crypto_recovery_token list"
  dl_receiver :: "('t, 'r) crypto_streams"
  dl_arrived :: "frame list"
  dl_got :: bytes

definition delivery_start :: "('t, 'r, 'b) stream_env \<Rightarrow> ('t, 'r) delivery" where
  "delivery_start env =
     \<lparr>dl_sender = streams_default env, dl_sent = [], dl_wire = [], dl_tokens = [],
      dl_receiver = streams_default env, dl_arrived = [], dl_got = []\<rparr>"

text \<open>
  The steps: a frame on the wire may arrive at any time, repeatedly or never; an acknowledgement or a
  loss is reported for a token that was recorded; operations on other spaces leave this one alone.
\<close>

inductive delivery_step ::
  "('t, 'r, 'b) stream_env \<Rightarrow> ('b \<Rightarrow> frame list) \<Rightarrow> packet_number_space \<Rightarrow>
   ('t, 'r) delivery \<Rightarrow> ('t, 'r) delivery \<Rightarrow> bool"
  for env frames sp where
  Send:
    "streams_send env sp d (dl_sender s) = (Ok u, a) \<Longrightarrow> length (dl_sent s @ d) < 2 ^ 64 \<Longrightarrow>
     delivery_step env frames sp s (s\<lparr>dl_sender := a, dl_sent := dl_sent s @ d\<rparr>)"
| Write:
    "streams_write_frame env sp sni (dl_sender s, b, dl_tokens s, stats) = Some (Ok u, a, b', toks, stats') \<Longrightarrow>
     frames b = [] \<Longrightarrow> unat stats + unat (builder_remaining env b) < 2 ^ 64 \<Longrightarrow>
     delivery_step env frames sp s (s\<lparr>dl_sender := a, dl_wire := dl_wire s @ frames b', dl_tokens := toks\<rparr>)"
| Acked:
    "tok \<in> set (dl_tokens s) \<Longrightarrow>
     delivery_step env frames sp s (s\<lparr>dl_sender := streams_acked env tok (dl_sender s)\<rparr>)"
| Lost:
    "tok \<in> set (dl_tokens s) \<Longrightarrow>
     delivery_step env frames sp s (s\<lparr>dl_sender := streams_lost env tok (dl_sender s)\<rparr>)"
| Resend: "delivery_step env frames sp s (s\<lparr>dl_sender := streams_resend_unacked env sp (dl_sender s)\<rparr>)"
| Ask:
    "streams_is_empty env sp (dl_sender s) = (e, a) \<Longrightarrow> delivery_step env frames sp s (s\<lparr>dl_sender := a\<rparr>)"
| Arrive:
    "f \<in> set (dl_wire s) \<Longrightarrow> inbound_frame env sp (fst f) (snd f) (dl_receiver s) = (Ok u, b) \<Longrightarrow>
     delivery_step env frames sp s (s\<lparr>dl_receiver := b, dl_arrived := dl_arrived s @ [f]\<rparr>)"
| Read:
    "read_to_end env sp (dl_receiver s, dl_got s) = (Ok n, b, got) \<Longrightarrow>
     delivery_step env frames sp s (s\<lparr>dl_receiver := b, dl_got := got\<rparr>)"
| Other:
    "streams_get sp a = streams_get sp (dl_sender s) \<Longrightarrow> streams_get sp b = streams_get sp (dl_receiver s) \<Longrightarrow>
     delivery_step env frames sp s (s\<lparr>dl_sender := a, dl_receiver := b\<rparr>)"

text \<open>
  The sender's side: its buffer holds what was sent, and the frames on the wire and the tokens recorded
  are ranges of it. The receiver's side: it read the beginning of what was sent, knows what else
  arrived, and knows nothing that was not sent.
\<close>

definition sender_ok ::
  "(bytes \<Rightarrow> 't \<Rightarrow> bool) \<Rightarrow> packet_number_space \<Rightarrow> ('t, 'r) crypto_streams \<Rightarrow> bytes \<Rightarrow> frame list \<Rightarrow>
   crypto_recovery_token list \<Rightarrow> bool" where
  "sender_ok holds sp a c wire toks \<longleftrightarrow>
     (\<exists>cs. streams_get sp a = Some cs \<and> holds c (st_tx cs)) \<and> length c < 2 ^ 64 \<and>
     (\<forall>f \<in> set wire. piece c (unat (fst f)) (snd f)) \<and>
     (\<forall>t \<in> set toks. tok_space t = sp \<and> unat (tok_offset t) + unat (tok_length t) \<le> length c)"

definition receiver_ok ::
  "('r \<Rightarrow> nat) \<Rightarrow> ('r \<Rightarrow> nat \<Rightarrow> u8 option) \<Rightarrow> packet_number_space \<Rightarrow> ('t, 'r) crypto_streams \<Rightarrow> bytes \<Rightarrow>
   frame list \<Rightarrow> bytes \<Rightarrow> bool" where
  "receiver_ok pos known sp b c arrived got \<longleftrightarrow>
     (\<exists>cs. streams_get sp b = Some cs \<and> pos (st_rx cs) = length got \<and> piece c 0 got \<and>
        (\<forall>i x. known (st_rx cs) i = Some x \<longrightarrow> i < length c \<and> x = c ! i) \<and>
        (\<forall>i \<ge> length got. (\<exists>f \<in> set arrived. covers f i) \<longrightarrow> known (st_rx cs) i \<noteq> None))"

definition delivery_ok ::
  "(bytes \<Rightarrow> 't \<Rightarrow> bool) \<Rightarrow> ('r \<Rightarrow> nat) \<Rightarrow> ('r \<Rightarrow> nat \<Rightarrow> u8 option) \<Rightarrow> packet_number_space \<Rightarrow>
   ('t, 'r) delivery \<Rightarrow> bool" where
  "delivery_ok holds pos known sp s \<longleftrightarrow>
     sender_ok holds sp (dl_sender s) (dl_sent s) (dl_wire s) (dl_tokens s) \<and>
     receiver_ok pos known sp (dl_receiver s) (dl_sent s) (dl_arrived s) (dl_got s)"

text \<open>An operation of the sender that replaces its send buffer.\<close>

lemma sender_put:
  assumes "sender_ok holds sp a c wire toks" and "streams_get sp a = Some cs" and "holds c t"
  shows "sender_ok holds sp (streams_put sp (cs\<lparr>st_tx := t\<rparr>) a) c wire toks"
  using assms by (auto simp: sender_ok_def streams.get_put)

lemma sender_send:
  assumes "tx_content_law env holds" and "sender_ok holds sp a c wire toks"
    and "streams_send env sp d a = (Ok u, a')" and "length (c @ d) < 2 ^ 64"
  shows "sender_ok holds sp a' (c @ d) wire toks"
proof -
  obtain cs where cs: "streams_get sp a = Some cs" and "holds c (st_tx cs)"
    using assms(2) by (auto simp: sender_ok_def)
  then have "a' = streams_put sp (cs\<lparr>st_tx := tx_send env d (st_tx cs)\<rparr>) a" "holds (c @ d) (tx_send env d (st_tx cs))"
    using assms(1,3) by (auto simp: streams_send_def tx_content_law_def)
  with cs assms(2,4) show ?thesis
    by (auto simp: sender_ok_def streams.get_put intro: piece_append)
qed

lemma sender_marks:
  assumes "tx_content_law env holds" and "sender_ok holds sp a c wire toks"
  shows "tok \<in> set toks \<Longrightarrow> sender_ok holds sp (streams_acked env tok a) c wire toks"
    and "tok \<in> set toks \<Longrightarrow> sender_ok holds sp (streams_lost env tok a) c wire toks"
    and "sender_ok holds sp (streams_resend_unacked env sp a) c wire toks"
    and "streams_is_empty env sp a = (e, a') \<Longrightarrow> sender_ok holds sp a' c wire toks"
proof -
  obtain cs where cs: "streams_get sp a = Some cs" and h: "holds c (st_tx cs)"
    using assms(2) by (auto simp: sender_ok_def)
  note put = sender_put [OF assms(2) cs]
  have tok: "tok_space tok = sp \<and> holds c (tx_mark_as_acked env (tok_offset tok) (tok_length tok) (st_tx cs)) \<and>
      holds c (tx_mark_as_lost env (tok_offset tok) (tok_length tok) (st_tx cs))" if "tok \<in> set toks"
    using assms h that unfolding tx_content_law_def sender_ok_def by blast
  show "sender_ok holds sp (streams_acked env tok a) c wire toks" if "tok \<in> set toks"
    using tok [OF that] cs put by (simp add: streams_acked_def)
  show "sender_ok holds sp (streams_lost env tok a) c wire toks" if "tok \<in> set toks"
    using tok [OF that] cs put by (simp add: streams_lost_def)
  show "sender_ok holds sp (streams_resend_unacked env sp a) c wire toks"
    using assms h cs by (auto simp: streams_resend_unacked_def tx_content_law_def intro!: put)
  show "sender_ok holds sp a' c wire toks" if "streams_is_empty env sp a = (e, a')"
    using assms(1) h cs that
    by (auto simp: streams_is_empty_def tx_content_law_def case_prod_beta Let_def intro!: put)
qed

lemma sender_write:
  assumes "loop_laws env" and "tx_content_law env holds" and "frames_law env frames"
    and "sender_ok holds sp a c wire toks" and "unat stats + unat (builder_remaining env b) < 2 ^ 64"
    and "streams_write_frame env sp sni (a, b, toks, stats) = Some (Ok u, a', b', toks', stats')" and "frames b = []"
  shows "sender_ok holds sp a' c (wire @ frames b') toks'"
proof -
  obtain cs where cs: "streams_get sp a = Some cs" "holds c (st_tx cs)" and c: "length c < 2 ^ 64"
    using assms(4) by (auto simp: sender_ok_def)
  obtain fl t' where "toks' = toks @ map (frame_token sp) fl" "frames b' = fl"
    and p: "\<forall>f \<in> set fl. piece c (unat (fst f)) (snd f)"
    and t: "streams_get sp a' = Some (cs\<lparr>st_tx := t'\<rparr>)" "holds c t'"
    using write_frame_carries [OF assms(1-3) cs c assms(5), of sni toks] assms(6,7) by auto
  moreover have "unat (fst f) + unat (len (snd f)) \<le> length c" if "f \<in> set fl" for f
    using p that c by (auto simp: piece_def unat_len)
  ultimately show ?thesis
    using assms(4) by (auto simp: sender_ok_def frame_token_def)
qed

text \<open>The receiver.\<close>

lemma piece_full: "piece c 0 got \<Longrightarrow> (\<forall>j < length d. length got + j < length c \<and> c ! (length got + j) = d ! j) \<Longrightarrow>
   piece c 0 (got @ d)"
proof -
  assume p: "piece c 0 got" and d: "\<forall>j < length d. length got + j < length c \<and> c ! (length got + j) = d ! j"
  have l: "length got + length d \<le> length c"
    using p d by (cases d rule: rev_cases) (auto simp: piece_def dest: spec [of _ "length d - 1"])
  have "take (length d) (drop (length got) c) = d"
    using l d by (intro nth_equalityI) auto
  then show ?thesis using p l by (simp add: piece_def take_add)
qed

lemma receiver_frame:
  assumes "rx_law env pos known" and "receiver_ok pos known sp b c arrived got" and "piece c (unat offset) d"
    and "inbound_frame env sp offset d b = (Ok u, b')"
  shows "receiver_ok pos known sp b' c (arrived @ [(offset, d)]) got"
proof -
  obtain cs where cs: "streams_get sp b = Some cs" and g: "pos (st_rx cs) = length got" "piece c 0 got"
    and k: "\<forall>i x. known (st_rx cs) i = Some x \<longrightarrow> i < length c \<and> x = c ! i"
    and a: "\<forall>i \<ge> length got. (\<exists>f \<in> set arrived. covers f i) \<longrightarrow> known (st_rx cs) i \<noteq> None"
    using assms(2) by (auto simp: receiver_ok_def)
  let ?r = "rx_inbound_frame env offset d (st_rx cs)"
  have b': "b' = streams_put sp (cs\<lparr>st_rx := ?r\<rparr>) b"
    using assms(4) cs by (auto simp: inbound_frame_def rust_simps Let_def split: if_splits)
  have r: "pos ?r = pos (st_rx cs)"
    "\<forall>i \<ge> pos (st_rx cs). known ?r i \<noteq> None \<longleftrightarrow> known (st_rx cs) i \<noteq> None \<or> covers (offset, d) i"
    "\<forall>i x. known ?r i = Some x \<longrightarrow> known (st_rx cs) i = Some x \<or> covers (offset, d) i \<and> x = d ! (i - unat offset)"
    using assms(1) unfolding rx_law_def by blast+
  have "i < length c \<and> d ! (i - unat offset) = c ! i" if "covers (offset, d) i" for i
    using that assms(3) piece_nth [OF assms(3), of "i - unat offset"] by (auto simp: covers_def piece_def)
  then have "\<forall>i x. known ?r i = Some x \<longrightarrow> i < length c \<and> x = c ! i" using r(3) k by blast
  moreover have "\<forall>i \<ge> length got. (\<exists>f \<in> set (arrived @ [(offset, d)]). covers f i) \<longrightarrow> known ?r i \<noteq> None"
    using r(2) a g(1) by auto
  ultimately show ?thesis
    using streams.get_put [OF cs] b' g r(1) by (auto simp: receiver_ok_def)
qed

lemma receiver_read_more:
  assumes "rx_law env pos known" and "receiver_ok pos known sp b c arrived got"
    and "read_to_end env sp (b, buf) = (Ok n, b', buf')"
  obtains cs r' d where "buf' = buf @ d" and "receiver_ok pos known sp b' c arrived (got @ d)"
    and "\<forall>f \<in> set arrived. \<not> covers f (length (got @ d))"
    and "streams_get sp b = Some cs" and "b' = streams_put sp (cs\<lparr>st_rx := r'\<rparr>) b"
proof -
  obtain cs where cs: "streams_get sp b = Some cs" and g: "pos (st_rx cs) = length got" "piece c 0 got"
    and k: "\<forall>i x. known (st_rx cs) i = Some x \<longrightarrow> i < length c \<and> x = c ! i"
    and a: "\<forall>i \<ge> length got. (\<exists>f \<in> set arrived. covers f i) \<longrightarrow> known (st_rx cs) i \<noteq> None"
    using assms(2) by (auto simp: receiver_ok_def)
  obtain r' where rd: "rx_read_to_end env buf (st_rx cs) = (n, buf', r')"
    and b': "b' = streams_put sp (cs\<lparr>st_rx := r'\<rparr>) b"
    using assms(3) cs by (auto simp: read_to_end_def Let_def split: prod.splits)
  obtain d where d: "buf' = buf @ d" "pos r' = pos (st_rx cs) + length d"
    "\<forall>j < length d. known (st_rx cs) (pos (st_rx cs) + j) = Some (d ! j)"
    "known (st_rx cs) (pos (st_rx cs) + length d) = None"
    "\<forall>i \<ge> pos r'. known r' i = known (st_rx cs) i" "\<forall>i x. known r' i = Some x \<longrightarrow> known (st_rx cs) i = Some x"
    using assms(1) rd unfolding rx_law_def by blast
  have "piece c 0 (got @ d)"
    using d(3) k g by (intro piece_full) auto
  moreover have "\<forall>i \<ge> length (got @ d). (\<exists>f \<in> set arrived. covers f i) \<longrightarrow> known r' i \<noteq> None"
    using a d(2,5) g(1) by simp
  ultimately have "receiver_ok pos known sp b' c arrived (got @ d)"
    using streams.get_put [OF cs] b' g(1) d(2,6) k by (auto simp: receiver_ok_def)
  moreover have "\<forall>f \<in> set arrived. \<not> covers f (length (got @ d))"
  proof -
    have "known (st_rx cs) (length (got @ d)) = None" and "length got \<le> length (got @ d)"
      using d(4) g(1) by simp_all
    with a show ?thesis by blast
  qed
  ultimately show thesis using that d(1) cs b' by blast
qed

lemma receiver_read:
  assumes "rx_law env pos known" and "receiver_ok pos known sp b c arrived got"
    and "read_to_end env sp (b, got) = (Ok n, b', got')"
  shows "receiver_ok pos known sp b' c arrived got'"
    and "\<forall>f \<in> set arrived. \<not> covers f (length got')"
  using assms by (metis receiver_read_more)+

lemma receiver_more:
  "receiver_ok pos known sp b c arrived got \<Longrightarrow> receiver_ok pos known sp b (c @ d) arrived got"
  by (auto simp: receiver_ok_def nth_append intro: piece_append)


definition delivery_laws ::
  "('t, 'r, 'b) stream_env \<Rightarrow> (bytes \<Rightarrow> 't \<Rightarrow> bool) \<Rightarrow> ('r \<Rightarrow> nat) \<Rightarrow> ('r \<Rightarrow> nat \<Rightarrow> u8 option) \<Rightarrow>
   ('b \<Rightarrow> frame list) \<Rightarrow> bool" where
  "delivery_laws env holds pos known frames \<longleftrightarrow>
     loop_laws env \<and> tx_content_law env holds \<and> rx_law env pos known \<and> frames_law env frames"

interpretation delivery: machine "delivery_step env frames sp"
    "\<lambda>s. delivery_laws env holds pos known frames \<longrightarrow> delivery_ok holds pos known sp s"
  for env frames sp holds pos known
proof (standard, intro impI)
  fix s t :: "('a, 'b) delivery"
  assume st: "delivery_step env frames sp s t"
    and "delivery_laws env holds pos known frames \<longrightarrow> delivery_ok holds pos known sp s"
    and laws: "delivery_laws env holds pos known frames"
  then have a: "sender_ok holds sp (dl_sender s) (dl_sent s) (dl_wire s) (dl_tokens s)"
    and b: "receiver_ok pos known sp (dl_receiver s) (dl_sent s) (dl_arrived s) (dl_got s)"
    by (simp_all add: delivery_ok_def)
  have l: "loop_laws env" "tx_content_law env holds" "rx_law env pos known" "frames_law env frames"
    using laws by (simp_all add: delivery_laws_def)
  from st show "delivery_ok holds pos known sp t"
  proof (cases rule: delivery_step.cases)
    case (Send d u x)
    with sender_send [OF l(2) a Send(2)] receiver_more [OF b] show ?thesis by (simp add: delivery_ok_def)
  next
    case (Write sni y stats u x y' toks stats')
    with sender_write [OF l(1,2,4) a Write(4,2,3)] b show ?thesis by (simp add: delivery_ok_def)
  next
    case (Arrive f u x)
    then have "piece (dl_sent s) (unat (fst f)) (snd f)" using a by (auto simp: sender_ok_def)
    with receiver_frame [OF l(3) b _ Arrive(3)] a Arrive(1) show ?thesis by (simp add: delivery_ok_def)
  next
    case (Read n x got)
    with receiver_read(1) [OF l(3) b Read(2)] a show ?thesis by (simp add: delivery_ok_def)
  next
    case (Other x y)
    with a b show ?thesis by (simp add: delivery_ok_def sender_ok_def receiver_ok_def)
  qed (use sender_marks [OF l(2) a] b in \<open>auto simp: delivery_ok_def\<close>)
qed

lemma delivery_start_ok:
  assumes "delivery_laws env holds pos known frames"
  shows "delivery_ok holds pos known sp (delivery_start env)"
proof -
  have "streams_get sp (streams_default env) = Some (crypto_stream_default env)"
    by (cases sp) (simp_all add: streams_default_def)
  with assms show ?thesis
    by (auto simp: delivery_laws_def delivery_ok_def sender_ok_def receiver_ok_def delivery_start_def
        crypto_stream_default_def tx_content_law_def rx_law_def)
qed

lemma delivery_reachable:
  assumes "delivery_laws env holds pos known frames"
    and "(delivery_step env frames sp)\<^sup>*\<^sup>* (delivery_start env) s"
  shows "delivery_ok holds pos known sp s"
  using delivery.steps_inv [OF assms(2)] delivery_start_ok [OF assms(1)] assms(1) by blast

text \<open>
  C3. Whatever the order in which frames arrive, however often they are repeated or lost and sent again
  and however a ClientHello is cut, what the receiving endpoint has read of a space's handshake bytes is
  at every moment a beginning of what the sending endpoint put in.
\<close>

theorem handshake_bytes_in_order:
  assumes "delivery_laws env holds pos known frames"
    and "(delivery_step env frames sp)\<^sup>*\<^sup>* (delivery_start env) s"
  shows "\<exists>rest. dl_sent s = dl_got s @ rest"
proof -
  have "piece (dl_sent s) 0 (dl_got s)"
    using delivery_reachable [OF assms] by (auto simp: delivery_ok_def receiver_ok_def)
  then show ?thesis by (auto simp: piece_iff)
qed

text \<open>
  C16. Once the frames that arrived cover everything that was sent, reading returns all of it.
\<close>

theorem handshake_bytes_complete:
  assumes "delivery_laws env holds pos known frames"
    and "(delivery_step env frames sp)\<^sup>*\<^sup>* (delivery_start env) s"
    and "\<forall>i < length (dl_sent s). \<exists>f \<in> set (dl_arrived s). covers f i"
  shows "\<exists>n b. read_to_end env sp (dl_receiver s, dl_got s) = (Ok n, b, dl_sent s)"
proof -
  have ok: "receiver_ok pos known sp (dl_receiver s) (dl_sent s) (dl_arrived s) (dl_got s)"
    using delivery_reachable [OF assms(1,2)] by (simp add: delivery_ok_def)
  have rx: "rx_law env pos known" using assms(1) by (simp add: delivery_laws_def)
  from ok obtain cs where "streams_get sp (dl_receiver s) = Some cs" by (auto simp: receiver_ok_def)
  then obtain n b got where rd: "read_to_end env sp (dl_receiver s, dl_got s) = (Ok n, b, got)"
    by (cases "rx_read_to_end env (dl_got s) (st_rx cs)") (auto simp: read_to_end_def)
  have "piece (dl_sent s) 0 got"
    using receiver_read(1) [OF rx ok rd] by (auto simp: receiver_ok_def)
  moreover have "\<not> length got < length (dl_sent s)"
    using receiver_read(2) [OF rx ok rd] assms(3) by blast
  ultimately have "length got = length (dl_sent s)" and "take (length got) (dl_sent s) = got"
    by (simp_all only: piece_def drop_0) linarith
  then have "got = dl_sent s" by simp
  with rd show ?thesis by blast
qed

section \<open>Enough packets carry everything\<close>

text \<open>
  \<open>pending t\<close> has the offsets that a send buffer still has to send: it offers some of them until there
  are none, and marking a range as sent removes it.
\<close>

definition pending_law :: "('t, 'r, 'b) stream_env \<Rightarrow> ('t \<Rightarrow> nat set) \<Rightarrow> bool" where
  "pending_law env pending \<longleftrightarrow>
     (\<forall>t. finite (pending t) \<and> pending (snd (tx_next_bytes env t)) = pending t) \<and>
     (\<forall>t. pending t \<noteq> {} \<longrightarrow> offers env t) \<and>
     (\<forall>t offset d. fst (tx_next_bytes env t) = Some (offset, d) \<longrightarrow>
        {unat offset..<unat offset + length d} \<subseteq> pending t) \<and>
     (\<forall>t offset n. pending (tx_mark_as_sent env offset n t) = pending t - {unat offset..<unat offset + unat n})"

definition frame_range :: "frame \<Rightarrow> nat set" where
  "frame_range f = {unat (fst f)..<unat (fst f) + length (snd f)}"

lemma frame_range_empty [simp]: "frame_range f = {} \<longleftrightarrow> snd f = []"
  by (auto simp: frame_range_def)

lemma within_range:
  assumes "within offset d f" and "unat offset + length d < 2 ^ 62"
  shows "frame_range f \<subseteq> {unat offset..<unat offset + length d}" and "unat (len (snd f)) = length (snd f)"
proof -
  from assms(1) obtain k where k: "fst f = offset + of_nat k" and p: "piece d k (snd f)"
    by (auto simp: within_def)
  then have b: "k + length (snd f) \<le> length d" by (simp add: piece_def)
  have "unat (of_nat k :: u64) = k" using b assms(2) by (simp add: unat_of_nat)
  then have "unat (fst f) = unat offset + k" using k b assms(2) by (simp add: unat_add_fits)
  with b show "frame_range f \<subseteq> {unat offset..<unat offset + length d}" by (auto simp: frame_range_def)
  show "unat (len (snd f)) = length (snd f)" using b assms(2) by (simp add: unat_len)
qed

lemma sends_pending:
  assumes "pending_law env pending" and "tx_bound env" and "sends env t fl t'"
  shows "pending t' = pending t - \<Union> (frame_range ` set fl) \<and> \<Union> (frame_range ` set fl) \<subseteq> pending t"
proof -
  have marks: "pending (mark_frames env fl u) = pending u - \<Union> (frame_range ` set fl)"
    if "\<forall>f \<in> set fl. unat (len (snd f)) = length (snd f)" for fl u
    using that assms(1)
    by (induction fl arbitrary: u) (auto simp: pending_law_def frame_range_def)
  show ?thesis
    using assms(3)
  proof (induction rule: sends.induct)
    case (Nothing t)
    then show ?case using assms(1) by (simp add: pending_law_def)
  next
    case (Pass t offset d u fl)
    have bound: "unat offset + length d < 2 ^ 62" using assms(2) Pass(1) by (auto simp: tx_bound_def)
    have "pending u = pending t" "{unat offset..<unat offset + length d} \<subseteq> pending t"
      using assms(1) Pass(1) unfolding pending_law_def by (metis fst_conv snd_conv)+
    moreover have "\<Union> (frame_range ` set fl) \<subseteq> {unat offset..<unat offset + length d}"
      using within_range(1) [OF _ bound] Pass(2) by blast
    moreover have "pending (mark_frames env fl u) = pending u - \<Union> (frame_range ` set fl)"
      by (intro marks ballI within_range(2) [OF _ bound]) (use Pass(2) in blast)
    ultimately show ?case by (intro conjI) (simp, rule order_trans)
  qed auto
qed

text \<open>
  Writing the frames of one packet after another; each packet is given by its builder.
\<close>

fun write_packets ::
  "('t, 'r, 'b) stream_env \<Rightarrow> packet_number_space \<Rightarrow> bool \<Rightarrow> 'b list \<Rightarrow> ('t, 'r) crypto_streams \<Rightarrow>
   ('t, 'r) crypto_streams option" where
  "write_packets env sp sni [] s = Some s"
| "write_packets env sp sni (b # bs) s =
     (case streams_write_frame env sp sni (s, b, [], 0) of
        Some (Ok _, s, _) \<Rightarrow> write_packets env sp sni bs s
      | _ \<Rightarrow> None)"

lemma write_packet_pending:
  assumes "loop_laws env" and "pending_law env pending" and "roomy env b" and "streams_get sp s = Some cs"
  obtains s' b' toks stats cs' where
    "streams_write_frame env sp sni (s, b, [], 0) = Some (Ok (), s', b', toks, stats)"
    and "streams_get sp s' = Some cs'"
    and "pending (st_tx cs) = {} \<and> pending (st_tx cs') = {} \<or> pending (st_tx cs') \<subset> pending (st_tx cs)"
proof -
  have "unat (0 :: usize) + unat (builder_remaining env b) < 2 ^ 64"
    using unsigned_less [where ?'a = nat and w = "builder_remaining env b"] by simp
  with assms(1,4) obtain fl b' t' stats' where
    "streams_write_frame env sp sni (s, b, [], 0) =
       Some (Ok (), streams_put sp (cs\<lparr>st_tx := t'\<rparr>) s, b', [] @ map (frame_token sp) fl, stats')"
    and s: "sends env (st_tx cs) fl t'" and c: "offers env (st_tx cs) \<and> roomy env b \<longrightarrow> carries_data fl"
    by (rule write_frame_frames)
  moreover have "tx_bound env" using assms(1) by (simp add: loop_laws_def)
  note p = sends_pending [OF assms(2) this s]
  have "pending (st_tx cs) = {} \<and> pending t' = {} \<or> pending t' \<subset> pending (st_tx cs)"
  proof (cases "pending (st_tx cs) = {}")
    case False
    then have "carries_data fl" using c assms(2,3) by (simp add: pending_law_def)
    then have "\<Union> (frame_range ` set fl) \<noteq> {}" by (auto simp: carries_data_def)
    with p show ?thesis by blast
  qed (use p in simp)
  ultimately show thesis
    using that [of _ b' "map (frame_token sp) fl" stats' "cs\<lparr>st_tx := t'\<rparr>"] streams.get_put [OF assms(4)] by simp
qed

text \<open>
  C17. Writing CRYPTO frames makes progress: as long as something is to be sent, every packet with room
  for 24 bytes takes some of it, so after at most as many packets as there are bytes to send everything
  has been sent, sliced or not.
\<close>

theorem packets_send_everything:
  assumes "loop_laws env" and "pending_law env pending" and "streams_get sp s = Some cs"
    and "\<forall>b \<in> set bs. roomy env b" and "card (pending (st_tx cs)) \<le> length bs"
  shows "\<exists>s' cs'. write_packets env sp sni bs s = Some s' \<and> streams_get sp s' = Some cs' \<and>
     pending (st_tx cs') = {}"
  using assms(3-)
proof (induction bs arbitrary: s cs)
  case Nil
  then show ?case using assms(2) by (auto simp: pending_law_def)
next
  case (Cons b bs)
  have "roomy env b" using Cons.prems(2) by simp
  with assms(1,2) obtain s' b' toks stats cs' where
    w: "streams_write_frame env sp sni (s, b, [], 0) = Some (Ok (), s', b', toks, stats)"
    and g: "streams_get sp s' = Some cs'"
    and p: "pending (st_tx cs) = {} \<and> pending (st_tx cs') = {} \<or> pending (st_tx cs') \<subset> pending (st_tx cs)"
    using Cons.prems(1) by (rule write_packet_pending)
  have "finite (pending (st_tx cs))" using assms(2) by (simp add: pending_law_def)
  then have "card (pending (st_tx cs')) < card (pending (st_tx cs)) \<or> pending (st_tx cs') = {}"
    using p psubset_card_mono by blast
  then have "card (pending (st_tx cs')) \<le> length bs"
    using Cons.prems(3) by auto
  with Cons.IH [OF g] Cons.prems(2) w show ?case by simp
qed


section \<open>A concrete instance\<close>

text \<open>
  A send buffer that keeps everything and the offsets marked as sent, a reassembly buffer with one slot
  for each byte, and a packet that counts down its room and records its frames.
\<close>

definition slot :: "u8 option list \<Rightarrow> nat \<Rightarrow> u8 option" where
  "slot l i = (if i < length l then l ! i else None)"

definition buffer_next :: "bytes \<times> nat list \<Rightarrow> (u64 \<times> bytes) option" where
  "buffer_next t =
     (if length (fst t) < 2 ^ 62 then
        (case filter (\<lambda>i. i \<notin> set (snd t)) [0..<length (fst t)] of
           [] \<Rightarrow> None
         | i # _ \<Rightarrow> Some (of_nat i, take (length (takeWhile (\<lambda>j. j \<notin> set (snd t)) [i..<length (fst t)])) (drop i (fst t))))
      else None)"

definition buffer_env :: "(bytes \<times> nat list, nat \<times> u8 option list, usize \<times> frame list) stream_env" where
  "buffer_env =
     \<lparr>stream_dbg = True, tx_default = ([], []),
      tx_send = (\<lambda>d (c, m). (c @ d, m)), tx_next_bytes = (\<lambda>t. (buffer_next t, t)),
      tx_mark_as_sent = (\<lambda>a n (c, m). (c, m @ [unat a..<unat a + unat n])),
      tx_mark_as_acked = (\<lambda>a n (c, m). (c, m @ [unat a..<unat a + unat n])),
      tx_mark_as_lost = (\<lambda>a n (c, m). (c, filter (\<lambda>i. i < unat a \<or> unat a + unat n \<le> i) m)),
      tx_unmark_sent = (\<lambda>(c, m). (c, [])), tx_is_empty = (\<lambda>t. (buffer_next t = None, t)),
      rx_default = (0, []),
      rx_inbound_frame = (\<lambda>a d (p, l). (p, map (\<lambda>i. case slot l i of Some x \<Rightarrow> Some x
          | None \<Rightarrow> if unat a \<le> i \<and> i < unat a + length d then Some (d ! (i - unat a)) else None)
          [0..<max (length l) (unat a + length d)])),
      rx_received = (\<lambda>(p, l). of_nat (length l)), rx_retired = (\<lambda>(p, l). of_nat p),
      rx_data_ready = (\<lambda>(p, l). slot l p \<noteq> None),
      rx_read_to_end = (\<lambda>buf (p, l). let d = takeWhile (\<lambda>x. x \<noteq> None) (drop p l) in
          (of_nat (length d), buf @ map the d, p + length d, l)),
      builder_remaining = fst, builder_limit = (\<lambda>_. 1200),
      encode_crypto_frame = (\<lambda>off d (b, fl). (b - of_nat (frame_size off (length d)), fl @ [(off, d)])),
      varint_len = (\<lambda>v. if v < 64 then 1 else if v < 16384 then 2 else if v < 1073741824 then 4 else 8),
      find_sni = (\<lambda>d. if 4 < length d then Some (mk_range 1 3) else None)\<rparr>"

definition buffer_holds :: "bytes \<Rightarrow> bytes \<times> nat list \<Rightarrow> bool" where
  "buffer_holds c t \<longleftrightarrow> c = fst t"

definition buffer_pending :: "bytes \<times> nat list \<Rightarrow> nat set" where
  "buffer_pending t = (if length (fst t) < 2 ^ 62 then {i. i < length (fst t) \<and> i \<notin> set (snd t)} else {})"

lemma buffer_next_cases:
  assumes "buffer_next t = Some (offset, d)"
  obtains i where "offset = of_nat i" and "unat offset = i" and "length (fst t) < 2 ^ 62" and "i < length (fst t)"
    and "d = take (length (takeWhile (\<lambda>j. j \<notin> set (snd t)) [i..<length (fst t)])) (drop i (fst t))"
    and "d \<noteq> []" and "{i..<i + length d} \<subseteq> buffer_pending t"
proof -
  from assms obtain i rest where l: "length (fst t) < 2 ^ 62"
    and f: "filter (\<lambda>i. i \<notin> set (snd t)) [0..<length (fst t)] = i # rest" and o: "offset = of_nat i"
    and d: "d = take (length (takeWhile (\<lambda>j. j \<notin> set (snd t)) [i..<length (fst t)])) (drop i (fst t))"
    by (auto simp: buffer_next_def split: if_splits list.splits)
  have "i \<in> set (filter (\<lambda>i. i \<notin> set (snd t)) [0..<length (fst t)])" using f by simp
  then have i: "i < length (fst t)" "i \<notin> set (snd t)" by simp_all
  let ?w = "takeWhile (\<lambda>j. j \<notin> set (snd t)) [i..<length (fst t)]"
  have "length ?w \<le> length (fst t) - i" by (metis length_takeWhile_le length_upt)
  then have len: "length d = length ?w" using d by simp
  have "i + j \<in> buffer_pending t" if "j < length ?w" for j
  proof -
    have "?w ! j \<in> set ?w" using that by simp
    moreover have "?w ! j = i + j"
      using that length_takeWhile_le [of "\<lambda>j. j \<notin> set (snd t)" "[i..<length (fst t)]"]
      by (simp add: takeWhile_nth)
    ultimately show ?thesis using l by (auto dest: set_takeWhileD simp: buffer_pending_def)
  qed
  note w = this
  have "{i..<i + length d} \<subseteq> buffer_pending t"
  proof
    fix x
    assume "x \<in> {i..<i + length d}"
    then have "x - i < length ?w" and "i \<le> x" using len by auto
    with w [of "x - i"] show "x \<in> buffer_pending t" by simp
  qed
  moreover have "?w \<noteq> []" using i by (simp add: upt_conv_Cons)
  then have "d \<noteq> []" using len by auto
  ultimately show thesis using that [of i] o l i d by (simp add: unat_of_nat)
qed

lemma buffer_loop_laws: "loop_laws buffer_env"
proof -
  have "builder_law buffer_env" "varint_law buffer_env"
    using sample_chunk_laws by (auto simp: builder_law_def varint_law_def buffer_env_def sample_stream_env_def)
  moreover have "sni_law buffer_env" by (auto simp: sni_law_def buffer_env_def split: if_splits)
  moreover have "tx_bound buffer_env"
    by (auto simp: tx_bound_def buffer_env_def elim!: buffer_next_cases)
  ultimately show ?thesis by (simp add: loop_laws_def buffer_env_def)
qed

lemma buffer_content_law: "tx_content_law buffer_env buffer_holds"
  by (auto simp: tx_content_law_def buffer_env_def buffer_holds_def elim!: buffer_next_cases)

lemma buffer_frames_law: "frames_law buffer_env snd"
  by (simp add: frames_law_def buffer_env_def case_prod_beta)

lemma buffer_pending_law: "pending_law buffer_env buffer_pending"
proof -
  have "offers buffer_env t" if "buffer_pending t \<noteq> {}" for t
  proof -
    have l: "length (fst t) < 2 ^ 62" and "filter (\<lambda>i. i \<notin> set (snd t)) [0..<length (fst t)] \<noteq> []"
      using that by (auto simp: buffer_pending_def filter_empty_conv split: if_splits)
    then obtain i rest where "filter (\<lambda>i. i \<notin> set (snd t)) [0..<length (fst t)] = i # rest"
      by (meson neq_Nil_conv)
    then obtain offset d where n: "buffer_next t = Some (offset, d)"
      using l by (simp add: buffer_next_def)
    then have "d \<noteq> []" by (rule buffer_next_cases)
    with n show ?thesis by (simp add: offers_def buffer_env_def)
  qed
  moreover have "{unat offset..<unat offset + length d} \<subseteq> buffer_pending t"
    if "buffer_next t = Some (offset, d)" for t offset d
    using that by (rule buffer_next_cases) simp
  moreover have "finite (buffer_pending t)" for t by (simp add: buffer_pending_def)
  moreover have "buffer_pending (tx_mark_as_sent buffer_env offset n t) =
      buffer_pending t - {unat offset..<unat offset + unat n}" for t offset n
    by (cases t) (auto simp: buffer_pending_def buffer_env_def)
  ultimately show ?thesis by (simp add: pending_law_def) (simp add: buffer_env_def)
qed

lemma buffer_rx_law: "rx_law buffer_env fst (\<lambda>r. slot (snd r))"
proof -
  have "slot (map (\<lambda>i. case slot l i of Some x \<Rightarrow> Some x
          | None \<Rightarrow> if unat a \<le> i \<and> i < unat a + length d then Some (d ! (i - unat a)) else None)
          [0..<max (length l) (unat a + length d)]) i =
      (case slot l i of Some x \<Rightarrow> Some x | None \<Rightarrow> if covers (a, d) i then Some (d ! (i - unat a)) else None)"
    for l and a :: u64 and d i
    by (auto simp: slot_def covers_def split: option.splits)
  note frame = this
  have read: "slot l (p + j) = Some (map the (takeWhile (\<lambda>x. x \<noteq> None) (drop p l)) ! j)"
    if "j < length (takeWhile (\<lambda>x. x \<noteq> None) (drop p l))" for p l j
  proof -
    let ?w = "takeWhile (\<lambda>x. x \<noteq> None) (drop p l)"
    have "?w ! j \<in> set ?w" using that by (rule nth_mem)
    then have "?w ! j \<noteq> None" by (rule set_takeWhileD [THEN conjunct2])
    moreover have "j < length (drop p l)"
      using that length_takeWhile_le [of "\<lambda>x. x \<noteq> None" "drop p l"] by (rule order.strict_trans2)
    then have "p + j < length l" "?w ! j = l ! (p + j)"
      using takeWhile_nth [OF that] by simp_all
    ultimately show ?thesis using that by (simp add: slot_def)
  qed
  have gap: "slot l (p + length (takeWhile (\<lambda>x. x \<noteq> None) (drop p l))) = None" for p l
    using nth_length_takeWhile [of "\<lambda>x. x \<noteq> None" "drop p l"] by (auto simp: slot_def)
  have "\<exists>d. buf' = buf @ d \<and> fst r' = fst r + length d \<and> (\<forall>j<length d. slot (snd r) (fst r + j) = Some (d ! j)) \<and>
      slot (snd r) (fst r + length d) = None \<and> snd r' = snd r"
    if "rx_read_to_end buffer_env buf r = (n, buf', r')" for buf r n buf' r'
    using that read [where p = "fst r" and l = "snd r"] gap [of "snd r" "fst r"]
    by (intro exI [of _ "map the (takeWhile (\<lambda>x. x \<noteq> None) (drop (fst r) (snd r)))"])
      (auto simp: buffer_env_def Let_def split: prod.splits)
  note reading = this
  show ?thesis
    unfolding rx_law_def
  proof (intro conjI allI impI, goal_cases)
    case (6 buf r n buf' r')
    then show ?case using reading by metis
  qed (auto simp: buffer_env_def frame slot_def [of "[]"] split: option.splits if_splits)
qed

lemma buffer_laws: "delivery_laws buffer_env buffer_holds fst (\<lambda>r. slot (snd r)) snd"
  by (simp add: delivery_laws_def buffer_loop_laws buffer_content_law buffer_frames_law buffer_rx_law)

text \<open>A ClientHello of six bytes cut at the server name.\<close>

definition sample_written :: "(bytes \<times> nat list, nat \<times> u8 option list) crypto_streams" where
  "sample_written = streams_put InitialSpace \<lparr>st_tx = ([1, 2, 3, 4, 5, 6], [2, 3, 4, 5, 0, 1]), st_rx = (0, [])\<rparr>
     (streams_default buffer_env)"

definition sample_tokens :: "crypto_recovery_token list" where
  "sample_tokens = [\<lparr>tok_space = InitialSpace, tok_offset = 2, tok_length = 4\<rparr>,
     \<lparr>tok_space = InitialSpace, tok_offset = 0, tok_length = 2\<rparr>]"

lemmas buffer_eval = buffer_env_def crypto_stream_default_def streams_default_def

lemma sample_write:
  "streams_write_frame buffer_env InitialSpace True
     (streams_put InitialSpace \<lparr>st_tx = ([1, 2, 3, 4, 5, 6], []), st_rx = (0, [])\<rparr> (streams_default buffer_env),
      (100, []), [], 0) =
   Some (Ok (), sample_written, (88, [(2, [3, 4, 5, 6]), (0, [1, 2])]), sample_tokens, 2)"
proof -
  have n: "buffer_next ([1, 2, 3, 4, 5, 6], []) = Some (0, [1, 2, 3, 4, 5, 6])"
    by (simp add: buffer_next_def upt_rec)
  have l: "limit_chunks True (0, [1, 2 :: u8]) (2, [3, 4, 5, 6]) 6 = Ok ((0, [1, 2]), (2, [3, 4, 5, 6]))"
    by (simp add: limit_chunks_def len_def add_w_def)
  have s: "write_step buffer_env InitialSpace True \<lparr>fs_stream = \<lparr>st_tx = ([1, 2, 3, 4, 5, 6], []), st_rx = (0, [])\<rparr>,
       fs_builder = (100, []), fs_tokens = [], fs_stats = 0\<rparr> =
     (Ok False, \<lparr>fs_stream = \<lparr>st_tx = ([1, 2, 3, 4, 5, 6], [2, 3, 4, 5, 0, 1]), st_rx = (0, [])\<rparr>,
       fs_builder = (88, [(2, [3, 4, 5, 6]), (0, [1, 2])]), fs_tokens = sample_tokens, fs_stats = 2\<rparr>)"
    by (simp add: write_step_def buffer_env_def n write_pass_def write_sliced_def write_chunk_def sub_w_def add_w_def
        split_at_def slice_def div_ceil_def div_usize_def len_def l mark_as_sent_def sample_tokens_def Let_def
        frame_size_def vlen_def upt_rec)
  show ?thesis
    by (simp add: streams_write_frame_def streams_default_def write_loop_unfold [OF s] sample_written_def)
qed

text \<open>It is sent and written, the frames arrive in the order in which they were written, and are read.\<close>

definition sample_received :: "nat \<Rightarrow> (bytes \<times> nat list, nat \<times> u8 option list) crypto_streams" where
  "sample_received p = streams_put InitialSpace
     \<lparr>st_tx = ([], []), st_rx = (p, map Some [1, 2, 3, 4, 5, 6])\<rparr> (streams_default buffer_env)"

definition sample_arrived :: "(bytes \<times> nat list, nat \<times> u8 option list) delivery" where
  "sample_arrived = \<lparr>dl_sender = sample_written, dl_sent = [1, 2, 3, 4, 5, 6],
     dl_wire = [(2, [3, 4, 5, 6]), (0, [1, 2])], dl_tokens = sample_tokens, dl_receiver = sample_received 0,
     dl_arrived = [(2, [3, 4, 5, 6]), (0, [1, 2])], dl_got = []\<rparr>"

lemma sample_inbound:
  "\<exists>s. inbound_frame buffer_env InitialSpace 2 [3, 4, 5, 6] (streams_default buffer_env) = (Ok (), s) \<and>
     inbound_frame buffer_env InitialSpace 0 [1, 2] s = (Ok (), sample_received 0)"
  by (simp add: inbound_frame_def buffer_eval slot_def sub_w_def BUFFER_LIMIT_def sample_received_def upt_rec)

lemma sample_delivery: "(delivery_step buffer_env snd InitialSpace)\<^sup>*\<^sup>* (delivery_start buffer_env) sample_arrived"
proof -
  let ?st = "delivery_step buffer_env snd InitialSpace" and ?c = "[1, 2, 3, 4, 5, 6] :: bytes"
  let ?a = "streams_put InitialSpace \<lparr>st_tx = (?c, []), st_rx = (0, [])\<rparr> (streams_default buffer_env)"
  let ?s1 = "(delivery_start buffer_env)\<lparr>dl_sender := ?a, dl_sent := ?c\<rparr>"
  let ?s2 = "?s1\<lparr>dl_sender := sample_written, dl_wire := [(2, [3, 4, 5, 6]), (0, [1, 2])], dl_tokens := sample_tokens\<rparr>"
  obtain b where b: "inbound_frame buffer_env InitialSpace 2 [3, 4, 5, 6] (streams_default buffer_env) = (Ok (), b)"
    "inbound_frame buffer_env InitialSpace 0 [1, 2] b = (Ok (), sample_received 0)"
    using sample_inbound by blast
  let ?s3 = "?s2\<lparr>dl_receiver := b, dl_arrived := [(2, [3, 4, 5, 6])]\<rparr>"
  have "streams_send buffer_env InitialSpace ?c (streams_default buffer_env) = (Ok (), ?a)"
    by (simp add: streams_send_def buffer_eval)
  then have 1: "?st (delivery_start buffer_env) ?s1"
    using delivery_step.Send [of buffer_env InitialSpace ?c "delivery_start buffer_env"]
    by (simp add: delivery_start_def)
  have 2: "?st ?s1 ?s2"
  proof -
    have "unat (builder_remaining buffer_env (100, [])) = 100" by (simp add: buffer_env_def)
    then show ?thesis
      using delivery_step.Write [where frames = snd and sp = InitialSpace and env = buffer_env and sni = True
          and s = ?s1 and b = "(100, [])" and stats = 0] sample_write
      by (simp add: delivery_start_def)
  qed
  have 3: "?st ?s2 ?s3"
    using delivery_step.Arrive [of "(2, [3, 4, 5, 6])" ?s2 buffer_env InitialSpace] b(1)
    by (simp add: delivery_start_def)
  have 4: "?st ?s3 sample_arrived"
    using delivery_step.Arrive [of "(0, [1, 2])" ?s3 buffer_env InitialSpace] b(2)
    by (simp add: delivery_start_def sample_arrived_def)
  from 1 2 3 4 show ?thesis by (meson converse_rtranclp_into_rtranclp rtranclp.rtrancl_refl)
qed

theorem handshake_bytes_in_order_witness:
  "\<exists>rest. dl_sent sample_arrived = dl_got sample_arrived @ rest \<and> length rest = 6"
  using handshake_bytes_in_order [OF buffer_laws sample_delivery] by (auto simp: sample_arrived_def)

theorem handshake_bytes_complete_witness:
  "\<exists>n b. read_to_end buffer_env InitialSpace (sample_received 0, []) = (Ok n, b, [1, 2, 3, 4, 5, 6])"
proof -
  have "covers (2, [3, 4, 5, 6]) i \<or> covers (0, [1, 2]) i" if "i < 6" for i
    using that by (auto simp: covers_def)
  then show ?thesis
    using handshake_bytes_complete [OF buffer_laws sample_delivery] by (simp add: sample_arrived_def)
qed

theorem frames_carry_stream_witness:
  "\<exists>s' b' stats' fl. streams_write_frame buffer_env InitialSpace False
       (streams_put InitialSpace \<lparr>st_tx = ([1, 2, 3], []), st_rx = (0, [])\<rparr> (streams_default buffer_env),
        (100, []), [], 0) = Some (Ok (), s', b', map (frame_token InitialSpace) fl, stats') \<and>
     snd b' = fl \<and> (\<forall>f \<in> set fl. piece [1, 2, 3] (unat (fst f)) (snd f))"
proof -
  let ?s = "streams_put InitialSpace \<lparr>st_tx = ([1, 2, 3], []), st_rx = (0, [])\<rparr> (streams_default buffer_env)"
  have g: "streams_get InitialSpace ?s = Some \<lparr>st_tx = ([1, 2, 3], []), st_rx = (0, [])\<rparr>"
    by (simp add: streams_default_def)
  have h: "buffer_holds [1, 2, 3] (st_tx \<lparr>st_tx = ([1, 2, 3], []), st_rx = (0, [])\<rparr>)"
    by (simp add: buffer_holds_def)
  have r: "unat (0 :: usize) + unat (builder_remaining buffer_env (100, [])) < 2 ^ 64" by (simp add: buffer_env_def)
  from frames_carry_stream [OF buffer_loop_laws buffer_content_law buffer_frames_law g h _ r, of False "[]"]
  show ?thesis by auto
qed

theorem packets_send_everything_witness:
  "\<exists>s' cs'. write_packets buffer_env InitialSpace True [(100, []), (100, []), (100, []), (100, []), (100, []), (100, [])]
       (streams_put InitialSpace \<lparr>st_tx = ([1, 2, 3, 4, 5, 6], []), st_rx = (0, [])\<rparr> (streams_default buffer_env)) =
       Some s' \<and>
     streams_get InitialSpace s' = Some cs' \<and> buffer_pending (st_tx cs') = {}"
proof -
  let ?cs = "\<lparr>st_tx = ([1, 2, 3, 4, 5, 6], []), st_rx = (0, [])\<rparr>
    :: (bytes \<times> nat list, nat \<times> u8 option list) crypto_stream"
  have g: "streams_get InitialSpace (streams_put InitialSpace ?cs (streams_default buffer_env)) = Some ?cs"
    by (simp add: streams_default_def)
  have "buffer_pending (st_tx ?cs) = {..<6}" by (auto simp: buffer_pending_def)
  then have "card (buffer_pending (st_tx ?cs)) = 6" by simp
  moreover have "roomy buffer_env (100, [])" by (simp add: roomy_def buffer_env_def)
  ultimately show ?thesis
    using packets_send_everything [OF buffer_loop_laws buffer_pending_law g,
        of "[(100, []), (100, []), (100, []), (100, []), (100, []), (100, [])]" True] by simp
qed

end
