(* ===== verification/Session.thy ===== *)
theory Session
  imports Connection Stream_Delivery
begin

text \<open>
  The handshakes of two endpoints, in one packet number space. Each \<^verbatim>\<open>Crypto\<close> drives its TLS agent, queues
  the records this produces, writes them into CRYPTO frames, receives the frames of the other, which may
  be lost, repeated and reordered, and feeds what it can read to its agent.
\<close>

section \<open>The endpoints and their steps\<close>

text \<open>
  An endpoint with the bytes its agent produced for the space, the frames it wrote and their tokens, the
  frames that arrived, and the bytes fed to its agent from the space.
\<close>

record ('k, 'a, 'h, 't, 'r, 'w) endpoint =
  ep_crypto :: "('k, 'a, 'h, 't, 'r, 'w) crypto"
  ep_out :: bytes
  ep_wire :: "frame list"
  ep_tokens :: "crypto_recovery_token list"
  ep_arrived :: "frame list"
  ep_fed :: bytes

fun peer :: "role \<Rightarrow> role" where
  "peer Client = Server"
| "peer Server = Client"

definition endpoint_new :: "('k, 'a, 'h, 't, 'r, 'w) crypto \<Rightarrow> ('k, 'a, 'h, 't, 'r, 'w) endpoint" where
  "endpoint_new c = \<lparr>ep_crypto = c, ep_out = [], ep_wire = [], ep_tokens = [], ep_arrived = [], ep_fed = []\<rparr>"

text \<open>What driving the agent with \<open>data\<close> produces, as \<open>handshake_raw\<close> returns it, and does to the endpoint.\<close>

definition drives ::
  "('k, 'a, 'h, 't, 'r, 'b, 'w) crypto_env_all \<Rightarrow> packet_number_space \<Rightarrow> bytes option \<Rightarrow>
   ('k, 'a, 'h, 't, 'r, 'w) crypto \<Rightarrow> tls_record list \<Rightarrow> ('k, 'a, 'h, 't, 'r, 'w) crypto \<Rightarrow> bool" where
  "drives env sp data c recs c' \<longleftrightarrow>
     (\<exists>now a st. handshake_raw (ce_nss env) now (map_option (\<lambda>d. \<lparr>rec_epoch = epoch_of_space env sp,
         rec_ct = TLS_CT_HANDSHAKE (ce_hdr env), rec_data = d\<rparr>) data) (agent_deref (cr_tls c)) = (Ok recs, a) \<and>
       crypto_handshake env now sp data c = (Ok st, c'))"

abbreviation produced :: "('k, 'a, 'h, 't, 'r, 'b, 'w) crypto_env_all \<Rightarrow> packet_number_space \<Rightarrow> tls_record list \<Rightarrow> bytes" where
  "produced env sp recs \<equiv> concat (queued env sp recs)"

inductive endpoint_step ::
  "('k, 'a, 'h, 't, 'r, 'b, 'w) crypto_env_all \<Rightarrow> ('b \<Rightarrow> frame list) \<Rightarrow> packet_number_space \<Rightarrow> frame list \<Rightarrow>
   ('k, 'a, 'h, 't, 'r, 'w) endpoint \<Rightarrow> ('k, 'a, 'h, 't, 'r, 'w) endpoint \<Rightarrow> bool"
  for env frames sp wire where
  Drive:
    "drives env q data (ep_crypto e) recs c \<Longrightarrow> q \<noteq> sp \<or> data = None \<Longrightarrow>
     length (ep_out e @ produced env sp recs) < 2 ^ 64 \<Longrightarrow>
     endpoint_step env frames sp wire e (e\<lparr>ep_crypto := c, ep_out := ep_out e @ produced env sp recs\<rparr>)"
| Feed:
    "read_to_end (ce_streams env) sp (cr_streams (ep_crypto e), []) = (Ok n, s, data) \<Longrightarrow>
     drives env sp (Some data) ((ep_crypto e)\<lparr>cr_streams := s\<rparr>) recs c \<Longrightarrow>
     length (ep_out e @ produced env sp recs) < 2 ^ 64 \<Longrightarrow>
     endpoint_step env frames sp wire e
       (e\<lparr>ep_crypto := c, ep_out := ep_out e @ produced env sp recs, ep_fed := ep_fed e @ data\<rparr>)"
| Write_Frames:
    "crypto_write_frame env sp sni (ep_crypto e, b, ep_tokens e, stats) = Some (Ok u, c, b', toks, stats') \<Longrightarrow>
     frames b = [] \<Longrightarrow> unat stats + unat (builder_remaining (ce_streams env) b) < 2 ^ 64 \<Longrightarrow>
     endpoint_step env frames sp wire e (e\<lparr>ep_crypto := c, ep_wire := ep_wire e @ frames b', ep_tokens := toks\<rparr>)"
| Frame_Acked:
    "tok \<in> set (ep_tokens e) \<Longrightarrow>
     endpoint_step env frames sp wire e (e\<lparr>ep_crypto := crypto_acked env tok (ep_crypto e)\<rparr>)"
| Frame_Lost:
    "tok \<in> set (ep_tokens e) \<Longrightarrow>
     endpoint_step env frames sp wire e (e\<lparr>ep_crypto := crypto_lost env tok (ep_crypto e)\<rparr>)"
| Resend_Unacked:
    "endpoint_step env frames sp wire e (e\<lparr>ep_crypto := crypto_resend_unacked env sp (ep_crypto e)\<rparr>)"
| Frame_Arrives:
    "f \<in> set wire \<Longrightarrow>
     inbound_frame (ce_streams env) sp (fst f) (snd f) (cr_streams (ep_crypto e)) = (Ok u, s) \<Longrightarrow>
     endpoint_step env frames sp wire e
       (e\<lparr>ep_crypto := (ep_crypto e)\<lparr>cr_streams := s\<rparr>, ep_arrived := ep_arrived e @ [f]\<rparr>)"
| Elsewhere:
    "streams_get sp (cr_streams c) = streams_get sp (cr_streams (ep_crypto e)) \<Longrightarrow>
     endpoint_step env frames sp wire e (e\<lparr>ep_crypto := c\<rparr>)"

inductive session_step ::
  "('k, 'a, 'h, 't, 'r, 'b, 'w) crypto_env_all \<Rightarrow> ('b \<Rightarrow> frame list) \<Rightarrow> packet_number_space \<Rightarrow>
   (role \<Rightarrow> ('k, 'a, 'h, 't, 'r, 'w) endpoint) \<Rightarrow> (role \<Rightarrow> ('k, 'a, 'h, 't, 'r, 'w) endpoint) \<Rightarrow> bool"
  for env frames sp where
  Endpoint:
    "endpoint_step env frames sp (ep_wire (s (peer r))) (s r) e \<Longrightarrow> session_step env frames sp s (s(r := e))"

section \<open>The invariant\<close>

text \<open>An endpoint whose peer produced \<open>c\<close>.\<close>

definition endpoint_ok ::
  "(bytes \<Rightarrow> 't \<Rightarrow> bool) \<Rightarrow> ('r \<Rightarrow> nat) \<Rightarrow> ('r \<Rightarrow> nat \<Rightarrow> u8 option) \<Rightarrow> packet_number_space \<Rightarrow> bytes \<Rightarrow>
   ('k, 'a, 'h, 't, 'r, 'w) endpoint \<Rightarrow> bool" where
  "endpoint_ok holds pos known sp c e \<longleftrightarrow>
     sender_ok holds sp (cr_streams (ep_crypto e)) (ep_out e) (ep_wire e) (ep_tokens e) \<and>
     receiver_ok pos known sp (cr_streams (ep_crypto e)) c (ep_arrived e) (ep_fed e)"

lemma sender_tx:
  assumes "sender_ok holds sp a c wire toks" and "streams_get sp a' = Some cs" and "holds (c @ d) (st_tx cs)"
    and "length (c @ d) < 2 ^ 64"
  shows "sender_ok holds sp a' (c @ d) wire toks"
  using assms by (auto simp: sender_ok_def intro: piece_append)

lemma sender_same_tx:
  assumes "sender_ok holds sp a c wire toks"
    and "map_option st_tx (streams_get sp a') = map_option st_tx (streams_get sp a)"
  shows "sender_ok holds sp a' c wire toks"
  using assms by (auto simp: sender_ok_def map_option_case split: option.splits)

lemma receiver_same_rx:
  assumes "receiver_ok pos known sp b c arrived got"
    and "map_option st_rx (streams_get sp b') = map_option st_rx (streams_get sp b)"
  shows "receiver_ok pos known sp b' c arrived got"
  using assms by (auto simp: receiver_ok_def map_option_case split: option.splits)

lemma holds_sends:
  assumes "tx_content_law env holds" and "holds c t"
  shows "holds (c @ concat ds) (fold (tx_send env) ds t)"
  using assms(2)
proof (induction ds arbitrary: c t)
  case (Cons d ds)
  have "holds (c @ d) (tx_send env d t)" using assms(1) Cons.prems by (simp add: tx_content_law_def)
  from Cons.IH [OF this] show ?case by simp
qed simp

lemma drives_streams:
  assumes "drives env q data c recs c'"
  shows "streams_get sp (cr_streams c') =
     map_option (\<lambda>cs. cs\<lparr>st_tx := fold (tx_send (ce_streams env)) (queued env sp recs) (st_tx cs)\<rparr>) (streams_get sp (cr_streams c))"
  using assms crypto_handshake_queues unfolding drives_def by blast

lemma drives_sender:
  assumes "tx_content_law (ce_streams env) holds" and "drives env q data c recs c'"
    and "sender_ok holds sp (cr_streams c) out wire toks" and "length (out @ produced env sp recs) < 2 ^ 64"
  shows "sender_ok holds sp (cr_streams c') (out @ produced env sp recs) wire toks"
proof -
  obtain cs where cs: "streams_get sp (cr_streams c) = Some cs" "holds out (st_tx cs)"
    using assms(3) by (auto simp: sender_ok_def)
  let ?t = "fold (tx_send (ce_streams env)) (queued env sp recs) (st_tx cs)"
  have "streams_get sp (cr_streams c') = Some (cs\<lparr>st_tx := ?t\<rparr>)"
    using drives_streams [OF assms(2), of sp] cs(1) by simp
  moreover have "holds (out @ produced env sp recs) (st_tx (cs\<lparr>st_tx := ?t\<rparr>))"
    using holds_sends [OF assms(1) cs(2)] by simp
  ultimately show ?thesis by (rule sender_tx [OF assms(3) _ _ assms(4)])
qed

lemma drives_receiver:
  assumes "drives env q data c recs c'" and "receiver_ok pos known sp (cr_streams c) out arrived got"
  shows "receiver_ok pos known sp (cr_streams c') out arrived got"
  by (rule receiver_same_rx [OF assms(2)]) (simp add: drives_streams [OF assms(1)] option.map_comp comp_def)

lemma write_frame_rx:
  assumes "streams_write_frame env sp sni (s, b, toks, stats) = Some (r, s', b', toks', stats')"
    and "loop_laws env" and "unat stats + unat (builder_remaining env b) < 2 ^ 64"
  shows "map_option st_rx (streams_get sp s') = map_option st_rx (streams_get sp s)"
proof (cases "streams_get sp s")
  case None
  with assms(1) show ?thesis by (simp add: streams_write_frame_def)
next
  case (Some cs)
  obtain t' where "s' = streams_put sp (cs\<lparr>st_tx := t'\<rparr>) s"
    using write_frame_frames [OF assms(2) Some assms(3), of sni toks] assms(1) by (metis option.inject prod.inject)
  with streams.get_put [OF Some] Some show ?thesis by simp
qed

lemma marks_rx:
  "map_option st_rx (streams_get sp (streams_acked env tok s)) = map_option st_rx (streams_get sp s)"
  "map_option st_rx (streams_get sp (streams_lost env tok s)) = map_option st_rx (streams_get sp s)"
  "map_option st_rx (streams_get sp (streams_resend_unacked env q s)) = map_option st_rx (streams_get sp s)"
  by (auto simp: streams_acked_def streams_lost_def streams_resend_unacked_def streams.get_put_all split: option.splits)

lemma inbound_frame_tx:
  assumes "inbound_frame env q offset d s = (Ok u, s')"
  shows "map_option st_tx (streams_get sp s') = map_option st_tx (streams_get sp s)"
  using assms
  by (auto simp: inbound_frame_def rust_simps Let_def ok_or_def streams.get_put_all split: option.splits if_splits)

text \<open>A step of an endpoint, with the frames of its peer on the wire, and a step of the peer.\<close>

lemma endpoint_step_ok:
  assumes "delivery_laws (ce_streams env) holds pos known frames" and "endpoint_ok holds pos known sp c e"
    and "\<forall>f \<in> set wire. piece c (unat (fst f)) (snd f)" and "endpoint_step env frames sp wire e e'"
  shows "endpoint_ok holds pos known sp c e' \<and> (\<exists>d. ep_out e' = ep_out e @ d)"
proof -
  have laws: "loop_laws (ce_streams env)" "tx_content_law (ce_streams env) holds" "rx_law (ce_streams env) pos known"
    "frames_law (ce_streams env) frames"
    using assms(1) by (simp_all add: delivery_laws_def)
  have tx: "sender_ok holds sp (cr_streams (ep_crypto e)) (ep_out e) (ep_wire e) (ep_tokens e)"
    and rx: "receiver_ok pos known sp (cr_streams (ep_crypto e)) c (ep_arrived e) (ep_fed e)"
    using assms(2) by (simp_all add: endpoint_ok_def)
  from assms(4) show ?thesis
  proof cases
    case (Drive q data recs x)
    with drives_sender [OF laws(2) Drive(2) tx Drive(4)] drives_receiver [OF Drive(2) rx] show ?thesis
      by (simp add: endpoint_ok_def)
  next
    case (Feed n s data recs x)
    obtain cs r' where r: "receiver_ok pos known sp s c (ep_arrived e) (ep_fed e @ data)"
      and cs: "streams_get sp (cr_streams (ep_crypto e)) = Some cs"
      and s: "s = streams_put sp (cs\<lparr>st_rx := r'\<rparr>) (cr_streams (ep_crypto e))"
      using receiver_read_more [OF laws(3) rx Feed(2)] by (metis append_Nil)
    have "sender_ok holds sp s (ep_out e) (ep_wire e) (ep_tokens e)"
      using sender_same_tx [OF tx, of s] cs by (simp add: s streams.get_put)
    with drives_sender [OF laws(2) Feed(3) _ Feed(4)] drives_receiver [OF Feed(3), of pos known sp] r Feed(1) show ?thesis
      by (simp add: endpoint_ok_def)
  next
    case (Write_Frames sni b stats u x b' toks stats')
    obtain s where w: "streams_write_frame (ce_streams env) sp sni (cr_streams (ep_crypto e), b, ep_tokens e, stats) =
        Some (Ok u, s, b', toks, stats')" and x: "x = (ep_crypto e)\<lparr>cr_streams := s\<rparr>"
      using Write_Frames(2) by (auto simp: crypto_write_frame_def)
    have "receiver_ok pos known sp s c (ep_arrived e) (ep_fed e)"
      using receiver_same_rx [OF rx] write_frame_rx [OF w laws(1) Write_Frames(4)] by blast
    with sender_write [OF laws(1,2,4) tx Write_Frames(4) w Write_Frames(3)] Write_Frames(1) show ?thesis
      by (simp add: endpoint_ok_def x)
  next
    case (Frame_Acked tok)
    with sender_marks(1) [OF laws(2) tx] receiver_same_rx [OF rx marks_rx(1)] show ?thesis
      by (simp add: endpoint_ok_def crypto_acked_def)
  next
    case (Frame_Lost tok)
    with sender_marks(2) [OF laws(2) tx] receiver_same_rx [OF rx marks_rx(2)] show ?thesis
      by (simp add: endpoint_ok_def crypto_lost_def)
  next
    case Resend_Unacked
    with sender_marks(3) [OF laws(2) tx] receiver_same_rx [OF rx marks_rx(3)] show ?thesis
      by (simp add: endpoint_ok_def crypto_resend_unacked_def)
  next
    case (Frame_Arrives f u s)
    have "piece c (unat (fst f)) (snd f)" using assms(3) Frame_Arrives(2) by blast
    from receiver_frame [OF laws(3) rx this Frame_Arrives(3)]
      sender_same_tx [OF tx inbound_frame_tx [OF Frame_Arrives(3)]] Frame_Arrives(1)
    show ?thesis by (simp add: endpoint_ok_def)
  next
    case (Elsewhere x)
    with sender_same_tx [OF tx, of "cr_streams x"] receiver_same_rx [OF rx, of "cr_streams x"] show ?thesis
      by (simp add: endpoint_ok_def)
  qed
qed

lemma peer_peer [simp]: "peer (peer r) = r" "peer r \<noteq> r" "r \<noteq> peer r"
  by (cases r; simp)+

definition session_ok ::
  "(bytes \<Rightarrow> 't \<Rightarrow> bool) \<Rightarrow> ('r \<Rightarrow> nat) \<Rightarrow> ('r \<Rightarrow> nat \<Rightarrow> u8 option) \<Rightarrow> packet_number_space \<Rightarrow>
   (role \<Rightarrow> ('k, 'a, 'h, 't, 'r, 'w) endpoint) \<Rightarrow> bool" where
  "session_ok holds pos known sp s \<longleftrightarrow> (\<forall>r. endpoint_ok holds pos known sp (ep_out (s (peer r))) (s r))"

interpretation session: machine "session_step env frames sp"
    "\<lambda>s. delivery_laws (ce_streams env) holds pos known frames \<longrightarrow> session_ok holds pos known sp s"
  for env frames sp holds pos known
proof (standard, intro impI)
  fix s t :: "role \<Rightarrow> ('a, 'b, 'c, 'd, 'e, 'g) endpoint"
  assume "session_step env frames sp s t"
    and "delivery_laws (ce_streams env) holds pos known frames \<longrightarrow> session_ok holds pos known sp s"
    and laws: "delivery_laws (ce_streams env) holds pos known frames"
  then obtain r e where st: "endpoint_step env frames sp (ep_wire (s (peer r))) (s r) e" and t: "t = s(r := e)"
    and ok: "\<And>q. endpoint_ok holds pos known sp (ep_out (s (peer q))) (s q)"
    by (auto simp: session_ok_def elim: session_step.cases)
  have "\<forall>f \<in> set (ep_wire (s (peer r))). piece (ep_out (s (peer r))) (unat (fst f)) (snd f)"
    using ok [of "peer r"] by (auto simp: endpoint_ok_def sender_ok_def)
  from endpoint_step_ok [OF laws ok this st] obtain d where e: "endpoint_ok holds pos known sp (ep_out (s (peer r))) e"
    and d: "ep_out e = ep_out (s r) @ d" by blast
  have p: "endpoint_ok holds pos known sp (ep_out e) (s (peer r))"
    using ok [of "peer r"] receiver_more by (auto simp: endpoint_ok_def d)
  show "session_ok holds pos known sp t"
    unfolding session_ok_def
  proof
    fix q
    show "endpoint_ok holds pos known sp (ep_out (t (peer q))) (t q)"
    proof (cases "q = r")
      case False
      then have "q = peer r" by (cases q; cases r) simp_all
      with p show ?thesis by (simp add: t)
    qed (use e in \<open>simp add: t\<close>)
  qed
qed

lemma crypto_new_streams: "crypto_new env v m a p = (Ok c, w) \<Longrightarrow> cr_streams c = streams_default (ce_streams env)"
  by (auto simp: crypto_new_def built_def from_crypto_def split: prod.splits result.splits)

lemma session_start_ok:
  assumes "delivery_laws (ce_streams env) holds pos known frames"
    and "\<And>r. crypto_new env (ver r) (ml r) (tls r) (protos r) = (Ok (cs r), w r)"
  shows "session_ok holds pos known sp (\<lambda>r. endpoint_new (cs r))"
proof -
  have "cr_streams (cs r) = streams_default (ce_streams env)" for r
    using crypto_new_streams [OF assms(2)] .
  then show ?thesis
    using delivery_start_ok [OF assms(1)]
    by (simp add: session_ok_def endpoint_ok_def endpoint_new_def delivery_ok_def delivery_start_def)
qed

lemma session_reachable:
  assumes "delivery_laws (ce_streams env) holds pos known frames"
    and "\<And>r. crypto_new env (ver r) (ml r) (tls r) (protos r) = (Ok (cs r), w r)"
    and "(session_step env frames sp)\<^sup>*\<^sup>* (\<lambda>r. endpoint_new (cs r)) s"
  shows "receiver_ok pos known sp (cr_streams (ep_crypto (s (peer r)))) (ep_out (s r)) (ep_arrived (s (peer r)))
    (ep_fed (s (peer r)))"
proof -
  have "session_ok holds pos known sp s"
    using session.steps_inv [OF assms(3)] session_start_ok [OF assms(1), of ver ml tls protos cs w sp] assms(1,2) by blast
  then show ?thesis unfolding session_ok_def endpoint_ok_def by (metis peer_peer(1))
qed

section \<open>What one TLS stack says is what the other hears\<close>

text \<open>
  C4. Two endpoints whose \<^verbatim>\<open>Crypto\<close> was created drive their handshakes and exchange CRYPTO frames that may
  be lost, repeated and reordered. At every moment the bytes fed to the TLS agent of either of them are a
  beginning of the records that the TLS agent of the other produced for the packet number space.
\<close>

theorem tls_fed_in_order:
  assumes "delivery_laws (ce_streams env) holds pos known frames"
    and "\<And>r. crypto_new env (ver r) (ml r) (tls r) (protos r) = (Ok (cs r), w r)"
    and "(session_step env frames sp)\<^sup>*\<^sup>* (\<lambda>r. endpoint_new (cs r)) s"
  shows "\<exists>rest. ep_out (s r) = ep_fed (s (peer r)) @ rest"
  using session_reachable [OF assms, of r] by (auto simp: receiver_ok_def piece_iff)

text \<open>
  C9. Once the frames that arrived at an endpoint cover what the TLS agent of the other produced, reading
  gives exactly the part of it that was not yet fed to the endpoint's own agent.
\<close>

theorem tls_fed_completely:
  assumes "delivery_laws (ce_streams env) holds pos known frames"
    and "\<And>r. crypto_new env (ver r) (ml r) (tls r) (protos r) = (Ok (cs r), w r)"
    and "(session_step env frames sp)\<^sup>*\<^sup>* (\<lambda>r. endpoint_new (cs r)) s"
    and "\<forall>i < length (ep_out (s r)). \<exists>f \<in> set (ep_arrived (s (peer r))). covers f i"
  shows "\<exists>n b data. read_to_end (ce_streams env) sp (cr_streams (ep_crypto (s (peer r))), []) = (Ok n, b, data) \<and>
     ep_fed (s (peer r)) @ data = ep_out (s r)"
proof -
  let ?b = "cr_streams (ep_crypto (s (peer r)))"
  have rx: "rx_law (ce_streams env) pos known" using assms(1) by (simp add: delivery_laws_def)
  note ok = session_reachable [OF assms(1-3), of r]
  then obtain cs where "streams_get sp ?b = Some cs" by (auto simp: receiver_ok_def)
  then obtain n b data where rd: "read_to_end (ce_streams env) sp (?b, []) = (Ok n, b, data)"
    by (cases "rx_read_to_end (ce_streams env) [] (st_rx cs)") (auto simp: read_to_end_def)
  from receiver_read_more [OF rx ok rd]
  have "receiver_ok pos known sp b (ep_out (s r)) (ep_arrived (s (peer r))) (ep_fed (s (peer r)) @ data)"
    and none: "\<forall>f \<in> set (ep_arrived (s (peer r))). \<not> covers f (length (ep_fed (s (peer r)) @ data))"
    by (metis append_Nil)+
  then obtain rest where "ep_out (s r) = ep_fed (s (peer r)) @ data @ rest"
    by (auto simp: receiver_ok_def piece_iff)
  moreover have "rest = []"
  proof (rule ccontr)
    assume "rest \<noteq> []"
    with calculation have "length (ep_fed (s (peer r)) @ data) < length (ep_out (s r))" by simp
    with assms(4) none show False by blast
  qed
  ultimately show ?thesis using rd by simp
qed

section \<open>A concrete session\<close>

definition hello_record :: "nat \<Rightarrow> tls_record" where
  "hello_record w = \<lparr>rec_epoch = Initial, rec_ct = 1, rec_data = [1, 2, 3, 4, 5, 6]\<rparr>"

definition session_env ::
  "(nat list, nat list, nat list, bytes \<times> nat list, nat \<times> u8 option list, usize \<times> frame list, nat) crypto_env_all" where
  "session_env =
     \<lparr>ce_keys = sample_env True, ce_streams = buffer_env,
      ce_client = sample_client_env_of hello_record (\<lambda>w. [w]), ce_server = sample_server_env_of hello_record (\<lambda>w. [w]),
      epoch_of_space = epoch_of_space sample_crypto_env, space_of_epoch = space_of_epoch sample_crypto_env,
      ce_zlib = Some, ce_brotli = Some, ce_zstd = Some, wire_version = (\<lambda>_. 1), encode_uint4 = (\<lambda>_. [0, 0, 0, 1]),
      encode_varint = (\<lambda>n. [ucast n]), encode_vvec = (\<lambda>v. of_nat (length v) # v)\<rparr>"

fun session_agent :: "role \<Rightarrow> nat any_agent" where
  "session_agent Client = ClientAgent sample_client"
| "session_agent Server = ServerAgent \<lparr>sv_agent = sample_agent, sv_zero_rtt_check = None\<rparr>"

definition session_crypto ::
  "role \<Rightarrow> nat agent \<Rightarrow> (bytes \<times> nat list, nat \<times> u8 option list) crypto_streams \<Rightarrow>
   (nat list, nat list, nat list, bytes \<times> nat list, nat \<times> u8 option list, nat) crypto" where
  "session_crypto r a st = \<lparr>cr_version = Version1, cr_protocols = [[104, 51]],
     cr_tls = agent_deref_put (a\<lparr>ag_extensions := [0x39]\<rparr>) (session_agent r),
     cr_streams = st, cr_states = crypto_states_default\<rparr>"

lemma session_env_simps [simp]:
  "ce_streams session_env = buffer_env" "ce_nss session_env = sample_nss_of hello_record (\<lambda>w. [w])"
  "epoch_of_space session_env InitialSpace = Initial" "space_of_epoch session_env Initial = InitialSpace"
  by (simp_all add: session_env_def sample_client_env_of_def sample_crypto_env_def)

lemma session_new:
  "crypto_new session_env Version1 False (session_agent r) [[104, 51]] =
     (Ok (session_crypto r sample_agent (streams_default buffer_env)), 0)"
  by (cases r) (simp_all add: crypto_new_def configure_quic_def firefox_client_def built_def session_env_def
      sample_client_env_of_def sample_client_def session_crypto_def from_crypto_def tp_extension_def quic_groups_def
      set_version_range_def set_ciphers_def set_groups_def set_option_def set_signature_schemes_def client_enable_ech_def
      agent_set_certificate_compression_def send_additional_key_shares_def enable_0rtt_def opt_set_def set_alpn_def
      disable_end_of_early_data_def extension_handler_def nss_call_def sample_nss_of_def sample_agent_def
      set_certificate_compression_def Zlib_def Brotli_def Zstd_def count_u32_cases u32_try_from_def
      alpn_encode_def alpn_add_def)

lemma session_handshake_raw:
  "handshake_raw (sample_nss_of rec key) now data (sample_agent\<lparr>ag_extensions := [0x39]\<rparr>) =
     (Ok [rec 1], sample_waiting\<lparr>ag_extensions := [0x39]\<rparr>)"
  by (cases data) (simp_all add: handshake_raw_def nss_call_def nss_run_def setup_raw_def set_raw_def capture_error_def
      update_state_def preinfo_def pre_info_new_def get_alpn_def pre_ech_public_name_def sample_nss_of_def
      sample_agent_def sample_preliminary_def auth_complete_hook_def sample_waiting_def)

lemma session_drives:
  assumes "streams_get InitialSpace st = Some cs"
  shows "drives session_env InitialSpace data (session_crypto r sample_agent st) [hello_record 1]
    (session_crypto r sample_waiting
      (streams_put InitialSpace (cs\<lparr>st_tx := tx_send buffer_env [1, 2, 3, 4, 5, 6] (st_tx cs)\<rparr>) st))"
proof -
  have ct: "TLS_CT_HANDSHAKE (env_hdr (sample_nss_of rec key)) = 1" for rec :: "nat \<Rightarrow> tls_record" and key :: "nat \<Rightarrow> nat list"
    by (simp add: TLS_CT_HANDSHAKE_def remap8_def sample_nss_of_def)
  have d: "agent_deref (cr_tls (session_crypto r sample_agent st)) = sample_agent\<lparr>ag_extensions := [0x39]\<rparr>"
    by (cases r) (simp_all add: session_crypto_def sample_client_def)
  show ?thesis
    unfolding drives_def session_env_simps d session_handshake_raw
    using assms
    by (cases r; intro exI [of _ 5]) (simp_all add: crypto_handshake_def d session_handshake_raw Let_def hello_record_def
        streams_send_present session_crypto_def ct)
qed

text \<open>
  The client's agent starts, its ClientHello is written in two pieces, which arrive and are fed to the
  agent of the server.
\<close>

definition session_sent :: "role \<Rightarrow> (nat list, nat list, nat list, bytes \<times> nat list, nat \<times> u8 option list, nat) endpoint" where
  "session_sent r = (case r of
     Client \<Rightarrow> \<lparr>ep_crypto = session_crypto Client sample_waiting sample_written, ep_out = [1, 2, 3, 4, 5, 6],
       ep_wire = [(2, [3, 4, 5, 6]), (0, [1, 2])], ep_tokens = sample_tokens, ep_arrived = [], ep_fed = []\<rparr>
   | Server \<Rightarrow> \<lparr>ep_crypto = session_crypto Server sample_agent (sample_received 0), ep_out = [],
       ep_wire = [], ep_tokens = [], ep_arrived = [(2, [3, 4, 5, 6]), (0, [1, 2])], ep_fed = []\<rparr>)"

lemma session_sent_reachable:
  "(session_step session_env snd InitialSpace)\<^sup>*\<^sup>*
     (\<lambda>r. endpoint_new (session_crypto r sample_agent (streams_default buffer_env))) session_sent"
proof -
  let ?st = "session_step session_env snd InitialSpace"
  let ?s0 = "\<lambda>r. endpoint_new (session_crypto r sample_agent (streams_default buffer_env))"
  let ?a = "streams_put InitialSpace \<lparr>st_tx = ([1, 2, 3, 4, 5, 6], []), st_rx = (0, [])\<rparr> (streams_default buffer_env)"
  let ?c1 = "(?s0 Client)\<lparr>ep_crypto := session_crypto Client sample_waiting ?a, ep_out := [1, 2, 3, 4, 5, 6]\<rparr>"
  let ?s1 = "?s0(Client := ?c1)"
  let ?s2 = "?s1(Client := session_sent Client)"
  obtain b where b: "inbound_frame buffer_env InitialSpace 2 [3, 4, 5, 6] (streams_default buffer_env) = (Ok (), b)"
    "inbound_frame buffer_env InitialSpace 0 [1, 2] b = (Ok (), sample_received 0)"
    using sample_inbound by blast
  let ?e3 = "(?s0 Server)\<lparr>ep_crypto := session_crypto Server sample_agent b, ep_arrived := [(2, [3, 4, 5, 6])]\<rparr>"
  let ?s3 = "?s2(Server := ?e3)"
  have out: "produced session_env InitialSpace [hello_record 1] = [1, 2, 3, 4, 5, 6]"
    by (simp add: queued_def hello_record_def)
  have g: "streams_get InitialSpace (streams_default buffer_env) = Some \<lparr>st_tx = ([], []), st_rx = (0, [])\<rparr>"
    by (simp add: buffer_eval)
  have "drives session_env InitialSpace None (session_crypto Client sample_agent (streams_default buffer_env)) [hello_record 1]
      (session_crypto Client sample_waiting ?a)"
    using session_drives [OF g, of None Client] by (simp add: buffer_eval)
  then have "endpoint_step session_env snd InitialSpace wire (?s0 Client) ?c1" for wire
    using endpoint_step.Drive [where env = session_env and frames = snd and sp = InitialSpace and wire = wire and
        q = InitialSpace and data = None and e = "?s0 Client"] out
    by (fastforce simp: endpoint_new_def)
  then have 1: "?st ?s0 ?s1" by (rule session_step.Endpoint)
  have "crypto_write_frame session_env InitialSpace True (session_crypto Client sample_waiting ?a, (100, []), [], 0) =
      Some (Ok (), session_crypto Client sample_waiting sample_written, (88, [(2, [3, 4, 5, 6]), (0, [1, 2])]), sample_tokens, 2)"
    using sample_write by (simp add: crypto_write_frame_def session_crypto_def)
  moreover have "unat (builder_remaining buffer_env (100, [])) = 100" by (simp add: buffer_env_def)
  ultimately have "endpoint_step session_env snd InitialSpace wire ?c1 (session_sent Client)" for wire
    using endpoint_step.Write_Frames [where env = session_env and frames = snd and sp = InitialSpace and wire = wire and
        sni = True and e = ?c1 and b = "(100, [])" and stats = 0]
    by (fastforce simp: endpoint_new_def session_sent_def)
  then have 2: "?st ?s1 ?s2"
    using session_step.Endpoint [where env = session_env and frames = snd and sp = InitialSpace and s = ?s1 and r = Client and e = "session_sent Client"] by simp
  have "endpoint_step session_env snd InitialSpace (ep_wire (session_sent Client)) (?s0 Server) ?e3"
    using endpoint_step.Frame_Arrives [where env = session_env and frames = snd and sp = InitialSpace and
        f = "(2, [3, 4, 5, 6])" and wire = "ep_wire (session_sent Client)" and e = "?s0 Server"] b(1)
    by (fastforce simp: endpoint_new_def session_sent_def session_crypto_def)
  then have 3: "?st ?s2 ?s3"
    using session_step.Endpoint [where env = session_env and frames = snd and sp = InitialSpace and s = ?s2 and r = Server and e = ?e3] by simp
  have "endpoint_step session_env snd InitialSpace (ep_wire (session_sent Client)) ?e3 (session_sent Server)"
    using endpoint_step.Frame_Arrives [where env = session_env and frames = snd and sp = InitialSpace and
        f = "(0, [1, 2])" and wire = "ep_wire (session_sent Client)" and e = ?e3] b(2)
    by (fastforce simp: endpoint_new_def session_sent_def session_crypto_def)
  then have "?st ?s3 (?s3(Server := session_sent Server))"
    using session_step.Endpoint [where env = session_env and frames = snd and sp = InitialSpace and s = ?s3 and r = Server and e = "session_sent Server"] by simp
  moreover have "?s3(Server := session_sent Server) = session_sent"
  proof
    fix r
    show "(?s3(Server := session_sent Server)) r = session_sent r" by (cases r) simp_all
  qed
  ultimately have "?st ?s3 session_sent" by metis
  with 1 2 3 show ?thesis by (meson converse_rtranclp_into_rtranclp rtranclp.rtrancl_refl)
qed

theorem tls_fed_in_order_witness:
  "\<exists>s rest. session_step session_env snd InitialSpace session_sent s \<and> ep_fed (s Server) = [1, 2, 3, 4, 5, 6] \<and>
     ep_out (s Client) = ep_fed (s (peer Client)) @ rest \<and> rest = []"
proof -
  let ?rd = "streams_put InitialSpace \<lparr>st_tx = ([], []), st_rx = (6, map Some [1, 2, 3, 4, 5, 6])\<rparr> (streams_default buffer_env)"
  have rd: "read_to_end buffer_env InitialSpace (sample_received 0, []) = (Ok 6, ?rd, [1, 2, 3, 4, 5, 6])"
    by (simp add: read_to_end_def sample_received_def buffer_eval)
  have "streams_get InitialSpace ?rd = Some \<lparr>st_tx = ([], []), st_rx = (6, map Some [1, 2, 3, 4, 5, 6])\<rparr>"
    by (simp add: buffer_eval)
  note d = session_drives [OF this, of "Some [1, 2, 3, 4, 5, 6]" Server]
  have out: "produced session_env InitialSpace [hello_record 1] = [1, 2, 3, 4, 5, 6]"
    by (simp add: queued_def hello_record_def)
  obtain e where e: "endpoint_step session_env snd InitialSpace (ep_wire (session_sent (peer Server))) (session_sent Server) e"
    and fed: "ep_fed e = [1, 2, 3, 4, 5, 6]"
    using endpoint_step.Feed [where env = session_env and frames = snd and sp = InitialSpace and
        wire = "ep_wire (session_sent (peer Server))" and e = "session_sent Server" and n = 6 and s = ?rd and
        data = "[1, 2, 3, 4, 5, 6]", OF _ _] rd d out
    by (fastforce simp: session_sent_def session_crypto_def)
  let ?s = "session_sent(Server := e)"
  have st: "session_step session_env snd InitialSpace session_sent ?s" using e by (rule session_step.Endpoint)
  with session_sent_reachable have "(session_step session_env snd InitialSpace)\<^sup>*\<^sup>*
      (\<lambda>r. endpoint_new (session_crypto r sample_agent (streams_default buffer_env))) ?s" by simp
  from tls_fed_in_order [OF _ session_new this, of buffer_holds fst "\<lambda>r. slot (snd r)" Client] st fed buffer_laws
  show ?thesis by (intro exI [of _ ?s]) (simp add: session_sent_def)
qed

theorem tls_fed_completely_witness:
  "\<exists>n b data. read_to_end buffer_env InitialSpace (cr_streams (ep_crypto (session_sent Server)), []) = (Ok n, b, data) \<and>
     data = [1, 2, 3, 4, 5, 6]"
proof -
  have "covers (2, [3, 4, 5, 6]) i \<or> covers (0, [1, 2]) i" if "i < 6" for i
    using that by (auto simp: covers_def)
  then have "\<forall>i < length (ep_out (session_sent Client)). \<exists>f \<in> set (ep_arrived (session_sent (peer Client))). covers f i"
    by (simp add: session_sent_def)
  from tls_fed_completely [OF _ session_new session_sent_reachable this] buffer_laws
  show ?thesis by (simp add: session_sent_def)
qed

end
