(* ===== verification/Descriptors.thy ===== *)
theory Descriptors
  imports Connection
begin

text \<open>
  The descriptors that NSS has open. \<open>opened w\<close> is their set in the state \<open>w\<close> of NSS; the laws say which
  calls open and close one, and that the calls made while an agent is created and configured do neither,
  whether they succeed or fail.
\<close>

section \<open>Laws\<close>

definition steady :: "('w \<Rightarrow> 'v) \<Rightarrow> ('w \<Rightarrow> 'x \<times> 'w) \<Rightarrow> bool" where
  "steady view f \<longleftrightarrow> (\<forall>w. view (snd (f w)) = view w)"

definition calls_steady :: "('r, 'k, 'w) nss_env \<Rightarrow> ('w \<Rightarrow> 'v) \<Rightarrow> bool" where
  "calls_steady env opened \<longleftrightarrow>
     (\<forall>fd. steady opened (SSL_AuthCertificateHook env fd)) \<and> (\<forall>fd. steady opened (SSL_AlertSentCallback env fd)) \<and>
     (\<forall>fd b. steady opened (SSL_ResetHandshake env fd b)) \<and> (\<forall>fd v u. steady opened (SSL_VersionRangeSet env fd v u)) \<and>
     (\<forall>fd c b. steady opened (SSL_CipherPrefSet env fd c b)) \<and> (\<forall>fd gs. steady opened (SSL_NamedGroupConfig env fd gs)) \<and>
     (\<forall>fd ss. steady opened (SSL_SignatureSchemePrefSet env fd ss)) \<and>
     (\<forall>fd n. steady opened (SSL_SendAdditionalKeyShares env fd n)) \<and> (\<forall>fd n v. steady opened (SSL_OptionSet env fd n v)) \<and>
     (\<forall>fd e. steady opened (SSL_SetNextProtoNego env fd e)) \<and>
     (\<forall>fd c. steady opened (SSL_SetCertificateCompressionAlgorithm env fd c)) \<and> (\<forall>fd. steady opened (time_bind env fd)) \<and>
     (\<forall>fd x. steady opened (extension_tracker_new env fd x)) \<and> (\<forall>fd. steady opened (record_list_setup env fd)) \<and>
     (\<forall>fd. steady opened (secrets_register env fd)) \<and> (\<forall>b w. opened (io_wrap env b w) = opened w) \<and>
     (\<forall>w. opened (io_unwrap env w) = opened w) \<and> steady opened (io_take_output env)"

definition fd_laws :: "('r, 'k, 'w) nss_env \<Rightarrow> ('w \<Rightarrow> ptr set) \<Rightarrow> bool" where
  "fd_laws env opened \<longleftrightarrow>
     (\<forall>w fd w'. PR_CreateIOLayerStub env w = (fd, w') \<longrightarrow>
        (if fd = None then opened w' = opened w else fd \<notin> opened w \<and> opened w' = insert fd (opened w))) \<and>
     (\<forall>w base fd w'. SSL_ImportFD env base w = (fd, w') \<longrightarrow> base \<in> opened w \<longrightarrow>
        (if fd = None then opened w' = opened w
         else fd \<notin> opened w - {base} \<and> opened w' = insert fd (opened w - {base}))) \<and>
     (\<forall>fd w. opened (snd (PR_Close env fd w)) = opened w - {fd}) \<and>
     calls_steady env opened"

definition client_fd_laws :: "('r, 'k, 'w) client_env \<Rightarrow> ('w \<Rightarrow> ptr set) \<Rightarrow> bool" where
  "client_fd_laws env opened \<longleftrightarrow> fd_laws (cl_nss env) opened \<and> (\<forall>fd u. steady opened (SSL_SetURL env fd u)) \<and>
     (\<forall>fd. steady opened (SSL_SetResumptionTokenCallback env fd)) \<and> (\<forall>fd b. steady opened (SSL_EnableTls13GreaseEch env fd b))"

definition server_fd_laws :: "('r, 'k, 'w) server_env \<Rightarrow> ('w \<Rightarrow> ptr set) \<Rightarrow> bool" where
  "server_fd_laws env opened \<longleftrightarrow> fd_laws (sv_nss env) opened \<and> (\<forall>fd c k x. steady opened (SSL_ConfigServerCert env fd c k x))"

section \<open>Calls that open and close nothing\<close>

text \<open>The result of a method of the agent \<open>a\<close> in which the descriptor and those open are as in \<open>a\<close>.\<close>

definition calm :: "('w \<Rightarrow> 'v) \<Rightarrow> 'w agent \<Rightarrow> 'x \<times> 'w agent \<Rightarrow> bool" where
  "calm opened a r \<longleftrightarrow> opened (ag_world (snd r)) = opened (ag_world a) \<and> ag_fd (snd r) = ag_fd a"

named_theorems calm_intros \<open>calls that open and close no descriptor\<close>

lemma calm_return [calm_intros]: "calm opened a (r, a)"
  by (simp add: calm_def)

lemma calm_call [calm_intros]: "steady opened f \<Longrightarrow> calm opened a (nss_call f a)"
  by (simp add: calm_def steady_def nss_call_def split_beta)

lemma calm_then [calm_intros]:
  assumes "calm opened a r" and "\<And>x b. calm opened b (k x b)"
  shows "calm opened a (and_then r k)"
  using assms(1) assms(2) [of "snd r"] by (cases r; cases "fst r") (auto simp: calm_def)

lemma calm_try [calm_intros]: "(\<And>x. calm opened a (k x)) \<Longrightarrow> calm opened a (try_st r a k)"
  by (cases r) (simp_all add: calm_def)

lemma calm_if [calm_intros]: "(P \<Longrightarrow> calm opened a r) \<Longrightarrow> (\<not> P \<Longrightarrow> calm opened a q) \<Longrightarrow> calm opened a (if P then r else q)"
  by simp

lemma steady_ciphers:
  assumes "\<And>c. steady opened (SSL_CipherPrefSet env fd c v)"
  shows "steady opened (set_cipher_prefs env fd v cs)"
proof -
  have "opened (snd (set_cipher_prefs env fd v cs w)) = opened w" for w
  proof (induction cs arbitrary: w)
    case (Cons c cs)
    then show ?case
      using assms [of c] by (cases "SSL_CipherPrefSet env fd c v w"; cases "fst (SSL_CipherPrefSet env fd c v w)")
        (auto simp: steady_def bind_st_def dest: spec [of _ w])
  qed simp
  then show ?thesis by (simp add: steady_def)
qed

lemma fd_laws_steady: "fd_laws env opened \<Longrightarrow> calls_steady env opened"
  by (simp add: fd_laws_def)

lemma calm_config:
  assumes "fd_laws env opened"
  shows "calm opened a (set_option env opt v a)" and "calm opened a (set_version_range env lo hi a)"
    and "calm opened a (set_ciphers env cs a)" and "calm opened a (set_groups env gs a)"
    and "calm opened a (set_signature_schemes env ss a)" and "calm opened a (send_additional_key_shares env n a)"
    and "calm opened a (set_alpn env ps a)" and "calm opened a (agent_set_certificate_compression env c a)"
    and "calm opened a (extension_handler env x a)"
proof -
  note laws = fd_laws_steady [OF assms, unfolded calls_steady_def]
  show "calm opened a (set_option env opt v a)" "calm opened a (set_version_range env lo hi a)"
    "calm opened a (set_groups env gs a)" "calm opened a (set_signature_schemes env ss a)"
    "calm opened a (send_additional_key_shares env n a)" "calm opened a (set_alpn env ps a)"
    using laws by (auto simp: set_option_def opt_set_def set_version_range_def set_groups_def set_signature_schemes_def
        send_additional_key_shares_def set_alpn_def Let_def intro!: calm_intros)
  show "calm opened a (set_ciphers env cs a)"
    using laws by (auto simp: set_ciphers_def intro!: calm_intros steady_ciphers)
  show "calm opened a (agent_set_certificate_compression env c a)"
    using laws by (auto simp: agent_set_certificate_compression_def set_certificate_compression_def steady_def intro!: calm_intros)
  show "calm opened a (extension_handler env x a)"
  proof -
    have "calm opened a (nss_call (extension_tracker_new env (ag_fd a) x) a)" using laws by (auto intro: calm_call)
    then show ?thesis
      by (cases "nss_call (extension_tracker_new env (ag_fd a) x) a"; cases "fst (nss_call (extension_tracker_new env (ag_fd a) x) a)")
        (auto simp: extension_handler_def calm_def)
  qed
qed

lemma calm_ready:
  assumes "fd_laws env opened"
  shows "calm opened a (agent_ready env is_server grease a)"
  unfolding agent_ready_def configure_def Let_def
  by (intro calm_intros calm_config [OF assms]) (use fd_laws_steady [OF assms] in \<open>simp_all add: calls_steady_def\<close>)

lemma calm_ech: "client_fd_laws env opened \<Longrightarrow> calm opened a (client_enable_ech env [] a)"
  by (simp add: client_enable_ech_def calm_def nss_call_def split_beta client_fd_laws_def steady_def)

lemma calm_configure_quic:
  assumes "client_fd_laws (ce_client env) opened"
  shows "calm opened a (configure_quic env version mlkem is_client protocols a)"
proof -
  have fd: "fd_laws (ce_nss env) opened" using assms by (simp add: client_fd_laws_def)
  show ?thesis
    unfolding configure_quic_def firefox_client_def Let_def enable_0rtt_def disable_end_of_early_data_def
    by (intro calm_intros calm_config [OF fd] calm_ech assms)
qed

lemma calm_certs: "server_fd_laws env opened \<Longrightarrow> calm opened a (config_certs env extra ns a)"
proof (induction ns arbitrary: a)
  case (Cons n ns)
  then show ?case by (auto simp: server_fd_laws_def split_beta intro!: calm_intros)
qed (simp add: calm_return)

lemma calm_certs_with: "server_fd_laws env opened \<Longrightarrow> calm opened a (config_certs_with env ocsp scts ns a)"
proof (induction ns arbitrary: a)
  case (Cons n ns)
  then show ?case by (auto simp: server_fd_laws_def split_beta intro!: calm_intros)
qed (simp add: calm_return)

section \<open>Creating and dropping an agent\<close>

lemma fd_laws_calls:
  assumes "fd_laws env opened"
  shows "PR_CreateIOLayerStub env w = (fd, w') \<Longrightarrow>
      if fd = None then opened w' = opened w else fd \<notin> opened w \<and> opened w' = insert fd (opened w)"
    and "SSL_ImportFD env base w = (fd, w') \<Longrightarrow> base \<in> opened w \<Longrightarrow>
      if fd = None then opened w' = opened w
      else fd \<notin> opened w - {base} \<and> opened w' = insert fd (opened w - {base})"
    and "opened (snd (PR_Close env fd w)) = opened w - {fd}"
  using assms unfolding fd_laws_def by metis+

lemma agent_new_opens:
  assumes "fd_laws env opened"
  shows "case agent_new env w of
      (Ok a, w') \<Rightarrow> ag_world a = w' \<and> ag_raw a = None \<and> ag_fd a \<noteq> None \<and> ag_fd a \<notin> opened w \<and>
        opened w' = insert (ag_fd a) (opened w)
    | (Err e, w') \<Rightarrow> opened w' = opened w
    | (Panic, w') \<Rightarrow> True"
proof -
  obtain base w1 where b: "PR_CreateIOLayerStub env w = (base, w1)" by fastforce
  obtain fd w2 where f: "SSL_ImportFD env base w1 = (fd, w2)" by fastforce
  have b': "if base = None then opened w1 = opened w else base \<notin> opened w \<and> opened w1 = insert base (opened w)"
    and f': "base \<noteq> None \<longrightarrow> (if fd = None then opened w2 = opened w1 else fd \<notin> opened w1 - {base} \<and> opened w2 = insert fd (opened w1 - {base}))"
    and c: "opened (snd (PR_Close env base w2)) = opened w2 - {base}"
    using fd_laws_calls [OF assms] b f by (metis insertI1)+
  show ?thesis
    using b' f' c
    by (cases "is_initialized env w"; cases "base = None"; cases "fd = None")
      (simp_all add: agent_new_def create_fd_def assert_that_def b f, clarsimp?)
qed

lemma callbacks_world [simp]: "ag_world (fold nss_callback events a) = ag_world a" "ag_fd (fold nss_callback events a) = ag_fd a"
proof -
  have "ag_world (nss_callback e b) = ag_world b \<and> ag_fd (nss_callback e b) = ag_fd b" for e and b :: "'a agent"
    by (cases e) (auto simp: auth_complete_hook_def alert_sent_cb_def)
  then have "ag_world (fold nss_callback events a) = ag_world a \<and> ag_fd (fold nss_callback events a) = ag_fd a"
    by (induction events arbitrary: a) simp_all
  then show "ag_world (fold nss_callback events a) = ag_world a" "ag_fd (fold nss_callback events a) = ag_fd a" by simp_all
qed

lemma calm_capture: "calm opened a (r, b) \<Longrightarrow> calm opened a (capture_error env r b)"
  by (cases r) (simp_all add: capture_error_def calm_def Let_def)

lemma calm_setup_raw:
  assumes "fd_laws env opened"
  shows "calm opened a (setup_raw env a)"
proof -
  have st: "steady opened (secrets_register env fd)" "steady opened (record_list_setup env fd)" for fd
    using fd_laws_steady [OF assms] by (simp_all add: calls_steady_def)
  have "calm opened b (bind_st (nss_call (secrets_register env fd) b) (\<lambda>_ a. (Ok (), a\<lparr>ag_raw := Some True\<rparr>)) id)" for b fd
    by (rule calm_then [OF calm_call [OF st(1)]]) (simp add: calm_def)
  then have "calm opened a (set_raw env True a)"
    by (simp add: set_raw_def calm_return split: option.split)
  moreover have "calm opened b (let (r, a) = nss_call (record_list_setup env (ag_fd b)) b in capture_error env r a)" for b
    using calm_call [OF st(2), of b "ag_fd b"] by (auto intro: calm_capture split: prod.split)
  ultimately show ?thesis unfolding setup_raw_def by (rule calm_then)
qed

lemma agent_close_closes:
  assumes "fd_laws env opened" and "agent_close env a = (Ok u, b)"
  shows "opened (ag_world b) = (if ag_fd a = None then opened (ag_world a) else opened (ag_world a) - {ag_fd a})"
proof (cases "ag_fd a = None")
  case False
  have close: "opened (ag_world (pr_close env c)) = opened (ag_world c) - {ag_fd c}" for c
    using fd_laws_calls(3) [OF assms(1)] by (simp add: pr_close_def split_beta)
  have io: "opened (snd (io_take_output env w)) = opened w" "opened (io_wrap env x w) = opened w"
    "opened (io_unwrap env w) = opened w" for w x
    using fd_laws_steady [OF assms(1)] by (simp_all add: calls_steady_def steady_def)
  show ?thesis
  proof (cases "ag_raw a = Some True")
    case True
    obtain r c where c: "setup_raw env a = (r, c)" by fastforce
    with calm_setup_raw [OF assms(1), of a] have calm: "opened (ag_world c) = opened (ag_world a)" "ag_fd c = ag_fd a"
      by (simp_all add: calm_def)
    have "opened (ag_world b) = opened (ag_world (pr_close env c))"
      using assms(2) False True by (cases r) (simp_all add: agent_close_def c, force simp: io)
    then show ?thesis using False by (cases "ag_fd a") (simp_all add: close calm)
  next
    case False
    then show ?thesis
      using assms(2) \<open>ag_fd a \<noteq> None\<close> by (auto simp: agent_close_def Let_def close io)
  qed
qed (use assms(2) in \<open>simp add: agent_close_def\<close>)

lemma built_releases:
  assumes "fd_laws env opened" and "calm opened a r" and "ag_fd a \<noteq> None"
  shows "case built env mk r of
      (Ok c, w') \<Rightarrow> c = mk (snd r) \<and> opened w' = opened (ag_world a) \<and> ag_fd (snd r) = ag_fd a
    | (Err e, w') \<Rightarrow> opened w' = opened (ag_world a) - {ag_fd a}
    | (Panic, w') \<Rightarrow> True"
proof -
  obtain q b where r: "r = (q, b)" by fastforce
  have b: "opened (ag_world b) = opened (ag_world a)" "ag_fd b = ag_fd a"
    using assms(2) by (simp_all add: r calm_def)
  show ?thesis
  proof (cases q)
    case (Err e)
    obtain p c where "agent_close env b = (p, c)" by fastforce
    then show ?thesis
      using agent_close_closes [OF assms(1), of b] b assms(3) by (cases p) (auto simp: built_def r Err)
  qed (simp_all add: built_def r b)
qed

section \<open>No descriptor is lost\<close>

text \<open>A constructor that opens one new descriptor, that of what it makes, or leaves the descriptors as they were.\<close>

definition opens_one ::
  "('w \<Rightarrow> ptr set) \<Rightarrow> 'w \<Rightarrow> ('c \<Rightarrow> ptr) \<Rightarrow> (nss_error, 'c) result \<times> 'w \<Rightarrow> bool" where
  "opens_one opened w g r =
     (case r of
        (Ok c, w') \<Rightarrow> g c \<notin> opened w \<and> opened w' = insert (g c) (opened w)
      | (Err e, w') \<Rightarrow> opened w' = opened w
      | (Panic, w') \<Rightarrow> True)"

lemma constructed_releases:
  assumes "fd_laws env opened" and "\<And>a. calm opened a (f a)" and "\<And>a. g (mk a) = ag_fd a"
  shows "opens_one opened w g (and_then (agent_new env w) (\<lambda>a w. built env mk (f a)))"
proof -
  obtain q w1 where new: "agent_new env w = (q, w1)" by fastforce
  show ?thesis
  proof (cases q)
    case (Ok a)
    then have a: "ag_world a = w1" "ag_fd a \<noteq> None" "ag_fd a \<notin> opened w" "opened w1 = insert (ag_fd a) (opened w)"
      using agent_new_opens [OF assms(1), of w] by (simp_all add: new)
    obtain p w2 where b: "built env mk (f a) = (p, w2)" by fastforce
    with built_releases [OF assms(1) assms(2) a(2), of mk] a show ?thesis
      by (cases p) (simp_all add: opens_one_def new Ok assms(3))
  qed (use agent_new_opens [OF assms(1), of w] in \<open>simp_all add: opens_one_def new\<close>)
qed

text \<open>
  C14. Creating a client, a server or the cryptography of a connection loses no descriptor: on an error all
  that was opened is closed, the descriptor of the agent that was handed over included, and on success
  exactly one new descriptor is open, that of the agent (\<open>opens_one\<close>), or none for an agent handed over.
\<close>

theorem constructors_close_descriptors:
  fixes env :: "('k, 'a, 'h, 't, 'r, 'b, 'w) crypto_env_all"
  assumes "client_fd_laws (ce_client env) opened" and "server_fd_laws (ce_server env) opened"
    and "ag_fd (agent_deref agent) \<noteq> None"
  shows "opens_one opened w (\<lambda>c. ag_fd (cl_agent c)) (client_new (ce_client env) name grease w) \<and>
    opens_one opened w (\<lambda>s. ag_fd (sv_agent s)) (server_new (ce_server env) certificates w) \<and>
    opens_one opened w (\<lambda>s. ag_fd (sv_agent s)) (new_with_ocsp_and_scts (ce_server env) certificates ocsp scts w) \<and>
    (case crypto_new env version mlkem agent protocols of
       (Ok c, w') \<Rightarrow> ag_fd (agent_deref (cr_tls c)) = ag_fd (agent_deref agent) \<and>
         opened w' = opened (ag_world (agent_deref agent))
     | (Err e, w') \<Rightarrow> opened w' = opened (ag_world (agent_deref agent)) - {ag_fd (agent_deref agent)}
     | (Panic, w') \<Rightarrow> True)"
proof -
  have c: "fd_laws (cl_nss (ce_client env)) opened" and s: "fd_laws (sv_nss (ce_server env)) opened"
    using assms(1,2) by (simp_all add: client_fd_laws_def server_fd_laws_def)
  have "calm opened a (try_st (cstring_new (nul_error (ce_nss env)) name) a (\<lambda>url.
      and_then (nss_call (SSL_SetURL (ce_client env) (ag_fd a) url) a) (\<lambda>_ a.
      and_then (agent_ready (ce_nss env) False grease a) (\<lambda>_ a. client_ready (ce_client env) a))))" for a
    unfolding client_ready_def
    by (intro calm_intros calm_ready [OF c]) (use assms(1) in \<open>simp_all add: client_fd_laws_def\<close>)
  then have client: "opens_one opened w (\<lambda>c. ag_fd (cl_agent c)) (client_new (ce_client env) name grease w)"
    unfolding client_new_def by (rule constructed_releases [OF c]) simp
  have "calm opened a (and_then (config_certs (ce_server env) None certificates a) (\<lambda>_ a. agent_ready (sv_nss (ce_server env)) True True a))" for a
    by (intro calm_then calm_certs calm_ready s assms(2))
  then have server: "opens_one opened w (\<lambda>s. ag_fd (sv_agent s)) (server_new (ce_server env) certificates w)"
    unfolding server_new_def by (rule constructed_releases [OF s]) simp
  have "calm opened a (and_then (config_certs_with (ce_server env) ocsp scts certificates a)
      (\<lambda>_ a. agent_ready (sv_nss (ce_server env)) True True a))" for a
    by (intro calm_then calm_certs_with calm_ready s assms(2))
  then have with_ocsp: "opens_one opened w (\<lambda>s. ag_fd (sv_agent s)) (new_with_ocsp_and_scts (ce_server env) certificates ocsp scts w)"
    unfolding new_with_ocsp_and_scts_def by (rule constructed_releases [OF s]) simp
  let ?mk = "\<lambda>a. \<lparr>cr_version = version, cr_protocols = protocols, cr_tls = agent_deref_put a agent,
         cr_streams = streams_default (ce_streams env), cr_states = crypto_states_default\<rparr> :: ('k, 'a, 'h, 't, 'r, 'w) crypto"
  let ?f = "configure_quic env version mlkem (is_client_agent agent) protocols (agent_deref agent)"
  have tls: "agent_deref (agent_deref_put a agent) = a" for a by (cases agent) simp_all
  obtain q w1 where b: "built (ce_nss env) ?mk ?f = (q, w1)" by fastforce
  have "case crypto_new env version mlkem agent protocols of
       (Ok c, w') \<Rightarrow> ag_fd (agent_deref (cr_tls c)) = ag_fd (agent_deref agent) \<and>
         opened w' = opened (ag_world (agent_deref agent))
     | (Err e, w') \<Rightarrow> opened w' = opened (ag_world (agent_deref agent)) - {ag_fd (agent_deref agent)}
     | (Panic, w') \<Rightarrow> True"
    using built_releases [OF c calm_configure_quic [OF assms(1), of _ version mlkem
        "is_client_agent agent" protocols] assms(3), of ?mk] b
    by (cases q) (simp_all add: crypto_new_def from_crypto_def b tls)
  with client server with_ocsp show ?thesis by blast
qed

text \<open>NSS as the set of its descriptors, the bits of a number; the number itself is never one of its bits.\<close>

definition bit_fds :: "nat \<Rightarrow> ptr set" where
  "bit_fds w = {Some i | i. bit w i}"

definition fd_nss :: "(tls_record, nat list, nat) nss_env" where
  "fd_nss = (sample_nss_of sample_record (\<lambda>w. [w]))
     \<lparr>PR_CreateIOLayerStub := \<lambda>w. (Some w, set_bit w w),
      PR_Close := \<lambda>fd w. ([], case fd of None \<Rightarrow> w | Some i \<Rightarrow> unset_bit i w)\<rparr>"

definition fd_env ::
  "(nat list, nat list, nat list, u64 \<times> bytes \<times> (u64 \<times> usize) list, unit, usize, nat) crypto_env_all" where
  "fd_env = sample_crypto_env
     \<lparr>ce_client := (sample_client_env_of sample_record (\<lambda>w. [w]))\<lparr>cl_nss := fd_nss\<rparr>,
      ce_server := (sample_server_env_of sample_record (\<lambda>w. [w]))\<lparr>sv_nss := fd_nss\<rparr>\<rparr>"

lemma not_bit_self: "\<not> bit w w" for w :: nat
  by (simp add: bit_iff_odd)

lemma bit_fds_set: "bit_fds (set_bit i w) = insert (Some i) (bit_fds w)"
  by (auto simp: bit_fds_def bit_set_bit_iff)

lemma sample_fd_laws: "fd_laws fd_nss bit_fds"
proof -
  have "bit_fds (case fd of None \<Rightarrow> w | Some i \<Rightarrow> unset_bit i w) = bit_fds w - {fd}" for fd w
    by (auto simp: bit_fds_def bit_unset_bit_iff split: option.splits)
  moreover have "Some w \<notin> bit_fds w" for w by (simp add: bit_fds_def not_bit_self)
  moreover have "calls_steady fd_nss bit_fds"
    by (simp add: calls_steady_def steady_def fd_nss_def sample_nss_of_def)
  ultimately show ?thesis
    unfolding fd_laws_def by (auto simp: fd_nss_def sample_nss_of_def bit_fds_set)
qed

theorem constructors_close_descriptors_witness:
  "\<exists>w'. client_new (ce_client fd_env) [97, 0] False 4 = (Err (NssError 3), w') \<and> bit_fds w' = bit_fds 4"
proof -
  have c: "client_fd_laws (ce_client fd_env) bit_fds" and s: "server_fd_laws (ce_server fd_env) bit_fds"
    using sample_fd_laws
    by (simp_all add: client_fd_laws_def server_fd_laws_def fd_env_def sample_client_env_of_def sample_server_env_of_def
        steady_def)
  obtain w' where new: "client_new (ce_client fd_env) [97, 0] False 4 = (Err (NssError 3), w')"
    by (simp add: client_new_def agent_new_def create_fd_def assert_that_def fd_env_def fd_nss_def sample_client_env_of_def
        sample_nss_of_def cstring_new_def built_def agent_close_def pr_close_def)
  have "ag_fd (agent_deref (ClientAgent sample_client)) \<noteq> None"
    by (simp add: sample_client_def sample_agent_def)
  from constructors_close_descriptors [OF c s this, where name = "[97, 0]" and grease = False and w = 4] new have "bit_fds w' = bit_fds 4"
    by (simp add: opens_one_def)
  with new show ?thesis by blast
qed

end
