(* ===== verification/Stream_Builds.thy ===== *)
theory Stream_Builds
  imports Crypto_Streams
begin

text \<open>
  The streams in a debug and a release build. The loop of \<^verbatim>\<open>write_frame\<close> may not end, so that its result
  is optional: a debug run that ends and does not panic is the release run.
\<close>

abbreviation debug_streams :: "('t, 'r, 'b) stream_env \<Rightarrow> ('t, 'r, 'b) stream_env" where
  "debug_streams env \<equiv> env\<lparr>stream_dbg := True\<rparr>"

abbreviation release_streams :: "('t, 'r, 'b) stream_env \<Rightarrow> ('t, 'r, 'b) stream_env" where
  "release_streams env \<equiv> env\<lparr>stream_dbg := False\<rparr>"

definition agrees_run :: "(('e, 'a) result \<times> 's) option \<Rightarrow> (('e, 'a) result \<times> 's) option \<Rightarrow> bool" where
  "agrees_run p q \<longleftrightarrow> (\<forall>x. p = Some x \<and> fst x \<noteq> Panic \<longrightarrow> q = Some x)"

lemma inbound_frame_agrees [build_simps]:
  "agrees_st (inbound_frame (debug_streams env) space offset data s) (inbound_frame (release_streams env) space offset data s)"
  by (auto simp: inbound_frame_def Let_def intro!: build_simps)

lemma write_chunk_agrees [build_simps]:
  "agrees_st (write_chunk (debug_streams env) offset data b) (write_chunk (release_streams env) offset data b)"
  by (auto simp: write_chunk_def Let_def intro!: build_simps)

lemma mark_as_sent_agrees [build_simps]:
  "agrees_st (mark_as_sent (debug_streams env) space offset n fs) (mark_as_sent (release_streams env) space offset n fs)"
  by (auto simp: mark_as_sent_def Let_def intro!: build_simps)

lemma limit_chunks_agrees [build_simps]: "agrees (limit_chunks True l r m) (limit_chunks False l r m)"
  by (cases l; cases r) (auto simp: limit_chunks_def intro!: build_simps)

lemma write_sliced_agrees [build_simps]:
  "agrees_st (write_sliced (debug_streams env) offset data sni b) (write_sliced (release_streams env) offset data sni b)"
  by (auto simp: write_sliced_def Let_def intro!: build_simps)

lemma write_pass_agrees [build_simps]:
  "agrees_st (write_pass (debug_streams env) sni offset data b) (write_pass (release_streams env) sni offset data b)"
  by (auto simp: write_pass_def Let_def intro!: build_simps split: option.split)

lemma write_step_agrees [build_simps]:
  "agrees_st (write_step (debug_streams env) space sni fs) (write_step (release_streams env) space sni fs)"
  by (auto simp: write_step_def Let_def intro!: build_simps split: option.split prod.split)

lemma write_loop_agrees:
  assumes "write_loop (debug_streams env) space sni fs = Some x" and "fst x \<noteq> Panic"
  shows "write_loop (release_streams env) space sni fs = Some x"
proof -
  have "e = debug_streams env \<longrightarrow> fst y \<noteq> Panic \<longrightarrow> write_loop (release_streams env) sp sn gs = Some y"
    if "write_loop e sp sn gs = Some y" for e sp sn gs y
    using that
  proof (induction rule: write_loop.raw_induct [rotated, consumes 1, case_names Loop])
    case (Loop loop e sp sn gs y)
    show ?case
    proof (intro impI)
      assume e: "e = debug_streams env" and y: "fst y \<noteq> Panic"
      obtain r hs where step: "write_step (debug_streams env) sp sn gs = (r, hs)" by fastforce
      with Loop.hyps e y have "r \<noteq> Panic" by (auto split: result.splits)
      then have "write_step (release_streams env) sp sn gs = (r, hs)"
        using write_step_agrees [of env sp sn gs] step by (simp add: agrees_st_def)
      then show "write_loop (release_streams env) sp sn gs = Some y"
        using Loop e y step by (subst write_loop.simps) (auto split: result.splits if_splits)
    qed
  qed
  with assms show ?thesis by blast
qed


end
