(* ===== verification/Client_Hello.thy ===== *)
theory Client_Hello
  imports Connection
begin

text \<open>
  What a client offers once its \<^verbatim>\<open>Crypto\<close> was created. NSS is seen through a function of its state, and
  a law for each call that configures a descriptor says how the call changes what is seen.
\<close>

section \<open>How configuring an agent changes NSS\<close>

definition changes :: "('w \<Rightarrow> 'v) \<Rightarrow> ('v \<Rightarrow> 'v) \<Rightarrow> 'w nss_call \<Rightarrow> bool" where
  "changes view u f \<longleftrightarrow> (\<forall>w w'. f w = (Ok (), w') \<longrightarrow> view w' = u (view w))"

lemma nss_call_changes: "nss_call f a = (Ok (), b) \<Longrightarrow> changes view u f \<Longrightarrow> view (ag_world b) = u (view (ag_world a))"
  by (auto simp: changes_def nss_call_def split: prod.splits)

lemma set_cipher_prefs_changes:
  assumes "\<And>c. changes view (u c) (SSL_CipherPrefSet env fd c v)"
  shows "changes view (fold u cs) (set_cipher_prefs env fd v cs)"
proof -
  have "set_cipher_prefs env fd v cs w = (Ok (), w') \<Longrightarrow> view w' = fold u cs (view w)" for w w'
    using assms by (induction cs arbitrary: w) (auto simp: rust_simps changes_def)
  then show ?thesis by (simp add: changes_def)
qed

lemma fold_same: "fold (\<lambda>_ v. v) xs v = v"
  by (induction xs) simp_all

lemma set_ciphers_changes:
  assumes "set_ciphers env cs a = (Ok (), b)" and "\<And>fd c v. changes view (u v c) (SSL_CipherPrefSet env fd c v)"
  shows "view (ag_world b) = fold (u True) cs (fold (u False) (SSL_GetImplementedCiphers env) (view (ag_world a)))"
proof -
  obtain c where c: "nss_call (set_cipher_prefs env (ag_fd a) False (SSL_GetImplementedCiphers env)) a = (Ok (), c)"
    and b: "nss_call (set_cipher_prefs env (ag_fd c) True cs) c = (Ok (), b)"
    using assms(1) by (auto simp: set_ciphers_def rust_simps split: if_splits)
  from nss_call_changes [OF c set_cipher_prefs_changes] nss_call_changes [OF b set_cipher_prefs_changes] assms(2)
  show ?thesis by metis
qed

lemma configuration_changes:
  assumes "\<And>fd. changes view u (f fd)"
  shows "f = (\<lambda>fd. SSL_OptionSet (ce_nss env) fd (opt_as_int (ce_hdr env) n) (opt_map_enabled n v)) \<Longrightarrow>
      set_option (ce_nss env) n v a = (Ok (), b) \<Longrightarrow> view (ag_world b) = u (view (ag_world a))"
    and "f = (\<lambda>fd. SSL_VersionRangeSet (ce_nss env) fd lo hi) \<Longrightarrow>
      set_version_range (ce_nss env) lo hi a = (Ok (), b) \<Longrightarrow> view (ag_world b) = u (view (ag_world a))"
    and "f = (\<lambda>fd. SSL_NamedGroupConfig (ce_nss env) fd (map ucast gs)) \<Longrightarrow>
      set_groups (ce_nss env) gs a = (Ok (), b) \<Longrightarrow> view (ag_world b) = u (view (ag_world a))"
    and "f = (\<lambda>fd. SSL_SignatureSchemePrefSet (ce_nss env) fd (map ucast ss)) \<Longrightarrow>
      set_signature_schemes (ce_nss env) ss a = (Ok (), b) \<Longrightarrow> view (ag_world b) = u (view (ag_world a))"
    and "f = (\<lambda>fd. SSL_EnableTls13GreaseEch (ce_client env) fd True) \<Longrightarrow>
      client_enable_ech (ce_client env) [] a = (Ok (), b) \<Longrightarrow> view (ag_world b) = u (view (ag_world a))"
    and "f = (\<lambda>fd. SSL_SendAdditionalKeyShares (ce_nss env) fd (ucast k)) \<Longrightarrow>
      send_additional_key_shares (ce_nss env) k a = (Ok (), b) \<Longrightarrow> view (ag_world b) = u (view (ag_world a))"
    and "f = (\<lambda>fd. SSL_SetNextProtoNego (ce_nss env) fd (concat (map alpn_item (rotate1 ps)))) \<Longrightarrow>
      set_alpn (ce_nss env) ps a = (Ok (), b) \<Longrightarrow> view (ag_world b) = u (view (ag_world a))"
    and "f = (\<lambda>fd. extension_tracker_new (ce_nss env) fd x) \<Longrightarrow>
      extension_handler (ce_nss env) x a = (Ok (), b) \<Longrightarrow> view (ag_world b) = u (view (ag_world a))"
proof -
  note call = nss_call_changes [OF _ assms]
  show "view (ag_world b) = u (view (ag_world a))"
    if "f = (\<lambda>fd. SSL_OptionSet (ce_nss env) fd (opt_as_int (ce_hdr env) n) (opt_map_enabled n v))"
      "set_option (ce_nss env) n v a = (Ok (), b)"
    using that call [of "ag_fd a" a b] by (simp add: set_option_def opt_set_def)
  show "view (ag_world b) = u (view (ag_world a))" if "f = (\<lambda>fd. SSL_VersionRangeSet (ce_nss env) fd lo hi)"
    "set_version_range (ce_nss env) lo hi a = (Ok (), b)"
    using that call [of "ag_fd a" a b] by (simp add: set_version_range_def)
  show "view (ag_world b) = u (view (ag_world a))" if "f = (\<lambda>fd. SSL_NamedGroupConfig (ce_nss env) fd (map ucast gs))"
    "set_groups (ce_nss env) gs a = (Ok (), b)"
    using that call [of "ag_fd a" a b] by (auto simp: set_groups_def rust_simps Let_def)
  show "view (ag_world b) = u (view (ag_world a))" if "f = (\<lambda>fd. SSL_SignatureSchemePrefSet (ce_nss env) fd (map ucast ss))"
    "set_signature_schemes (ce_nss env) ss a = (Ok (), b)"
    using that call [of "ag_fd a" a b] by (auto simp: set_signature_schemes_def rust_simps Let_def)
  show "view (ag_world b) = u (view (ag_world a))" if "f = (\<lambda>fd. SSL_EnableTls13GreaseEch (ce_client env) fd True)"
    "client_enable_ech (ce_client env) [] a = (Ok (), b)"
    using that call [of "ag_fd a" "a\<lparr>ag_ech_config := []\<rparr>" b] by (simp add: client_enable_ech_def)
  show "view (ag_world b) = u (view (ag_world a))" if "f = (\<lambda>fd. SSL_SendAdditionalKeyShares (ce_nss env) fd (ucast k))"
    "send_additional_key_shares (ce_nss env) k a = (Ok (), b)"
    using that call [of "ag_fd a" a b]
    by (auto simp: send_additional_key_shares_def rust_simps u32_try_from_def split: if_splits)
  show "view (ag_world b) = u (view (ag_world a))"
    if "f = (\<lambda>fd. SSL_SetNextProtoNego (ce_nss env) fd (concat (map alpn_item (rotate1 ps))))"
      "set_alpn (ce_nss env) ps a = (Ok (), b)"
    using that call [of "ag_fd a" a b] by (auto simp: set_alpn_def alpn_encode_cases rust_simps Let_def split: if_splits)
  show "view (ag_world b) = u (view (ag_world a))" if f: "f = (\<lambda>fd. extension_tracker_new (ce_nss env) fd x)"
    and x: "extension_handler (ce_nss env) x a = (Ok (), b)"
  proof -
    obtain c where "nss_call (extension_tracker_new (ce_nss env) (ag_fd a) x) a = (Ok (), c)" "ag_world b = ag_world c"
      using x by (auto simp: extension_handler_def rust_simps)
    with f call [of "ag_fd a" a c] show ?thesis by simp
  qed
qed

lemma compression_changes:
  assumes "agent_set_certificate_compression env c a = (Ok (), b)"
    and "\<And>fd alg. changes view (u (alg_id alg)) (SSL_SetCertificateCompressionAlgorithm env fd alg)"
  shows "view (ag_world b) = u (cc_id c) (view (ag_world a))"
  using assms(1) nss_call_changes [OF _ assms(2)]
  by (auto simp: agent_set_certificate_compression_def set_certificate_compression_def nss_call_def split: if_splits prod.splits)

section \<open>The options of a client\<close>

text \<open>
  \<open>opts w\<close> is the value NSS has for each option. Setting an option changes that option, and the other
  functions that configure a client do not change any.
\<close>

abbreviation keeps :: "('w \<Rightarrow> 'v) \<Rightarrow> 'w nss_call \<Rightarrow> bool" where
  "keeps view \<equiv> changes view (\<lambda>v. v)"

definition option_laws ::
  "('k, 'a, 'h, 't, 'r, 'b, 'w) crypto_env_all \<Rightarrow> ('w \<Rightarrow> u32 \<Rightarrow> int) \<Rightarrow> bool" where
  "option_laws env opts \<longleftrightarrow>
     (\<forall>fd n v. changes opts (\<lambda>f. f(n := v)) (SSL_OptionSet (ce_nss env) fd n v)) \<and>
     (\<forall>fd lo hi. keeps opts (SSL_VersionRangeSet (ce_nss env) fd lo hi)) \<and>
     (\<forall>fd c b. keeps opts (SSL_CipherPrefSet (ce_nss env) fd c b)) \<and>
     (\<forall>fd gs. keeps opts (SSL_NamedGroupConfig (ce_nss env) fd gs)) \<and>
     (\<forall>fd ss. keeps opts (SSL_SignatureSchemePrefSet (ce_nss env) fd ss)) \<and>
     (\<forall>fd b. keeps opts (SSL_EnableTls13GreaseEch (ce_client env) fd b)) \<and>
     (\<forall>fd alg. keeps opts (SSL_SetCertificateCompressionAlgorithm (ce_nss env) fd alg)) \<and>
     (\<forall>fd n. keeps opts (SSL_SendAdditionalKeyShares (ce_nss env) fd n)) \<and>
     (\<forall>fd e. keeps opts (SSL_SetNextProtoNego (ce_nss env) fd e)) \<and>
     (\<forall>fd x. keeps opts (extension_tracker_new (ce_nss env) fd x))"

text \<open>The options that the fingerprint of a client depends on have different numbers.\<close>

abbreviation client_opts :: "opt list" where
  "client_opts \<equiv> [Grease, EnableChExtensionPermutation, SignedCertificateTimestamps, DelegatedCredentials,
     EarlyData, SuppressEndOfEarlyData]"

lemma option_effects:
  assumes "option_laws env opts"
  shows "set_option (ce_nss env) n v a = (Ok (), b) \<Longrightarrow>
      opts (ag_world b) = (opts (ag_world a))(opt_as_int (ce_hdr env) n := opt_map_enabled n v)"
    and "set_version_range (ce_nss env) lo hi a = (Ok (), b) \<Longrightarrow> opts (ag_world b) = opts (ag_world a)"
    and "set_ciphers (ce_nss env) cs a = (Ok (), b) \<Longrightarrow> opts (ag_world b) = opts (ag_world a)"
    and "set_groups (ce_nss env) gs a = (Ok (), b) \<Longrightarrow> opts (ag_world b) = opts (ag_world a)"
    and "set_signature_schemes (ce_nss env) ss a = (Ok (), b) \<Longrightarrow> opts (ag_world b) = opts (ag_world a)"
    and "client_enable_ech (ce_client env) [] a = (Ok (), b) \<Longrightarrow> opts (ag_world b) = opts (ag_world a)"
    and "agent_set_certificate_compression (ce_nss env) c a = (Ok (), b) \<Longrightarrow> opts (ag_world b) = opts (ag_world a)"
    and "send_additional_key_shares (ce_nss env) k a = (Ok (), b) \<Longrightarrow> opts (ag_world b) = opts (ag_world a)"
    and "set_alpn (ce_nss env) ps a = (Ok (), b) \<Longrightarrow> opts (ag_world b) = opts (ag_world a)"
    and "extension_handler (ce_nss env) x a = (Ok (), b) \<Longrightarrow> opts (ag_world b) = opts (ag_world a)"
  using assms
    configuration_changes(1) [where view = opts and u = "\<lambda>f. f(opt_as_int (ce_hdr env) n := opt_map_enabled n v)" and
      env = env and n = n and v = v, OF _ refl]
    set_ciphers_changes [where view = opts and u = "\<lambda>_ _ v. v" and env = "ce_nss env" and cs = cs and a = a and b = b, unfolded fold_same]
    compression_changes [where view = opts and u = "\<lambda>_ v. v" and env = "ce_nss env" and c = c and a = a and b = b]
    configuration_changes(2-) [where view = opts and u = "\<lambda>v. v" and env = env, OF _ refl]
  by (simp_all add: option_laws_def)

lemma configure_quic_options:
  assumes "option_laws env opts" and "configure_quic env v ml True ps a = (Ok (), b)"
    and "distinct (map (opt_as_int (ce_hdr env)) client_opts)"
  shows "map (\<lambda>n. opts (ag_world b) (opt_as_int (ce_hdr env) n)) client_opts = [0, 0, 1, 1, 1, 1]"
  using assms(2,3)
  by (auto simp: configure_quic_def firefox_client_def rust_simps Let_def enable_0rtt_def disable_end_of_early_data_def
      opt_map_enabled_def dest!: option_effects [OF assms(1)])

text \<open>
  A client whose \<^verbatim>\<open>Crypto\<close> was created offers what Firefox offers: no GREASE and a fixed order of
  extensions, signed certificate timestamps, delegated credentials and early data without its end
  marker, whatever the options were before.
\<close>

lemma client_offers_like_firefox:
  assumes "option_laws env opts" and "distinct (map (opt_as_int (ce_hdr env)) client_opts)"
    and "crypto_new env version mlkem (ClientAgent cl) protocols = (Ok c, w)"
  shows "map (\<lambda>n. opts w (opt_as_int (ce_hdr env) n))
     [Grease, EnableChExtensionPermutation, SignedCertificateTimestamps, DelegatedCredentials,
      EarlyData, SuppressEndOfEarlyData] = [0, 0, 1, 1, 1, 1]"
proof -
  obtain b where "configure_quic env version mlkem True protocols (cl_agent cl) = (Ok (), b)" and "w = ag_world b"
    using assms(3) by (auto simp: crypto_new_def built_def from_crypto_def split: prod.splits result.splits)
  with configure_quic_options [OF assms(1) _ assms(2)] show ?thesis by blast
qed

definition sample_opt_hdr :: headers where
  "sample_opt_hdr s =
     (if s = ''SSL_ENABLE_GREASE'' then 28 else if s = ''SSL_ENABLE_CH_EXTENSION_PERMUTATION'' then 41
      else if s = ''SSL_ENABLE_SIGNED_CERT_TIMESTAMPS'' then 30 else if s = ''SSL_ENABLE_0RTT_DATA'' then 33
      else if s = ''SSL_SUPPRESS_END_OF_EARLY_DATA'' then 36 else 1)"

definition sample_opt_nss :: "(tls_record, nat list, nat) nss_env" where
  "sample_opt_nss = (sample_nss_of sample_record (\<lambda>w. [w]))
     \<lparr>env_hdr := sample_opt_hdr,
      SSL_OptionSet := \<lambda>_ n v w. (if v = 0 then (Ok (), unset_bit (unat n) w)
        else if v = 1 then (Ok (), set_bit (unat n) w) else (Err (NssError 7), w))\<rparr>"

definition sample_opt_env ::
  "(nat list, nat list, nat list, u64 \<times> bytes \<times> (u64 \<times> usize) list, unit, usize, nat) crypto_env_all" where
  "sample_opt_env = sample_crypto_env\<lparr>ce_client := (sample_client_env_of sample_record (\<lambda>w. [w]))\<lparr>cl_nss := sample_opt_nss\<rparr>\<rparr>"

definition sample_opts :: "nat \<Rightarrow> u32 \<Rightarrow> int" where
  "sample_opts w n = of_bool (bit w (unat n))"

lemma sample_opt_hdr_simps [simp]: "ce_nss sample_opt_env = sample_opt_nss" "env_hdr sample_opt_nss = sample_opt_hdr"
  by (simp_all add: sample_opt_env_def sample_opt_nss_def)

lemma sample_option_laws: "option_laws sample_opt_env sample_opts"
proof -
  have "sample_opts w' = (sample_opts w)(n := v)" if "SSL_OptionSet sample_opt_nss fd n v w = (Ok (), w')" for fd n v w w'
    using that by (auto simp: sample_opt_nss_def sample_opts_def fun_eq_iff bit_set_bit_iff bit_unset_bit_iff
        word_unat_eq_iff split: if_splits)
  moreover have "ce_client sample_opt_env = (sample_client_env_of sample_record (\<lambda>w. [w]))\<lparr>cl_nss := sample_opt_nss\<rparr>"
    by (simp add: sample_opt_env_def)
  ultimately show ?thesis
    by (auto simp: option_laws_def changes_def sample_opt_nss_def sample_nss_of_def sample_client_env_of_def)
qed

lemma client_offers_like_firefox_witness:
  "\<exists>c w. crypto_new sample_opt_env Version1 False (ClientAgent sample_client) [[104, 51]] = (Ok c, w) \<and>
     map (\<lambda>n. sample_opts w (opt_as_int sample_opt_hdr n))
       [Grease, EnableChExtensionPermutation, SignedCertificateTimestamps, DelegatedCredentials,
        EarlyData, SuppressEndOfEarlyData] = [0, 0, 1, 1, 1, 1]"
proof -
  have "distinct (map (opt_as_int (ce_hdr sample_opt_env)) client_opts)"
    by (simp add: sample_opt_hdr_def)
  note offers = client_offers_like_firefox [OF sample_option_laws this, unfolded sample_opt_hdr_simps]
  have "fst (crypto_new sample_opt_env Version1 False (ClientAgent sample_client) [[104, 51]]) \<noteq> Panic \<and>
      (\<forall>e. fst (crypto_new sample_opt_env Version1 False (ClientAgent sample_client) [[104, 51]]) \<noteq> Err e)"
    by (simp add: crypto_new_def configure_quic_def firefox_client_def built_def sample_opt_env_def sample_opt_nss_def
      sample_crypto_env_def sample_client_env_of_def sample_client_def from_crypto_def tp_extension_def quic_groups_def
      set_version_range_def set_ciphers_def set_groups_def set_option_def set_signature_schemes_def client_enable_ech_def
      agent_set_certificate_compression_def send_additional_key_shares_def enable_0rtt_def opt_set_def set_alpn_def
      disable_end_of_early_data_def extension_handler_def nss_call_def sample_nss_of_def sample_agent_def
      set_certificate_compression_def Zlib_def Brotli_def Zstd_def count_u32_cases u32_try_from_def
      alpn_encode_def alpn_add_def opt_map_enabled_def)
  then obtain c w where "crypto_new sample_opt_env Version1 False (ClientAgent sample_client) [[104, 51]] = (Ok c, w)"
    by (cases "crypto_new sample_opt_env Version1 False (ClientAgent sample_client) [[104, 51]]";
        cases "fst (crypto_new sample_opt_env Version1 False (ClientAgent sample_client) [[104, 51]])") auto
  with offers show ?thesis by blast
qed

section \<open>The whole offer\<close>

text \<open>
  What NSS will write into the ClientHello of a descriptor. The laws say which part each call sets; an
  extension and a compression algorithm are added to those already there.
\<close>

record hello_config =
  hc_versions :: "u16 \<times> u16"
  hc_ciphers :: "cipher \<Rightarrow> bool"
  hc_groups :: "u32 list"
  hc_options :: "u32 \<Rightarrow> int"
  hc_schemes :: "u32 list"
  hc_grease_ech :: bool
  hc_compression :: "u16 list"
  hc_key_shares :: u32
  hc_protocols :: bytes
  hc_extensions :: "u16 list"

definition hello_laws ::
  "('k, 'a, 'h, 't, 'r, 'b, 'w) crypto_env_all \<Rightarrow> ('w \<Rightarrow> hello_config) \<Rightarrow> bool" where
  "hello_laws env view \<longleftrightarrow>
     (\<forall>fd n v. changes view (\<lambda>h. h\<lparr>hc_options := (hc_options h)(n := v)\<rparr>) (SSL_OptionSet (ce_nss env) fd n v)) \<and>
     (\<forall>fd lo hi. changes view (hc_versions_update (\<lambda>_. (lo, hi))) (SSL_VersionRangeSet (ce_nss env) fd lo hi)) \<and>
     (\<forall>fd c b. changes view (\<lambda>h. h\<lparr>hc_ciphers := (hc_ciphers h)(c := b)\<rparr>) (SSL_CipherPrefSet (ce_nss env) fd c b)) \<and>
     (\<forall>fd gs. changes view (hc_groups_update (\<lambda>_. gs)) (SSL_NamedGroupConfig (ce_nss env) fd gs)) \<and>
     (\<forall>fd ss. changes view (hc_schemes_update (\<lambda>_. ss)) (SSL_SignatureSchemePrefSet (ce_nss env) fd ss)) \<and>
     (\<forall>fd b. changes view (hc_grease_ech_update (\<lambda>_. b)) (SSL_EnableTls13GreaseEch (ce_client env) fd b)) \<and>
     (\<forall>fd alg. changes view (\<lambda>h. h\<lparr>hc_compression := hc_compression h @ [alg_id alg]\<rparr>)
        (SSL_SetCertificateCompressionAlgorithm (ce_nss env) fd alg)) \<and>
     (\<forall>fd n. changes view (hc_key_shares_update (\<lambda>_. n)) (SSL_SendAdditionalKeyShares (ce_nss env) fd n)) \<and>
     (\<forall>fd e. changes view (hc_protocols_update (\<lambda>_. e)) (SSL_SetNextProtoNego (ce_nss env) fd e)) \<and>
     (\<forall>fd x. changes view (\<lambda>h. h\<lparr>hc_extensions := hc_extensions h @ [x]\<rparr>) (extension_tracker_new (ce_nss env) fd x))"

lemma fold_ciphers:
  "fold (\<lambda>c h. h\<lparr>hc_ciphers := (hc_ciphers h)(c := b)\<rparr>) cs h =
     h\<lparr>hc_ciphers := \<lambda>c. if c \<in> set cs then b else hc_ciphers h c\<rparr>"
  by (induction cs arbitrary: h) (auto simp: fun_eq_iff)

lemma set_alpn_fits: "set_alpn env ps a = (Ok (), b) \<Longrightarrow> list_all alpn_fits ps"
  by (auto simp: set_alpn_def alpn_encode_cases rust_simps Let_def split: if_splits)

lemma hello_effects:
  assumes "hello_laws env view"
  shows "set_option (ce_nss env) n v a = (Ok (), b) \<Longrightarrow>
      view (ag_world b) = (view (ag_world a))
        \<lparr>hc_options := (hc_options (view (ag_world a)))(opt_as_int (ce_hdr env) n := opt_map_enabled n v)\<rparr>"
    and "set_version_range (ce_nss env) lo hi a = (Ok (), b) \<Longrightarrow>
      view (ag_world b) = (view (ag_world a))\<lparr>hc_versions := (lo, hi)\<rparr>"
    and "set_ciphers (ce_nss env) cs a = (Ok (), b) \<Longrightarrow>
      view (ag_world b) = (view (ag_world a))\<lparr>hc_ciphers := \<lambda>c. c \<in> set cs \<or>
        c \<notin> set (SSL_GetImplementedCiphers (ce_nss env)) \<and> hc_ciphers (view (ag_world a)) c\<rparr>"
    and "set_groups (ce_nss env) gs a = (Ok (), b) \<Longrightarrow>
      view (ag_world b) = (view (ag_world a))\<lparr>hc_groups := map ucast gs\<rparr>"
    and "set_signature_schemes (ce_nss env) ss a = (Ok (), b) \<Longrightarrow>
      view (ag_world b) = (view (ag_world a))\<lparr>hc_schemes := map ucast ss\<rparr>"
    and "client_enable_ech (ce_client env) [] a = (Ok (), b) \<Longrightarrow>
      view (ag_world b) = (view (ag_world a))\<lparr>hc_grease_ech := True\<rparr>"
    and "agent_set_certificate_compression (ce_nss env) c a = (Ok (), b) \<Longrightarrow>
      view (ag_world b) = (view (ag_world a))\<lparr>hc_compression := hc_compression (view (ag_world a)) @ [cc_id c]\<rparr>"
    and "send_additional_key_shares (ce_nss env) k a = (Ok (), b) \<Longrightarrow>
      view (ag_world b) = (view (ag_world a))\<lparr>hc_key_shares := ucast k\<rparr>"
    and "set_alpn (ce_nss env) ps a = (Ok (), b) \<Longrightarrow>
      view (ag_world b) = (view (ag_world a))\<lparr>hc_protocols := concat (map alpn_item (rotate1 ps))\<rparr> \<and> list_all alpn_fits ps"
    and "extension_handler (ce_nss env) x a = (Ok (), b) \<Longrightarrow>
      view (ag_world b) = (view (ag_world a))\<lparr>hc_extensions := hc_extensions (view (ag_world a)) @ [x]\<rparr>"
  using assms
    configuration_changes(1) [where view = view and env = env and n = n and v = v and a = a and b = b and
      u = "\<lambda>h. h\<lparr>hc_options := (hc_options h)(opt_as_int (ce_hdr env) n := opt_map_enabled n v)\<rparr>", OF _ refl]
    configuration_changes(2) [where view = view and lo = lo and hi = hi and u = "hc_versions_update (\<lambda>_. (lo, hi))" and env = env and a = a and b = b, OF _ refl]
    set_ciphers_changes [where view = view and u = "\<lambda>v c h. h\<lparr>hc_ciphers := (hc_ciphers h)(c := v)\<rparr>" and
      env = "ce_nss env" and cs = cs and a = a and b = b]
    configuration_changes(3) [where view = view and gs = gs and u = "hc_groups_update (\<lambda>_. map ucast gs)" and env = env and a = a and b = b, OF _ refl]
    configuration_changes(4) [where view = view and ss = ss and u = "hc_schemes_update (\<lambda>_. map ucast ss)" and env = env and a = a and b = b, OF _ refl]
    configuration_changes(5) [where view = view and u = "hc_grease_ech_update (\<lambda>_. True)" and env = env and a = a and b = b, OF _ refl]
    compression_changes [where view = view and u = "\<lambda>i h. h\<lparr>hc_compression := hc_compression h @ [i]\<rparr>" and
      env = "ce_nss env" and c = c and a = a and b = b]
    configuration_changes(6) [where view = view and k = k and u = "hc_key_shares_update (\<lambda>_. ucast k)" and env = env and a = a and b = b, OF _ refl]
    configuration_changes(7) [where view = view and ps = ps and u = "hc_protocols_update (\<lambda>_. concat (map alpn_item (rotate1 ps)))" and
      env = env and a = a and b = b, OF _ refl]
    configuration_changes(8) [where view = view and x = x and u = "\<lambda>h. h\<lparr>hc_extensions := hc_extensions h @ [x]\<rparr>" and env = env and a = a and b = b, OF _ refl]
  by (simp_all add: hello_laws_def fold_ciphers fun_eq_iff set_alpn_fits)

lemma firefox_client_hello:
  assumes "hello_laws env view" and "firefox_client env mlkem a = (Ok (), b)"
  shows "view (ag_world b) = (view (ag_world a))
     \<lparr>hc_options := (hc_options (view (ag_world a)))
        (opt_as_int (ce_hdr env) Grease := 0, opt_as_int (ce_hdr env) SignedCertificateTimestamps := 1,
         opt_as_int (ce_hdr env) EnableChExtensionPermutation := 0, opt_as_int (ce_hdr env) DelegatedCredentials := 1,
         opt_as_int (ce_hdr env) EarlyData := 1),
      hc_schemes := [0x0403, 0x0503, 0x0603, 0x0804, 0x0805, 0x0806, 0x0401, 0x0501, 0x0601, 0x0203, 0x0201],
      hc_grease_ech := True, hc_compression := hc_compression (view (ag_world a)) @ [1, 2, 3],
      hc_key_shares := if mlkem then 1 else 0\<rparr>"
  using assms(2)
  by (auto simp: firefox_client_def rust_simps enable_0rtt_def opt_map_enabled_def Zlib_def Brotli_def Zstd_def
      intro!: hello_config.equality dest!: hello_effects [OF assms(1)])

lemma configure_quic_hello:
  assumes "hello_laws env view" and "configure_quic env version mlkem True protocols a = (Ok (), b)"
  shows "view (ag_world b) = (view (ag_world a))
     \<lparr>hc_versions := (TLS_VERSION_1_3 (ce_hdr env), TLS_VERSION_1_3 (ce_hdr env)),
      hc_ciphers := \<lambda>x. x \<in> {TLS_AES_128_GCM_SHA256 (ce_hdr env), TLS_AES_256_GCM_SHA384 (ce_hdr env),
        TLS_CHACHA20_POLY1305_SHA256 (ce_hdr env)} \<or>
        x \<notin> set (SSL_GetImplementedCiphers (ce_nss env)) \<and> hc_ciphers (view (ag_world a)) x,
      hc_groups := map ucast (quic_groups (ce_hdr env) mlkem), hc_options := (hc_options (view (ag_world a)))
        (opt_as_int (ce_hdr env) Grease := 0, opt_as_int (ce_hdr env) SignedCertificateTimestamps := 1,
         opt_as_int (ce_hdr env) EnableChExtensionPermutation := 0, opt_as_int (ce_hdr env) DelegatedCredentials := 1,
         opt_as_int (ce_hdr env) EarlyData := 1, opt_as_int (ce_hdr env) SuppressEndOfEarlyData := 1),
      hc_schemes := [0x0403, 0x0503, 0x0603, 0x0804, 0x0805, 0x0806, 0x0401, 0x0501, 0x0601, 0x0203, 0x0201],
      hc_grease_ech := True, hc_compression := hc_compression (view (ag_world a)) @ [1, 2, 3],
      hc_key_shares := if mlkem then 1 else 0,
      hc_protocols := concat (map alpn_item (rotate1 protocols)),
      hc_extensions := hc_extensions (view (ag_world a)) @ [tp_extension version]\<rparr> \<and> list_all alpn_fits protocols"
  using assms(2)
  by (auto simp: configure_quic_def rust_simps Let_def disable_end_of_early_data_def opt_map_enabled_def
      intro!: hello_config.equality dest!: hello_effects [OF assms(1)] firefox_client_hello [OF assms(1)])


text \<open>NSS as the configuration it holds, with a server that never answers.\<close>

abbreviation (input) quiet :: "hello_config nss_call" where
  "quiet \<equiv> \<lambda>h. (Ok (), h)"

definition hello_nss :: "(tls_record, nat list, hello_config) nss_env" where
  "hello_nss =
     \<lparr>env_debug = True, env_hdr = sample_opt_hdr, disable_random = False, int_error = NssError 2, nul_error = NssError 3,
      utf8_error = NssError 4, is_blocked = (\<lambda>r. r = Err (NssError 1)), is_initialized = (\<lambda>_. True),
      PR_CreateIOLayerStub = (\<lambda>h. (Some 1, h)), SSL_ImportFD = (\<lambda>fd h. (fd, h)), PR_Close = (\<lambda>_ h. ([], h)),
      SSL_AuthCertificateHook = (\<lambda>_. quiet), SSL_AlertSentCallback = (\<lambda>_. quiet), SSL_ResetHandshake = (\<lambda>_ _. quiet),
      SSL_VersionRangeSet = (\<lambda>_ lo hi h. (Ok (), h\<lparr>hc_versions := (lo, hi)\<rparr>)),
      SSL_GetImplementedCiphers = [4865, 4866, 4867],
      SSL_CipherPrefSet = (\<lambda>_ c b h. (Ok (), h\<lparr>hc_ciphers := (hc_ciphers h)(c := b)\<rparr>)),
      SSL_NamedGroupConfig = (\<lambda>_ gs h. (Ok (), h\<lparr>hc_groups := gs\<rparr>)),
      SSL_SignatureSchemePrefSet = (\<lambda>_ ss h. (Ok (), h\<lparr>hc_schemes := ss\<rparr>)),
      SSL_SendAdditionalKeyShares = (\<lambda>_ n h. (Ok (), h\<lparr>hc_key_shares := n\<rparr>)),
      SSL_OptionSet = (\<lambda>_ n v h. (Ok (), h\<lparr>hc_options := (hc_options h)(n := v)\<rparr>)),
      SSL_SetNextProtoNego = (\<lambda>_ e h. (Ok (), h\<lparr>hc_protocols := e\<rparr>)),
      SSL_SetCertificateCompressionAlgorithm =
        (\<lambda>_ alg h. (Ok (), h\<lparr>hc_compression := hc_compression h @ [alg_id alg]\<rparr>)),
      SECITEM_AllocItem = sample_alloc, SSL_GetNextProto = (\<lambda>_ _. Err (NssError 7)),
      SSL_GetPreliminaryChannelInfo = (\<lambda>_ _. Ok sample_preliminary), SSL_GetChannelInfo = (\<lambda>_ _. Err (NssError 7)),
      SSL_ExportKeyingMaterial = (\<lambda>_ _ _ _ out _. (Err (NssError 7), out)),
      SSL_AuthCertificateComplete = (\<lambda>_ e h. (Err (NssError e), [], h)),
      SSL_ForceHandshake = (\<lambda>_ h. (Err (NssError 1), [], h)), convert_ech_error = (\<lambda>_ e _. e),
      time_bind = (\<lambda>_. quiet), time_set = (\<lambda>_. quiet), io_wrap = (\<lambda>_ h. h), io_unwrap = id,
      io_take_output = (\<lambda>h. ([], h)), record_list_setup = (\<lambda>_. quiet), record_list = (\<lambda>_. []),
      record_write = (\<lambda>_ _ h. (Ok (), [], h)), secrets_register = (\<lambda>_. quiet), secrets_has = (\<lambda>_ _. False),
      secrets_take_read = (\<lambda>_ h. (None, h)), secrets_take_write = (\<lambda>_ h. (None, h)),
      extension_tracker_new = (\<lambda>_ x h. (Ok (), h\<lparr>hc_extensions := hc_extensions h @ [x]\<rparr>))\<rparr>"

definition hello_client_env :: "(tls_record, nat list, hello_config) client_env" where
  "hello_client_env =
     \<lparr>cl_nss = hello_nss, SSL_SetURL = (\<lambda>_ _. quiet), SSL_SetResumptionTokenCallback = (\<lambda>_. quiet),
      SSL_GetResumptionTokenInfo = (\<lambda>_ _. Err (NssError 7)), SSL_DestroyResumptionTokenInfo = (\<lambda>_. Ok ()),
      SSL_SetResumptionToken = (\<lambda>_ _. quiet), SSL_EnableTls13GreaseEch = (\<lambda>_ b h. (Ok (), h\<lparr>hc_grease_ech := b\<rparr>)),
      SSL_SetClientEchConfigs = (\<lambda>_ _. quiet), SSL_CallExtensionWriterOnEchInner = (\<lambda>_ _. quiet),
      time_try_from = (\<lambda>t. if t < 0 then None else Some (nat t))\<rparr>"

definition hello_server_env :: "(tls_record, nat list, hello_config) server_env" where
  "hello_server_env =
     \<lparr>sv_nss = hello_nss, PK11_FindCertFromNickname = (\<lambda>_ _. None), PK11_FindKeyByAnyCert = (\<lambda>_ _. None),
      SSL_ConfigServerCert = (\<lambda>_ _ _ _. quiet), sec_item_wrap = (\<lambda>_. Ok ()),
      SSL_HelloRetryRequestCallback = (\<lambda>_ _. quiet), SSL_SetMaxEarlyDataSize = (\<lambda>_ _. quiet),
      anti_replay_config_socket = (\<lambda>_. quiet), SSL_SendSessionTicket = (\<lambda>_ _ h. (Ok (), [], h)),
      ech_encode_config = (\<lambda>c n _. Ok (c # n)), SSL_SetServerEchConfigs = (\<lambda>_ _ _ _. quiet)\<rparr>"

definition hello_env ::
  "(nat list, nat list, nat list, u64 \<times> bytes \<times> (u64 \<times> usize) list, unit, usize, hello_config) crypto_env_all" where
  "hello_env =
     \<lparr>ce_keys = sample_env True, ce_streams = sample_stream_env, ce_client = hello_client_env, ce_server = hello_server_env,
      epoch_of_space = epoch_of_space sample_crypto_env, space_of_epoch = space_of_epoch sample_crypto_env,
      ce_zlib = Some, ce_brotli = Some, ce_zstd = Some, wire_version = (\<lambda>_. 1), encode_uint4 = (\<lambda>_. [0, 0, 0, 1]),
      encode_varint = (\<lambda>n. [ucast n]), encode_vvec = (\<lambda>v. of_nat (length v) # v)\<rparr>"

lemma hello_env_simps [simp]:
  "cl_nss hello_client_env = hello_nss" "ce_client hello_env = hello_client_env" "env_hdr hello_nss = sample_opt_hdr"
  by (simp_all add: hello_env_def hello_client_env_def hello_nss_def)

lemma sample_hello_laws: "hello_laws hello_env id"
  by (auto simp: hello_laws_def changes_def hello_nss_def hello_client_env_def)

text \<open>A client before it is configured: every suite, an old version, GREASE.\<close>

definition hello_client :: "hello_config client" where
  "hello_client =
     \<lparr>cl_agent = \<lparr>ag_fd = Some 1, ag_raw = None, ag_state = New, ag_auth_required = False, ag_alert = None,
        ag_extensions = [], ag_ech_config = [],
        ag_world = \<lparr>hc_versions = (0x301, 0x303), hc_ciphers = (\<lambda>c. c \<in> {4865, 4866, 4867}), hc_groups = [],
          hc_options = (\<lambda>_. 1), hc_schemes = [0x0201], hc_grease_ech = False, hc_compression = [], hc_key_shares = 3,
          hc_protocols = [], hc_extensions = []\<rparr>\<rparr>,
      cl_server_name = [97], cl_resumption = []\<rparr>"


end
