(* ===== verification/Nss_Init.thy ===== *)
theory Nss_Init
  imports Agent_Info
begin

text \<open>
  Initialisation of NSS, \<^verbatim>\<open>nss-rs/src/lib.rs\<close>: it runs once, with or without a database, and what it
  returned is kept in the cell \<^verbatim>\<open>INITIALIZED\<close>. NSS, the file system and the module \<^verbatim>\<open>time\<close> are parameters
  over a state \<open>'w\<close>; a path is the list of its bytes.
\<close>

section \<open>The code that is called\<close>

record 'w init_env =
  init_debug :: bool
  use_freebl :: bool
  MINIMUM_NSS_VERSION :: bytes
  init_nul_error :: nss_error
  init_opt_headers :: headers
  time_init :: "'w \<Rightarrow> 'w"
  NSS_VersionCheck :: "bytes \<Rightarrow> 'w \<Rightarrow> bool"
  freebl_init :: "'w nss_call"
  NSS_IsInitialized :: "'w \<Rightarrow> bool"
  is_dir :: "bytes \<Rightarrow> 'w \<Rightarrow> bool"
  NSS_Initialize :: "bytes \<Rightarrow> 'w nss_call"
  SSL_ConfigServerSessionIDCache :: "bytes \<Rightarrow> 'w nss_call"
  NSS_NoDB_Init :: "'w nss_call"
  NSS_SetDomesticPolicy :: "'w nss_call"
  SSL_OptionGetDefault :: "u32 \<Rightarrow> 'w nss_call"
  NSS_Shutdown :: "'w nss_call"

section \<open>Initialisation\<close>

datatype nss_loaded = External | NoDb | Db bytes

definition nss_loaded_drop :: "'w init_env \<Rightarrow> nss_loaded \<Rightarrow> 'w \<Rightarrow> (nss_error, unit) result \<times> 'w" where
  "nss_loaded_drop env l w =
     (if l = External then (Ok (), w)
      else (case NSS_Shutdown env w of (Ok _, w) \<Rightarrow> (Ok (), w) | (_, w) \<Rightarrow> (Panic, w)))"

definition version_check :: "'w init_env \<Rightarrow> 'w \<Rightarrow> (nss_error, unit) result" where
  "version_check env w =
     bind_res (cstring_new (init_nul_error env) (MINIMUM_NSS_VERSION env)) (\<lambda>min_ver.
       if NSS_VersionCheck env min_ver w then Ok () else Err UnsupportedVersion)"

definition enable_ssl_trace :: "'w init_env \<Rightarrow> 'w nss_call" where
  "enable_ssl_trace env = SSL_OptionGetDefault env (opt_as_int (init_opt_headers env) Locking)"

definition load_nss :: "'w init_env \<Rightarrow> bytes option \<Rightarrow> 'w \<Rightarrow> (nss_error, nss_loaded) result \<times> 'w" where
  "load_nss env db w =
     (case db of
        Some path \<Rightarrow>
          if \<not> is_dir env path w then (Err NssInternal, w)
          else if \<not> utf8_valid path then (Err NssInternal, w)
          else
            try_st (cstring_new (init_nul_error env) path) w (\<lambda>dircstr.
            bind_st (NSS_Initialize env dircstr w) (\<lambda>_ w.
            bind_st (SSL_ConfigServerSessionIDCache env dircstr w) (\<lambda>_ w. (Ok (Db path), w)) id) id)
      | None \<Rightarrow> bind_st (NSS_NoDB_Init env w) (\<lambda>_ w. (Ok NoDb, w)) id)"

definition init_once :: "'w init_env \<Rightarrow> bytes option \<Rightarrow> 'w \<Rightarrow> (nss_error, nss_loaded) result \<times> 'w" where
  "init_once env db w =
     (let w = time_init env w in
      try_st (version_check env w) w (\<lambda>_.
      bind_st (if use_freebl env then freebl_init env w else (Ok (), w)) (\<lambda>_ w.
        if NSS_IsInitialized env w then (Ok External, w)
        else
          bind_st (load_nss env db w) (\<lambda>state w.
          bind_st (NSS_SetDomesticPolicy env w) (\<lambda>_ w.
          bind_st (if init_debug env then enable_ssl_trace env w else (Ok (), w)) (\<lambda>_ w.
            (Ok state, w)) id) id) id) id))"

record 'w nss_process =
  INITIALIZED :: "(nss_error, nss_loaded) result option"
  np_world :: 'w

definition get_or_init ::
  "('w \<Rightarrow> (nss_error, nss_loaded) result \<times> 'w) \<Rightarrow> 'w nss_process \<Rightarrow> (nss_error, nss_loaded) result \<times> 'w nss_process" where
  "get_or_init f p =
     (case INITIALIZED p of
        Some r \<Rightarrow> (r, p)
      | None \<Rightarrow>
          (case f (np_world p) of
             (Panic, w) \<Rightarrow> (Panic, p\<lparr>np_world := w\<rparr>)
           | (r, w) \<Rightarrow> (r, p\<lparr>INITIALIZED := Some r, np_world := w\<rparr>)))"

definition drop_value :: "('e, 'a) result \<Rightarrow> ('e, unit) result" where
  "drop_value r = bind_res r (\<lambda>_. Ok ())"

definition init :: "'w init_env \<Rightarrow> 'w nss_process \<Rightarrow> (nss_error, unit) result \<times> 'w nss_process" where
  "init env p = (let (r, p) = get_or_init (init_once env None) p in (drop_value r, p))"

definition init_db :: "'w init_env \<Rightarrow> bytes \<Rightarrow> 'w nss_process \<Rightarrow> (nss_error, unit) result \<times> 'w nss_process" where
  "init_db env dir p = (let (r, p) = get_or_init (init_once env (Some dir)) p in (drop_value r, p))"

definition assert_initialized :: "'w nss_process \<Rightarrow> (nss_error, unit) result" where
  "assert_initialized p = assert_that (INITIALIZED p \<noteq> None)"

section \<open>Properties\<close>

lemma get_or_init_stored:
  "get_or_init f p = (r, q) \<Longrightarrow> INITIALIZED p \<noteq> Some Panic \<Longrightarrow> r \<noteq> Panic \<Longrightarrow> INITIALIZED q = Some r"
  by (auto simp: get_or_init_def split: option.splits result.splits prod.splits)

text \<open>
  Once initialisation has returned, with or without a database, successfully or not, every further
  call of either function returns the same result and does nothing else; it has been recorded that
  NSS was initialised, even if that failed.
\<close>

lemma initialised_once:
  assumes "init env p = (r, q) \<or> init_db env dir p = (r, q)" and "INITIALIZED p = None" and "r \<noteq> Panic"
  shows "init env q = (r, q) \<and> init_db env dir' q = (r, q) \<and> assert_initialized q = Ok ()"
proof -
  obtain f v where v: "get_or_init f p = (v, q)" "r = drop_value v"
    using assms(1) by (auto simp: init_def init_db_def split: prod.splits)
  have "v \<noteq> Panic" using v(2) assms(3) by (auto simp: drop_value_def)
  then have "INITIALIZED q = Some v" using get_or_init_stored [OF v(1)] assms(2) by simp
  then show ?thesis
    by (simp add: init_def init_db_def get_or_init_def v(2) assert_initialized_def assert_that_def)
qed

definition sample_init_env :: "nat init_env" where
  "sample_init_env =
     \<lparr>init_debug = True, use_freebl = False, MINIMUM_NSS_VERSION = [51], init_nul_error = NssError 3,
      init_opt_headers = (\<lambda>_. 1), time_init = Suc, NSS_VersionCheck = (\<lambda>_ _. True), freebl_init = (\<lambda>w. (Ok (), w)),
      NSS_IsInitialized = (\<lambda>_. False), is_dir = (\<lambda>_ _. False), NSS_Initialize = (\<lambda>_ w. (Ok (), w)),
      SSL_ConfigServerSessionIDCache = (\<lambda>_ w. (Ok (), w)), NSS_NoDB_Init = (\<lambda>w. (Ok (), w)),
      NSS_SetDomesticPolicy = (\<lambda>w. (Ok (), w)), SSL_OptionGetDefault = (\<lambda>_ w. (Ok (), w)),
      NSS_Shutdown = (\<lambda>w. (Ok (), w))\<rparr>"

lemma initialised_once_example:
  "\<exists>q. init_db sample_init_env [47] \<lparr>INITIALIZED = None, np_world = 0\<rparr> = (Err NssInternal, q) \<and>
     init sample_init_env q = (Err NssInternal, q)"
proof -
  obtain q where q: "init_db sample_init_env [47] \<lparr>INITIALIZED = None, np_world = 0\<rparr> = (Err NssInternal, q)"
    by (simp add: init_db_def get_or_init_def init_once_def load_nss_def version_check_def cstring_new_def
        drop_value_def sample_init_env_def)
  then show ?thesis
    using initialised_once [of sample_init_env "\<lparr>INITIALIZED = None, np_world = 0\<rparr>" "Err NssInternal" q "[47]"] by auto
qed

text \<open>NSS that something else initialised is not shut down.\<close>

lemma external_not_shut_down:
  "NSS_IsInitialized env w \<Longrightarrow> time_init env w = w \<Longrightarrow> version_check env w = Ok () \<Longrightarrow> \<not> use_freebl env \<Longrightarrow>
   init_once env db w = (Ok External, w) \<and> nss_loaded_drop env External w = (Ok (), w)"
  by (simp add: init_once_def nss_loaded_drop_def)

end
