(* ===== verification/Fixtures.thy ===== *)
theory Fixtures
  imports Tls_Server Keys_Invariant
begin

text \<open>
  What the other theories leave aside: the keys that the tests of \<^verbatim>\<open>neqo-transport\<close> use, and the texts that
  \<^verbatim>\<open>Display\<close> and \<^verbatim>\<open>Debug\<close> give for keys, agents and tokens. \<open>v\<close> is \<^verbatim>\<open>Version::default()\<close>, of the module
  \<^verbatim>\<open>version\<close>; \<open>show_instant\<close> is how the standard library shows a time.
\<close>

section \<open>Keys for tests\<close>

text \<open>\<^verbatim>\<open>expect\<close> and \<^verbatim>\<open>unwrap\<close> panic on an error.\<close>

fun expect :: "('e, 'x) result \<Rightarrow> ('f, 'x) result" where
  "expect (Ok x) = Ok x"
| "expect (Err e) = Panic"
| "expect Panic = Panic"

definition test_default_with_direction ::
  "('k, 'a, 'h) crypto_env \<Rightarrow> version \<Rightarrow> direction \<Rightarrow> (transport_error, ('a, 'h) dx) result" where
  "test_default_with_direction env v direction =
     expect (dx_new_initial env v direction ''server in'' [0x83, 0x94, 0xc8, 0xf0, 0x3e, 0x51, 0x57, 0x08] 0)"

definition test_default_write :: "('k, 'a, 'h) crypto_env \<Rightarrow> version \<Rightarrow> (transport_error, ('a, 'h) dx) result" where
  "test_default_write env v = test_default_with_direction env v Write"

definition test_default_read :: "('k, 'a, 'h) crypto_env \<Rightarrow> version \<Rightarrow> (transport_error, ('a, 'h) dx) result" where
  "test_default_read env v = test_default_with_direction env v Read"

definition states_test_default ::
  "('k, 'a, 'h) crypto_env \<Rightarrow> version \<Rightarrow> (transport_error, ('k, 'a, 'h) crypto_states) result" where
  "states_test_default env v =
     (let cipher = TLS_AES_128_GCM_SHA256 (nss_hdr env);
          read = (\<lambda>epoch. bind_res (test_default_read env v) (\<lambda>dx. Ok (dx\<lparr>dx_epoch := epoch\<rparr>)));
          app = (\<lambda>epoch. bind_res (read epoch) (\<lambda>dx.
            bind_res (expect (hkdf_import_key env (TLS_VERSION_1_3 (nss_hdr env)) (replicate 32 0xaa))) (\<lambda>secret.
              Ok \<lparr>app_dx = dx, app_cipher = cipher, app_next_secret = secret\<rparr>))) in
      bind_res (test_default_write env v) (\<lambda>itx.
      bind_res (read 0) (\<lambda>irx.
      bind_res (app 3) (\<lambda>aw.
      bind_res (app 3) (\<lambda>ar.
      bind_res (app 4) (\<lambda>an.
        Ok \<lparr>initials = (\<lambda>w. if w = Version1 then Some \<lparr>cs_tx = itx, cs_rx = irx\<rparr> else None),
            handshake_keys = None, zero_rtt = None, states_cipher = cipher,
            app_write = Some aw, app_read = Some ar, app_read_next = Some an, read_update_time = None\<rparr>))))))"

definition CHACHA_SECRET :: bytes where
  "CHACHA_SECRET =
     [0x9a, 0xc3, 0x12, 0xa7, 0xf8, 0x77, 0x46, 0x8e, 0xbe, 0x69, 0x42, 0x27, 0x48, 0xad,
      0x00, 0xa1, 0x54, 0x43, 0xf1, 0x82, 0x03, 0xa0, 0x7d, 0x60, 0x60, 0xf6, 0x88, 0xf3,
      0x0f, 0x21, 0x63, 0x2b]"

definition states_test_chacha ::
  "('k, 'a, 'h) crypto_env \<Rightarrow> (transport_error, ('k, 'a, 'h) crypto_states) result" where
  "states_test_chacha env =
     (let v13 = TLS_VERSION_1_3 (nss_hdr env); cipher = TLS_CHACHA20_POLY1305_SHA256 (nss_hdr env) in
      bind_res (expect (hkdf_import_key env v13 CHACHA_SECRET)) (\<lambda>secret.
        (let app = (\<lambda>epoch.
           bind_res (expect (aead_new env v13 cipher secret ''quic '' Decrypt)) (\<lambda>aead.
           bind_res (expect (hp_extract env v13 cipher secret ''quic hp'')) (\<lambda>hpkey.
             Ok \<lparr>app_dx = \<lparr>dx_version = Version1, dx_direction = Read, dx_epoch = epoch, dx_aead = aead,
                   dx_hpkey = hpkey, used_pn = mk_range 0 645971972, min_pn = 0, invocations = 10,
                   largest_packet_len = INITIAL_LARGEST_PACKET_LEN\<rparr>,
                 app_cipher = cipher, app_next_secret = secret\<rparr>))) in
         bind_res (app 3) (\<lambda>aw.
         bind_res (app 3) (\<lambda>ar.
         bind_res (app 4) (\<lambda>an.
           Ok \<lparr>initials = (\<lambda>_. None), handshake_keys = None, zero_rtt = None, states_cipher = cipher,
               app_write = Some aw, app_read = Some ar, app_read_next = Some an, read_update_time = None\<rparr>))))))"

lemma expect_Ok [rust_simps]: "expect r = Ok x \<longleftrightarrow> r = Ok x"
  by (cases r) auto

lemma test_default_fields:
  assumes "test_default_with_direction env v direction = Ok dx"
  shows "dx_epoch dx = 0 \<and> dx_direction dx = direction \<and> dx_version dx = v"
  using assms by (auto simp: test_default_with_direction_def dx_new_initial_def dx_new_def rust_simps Let_def)

text \<open>
  The keys for tests select a read key for either key phase, like a reachable state, but they are not a
  state a connection reaches: the write keys are read keys, which the tests never use for sending.
\<close>

lemma test_default_selects:
  assumes "states_test_default env v = Ok st"
  shows "rx st Version1 ApplicationData phase = Some (if phase then AppReadNext else AppRead)"
    and "rx st Version1 Initial phase = Some (InitialRx Version1)" and "rx st w Handshake phase = None"
    and "\<not> states_inv st"
proof -
  obtain itx ix ar an k where read: "test_default_with_direction env v Read = Ok ix"
    and st: "initials st Version1 = Some \<lparr>cs_tx = itx, cs_rx = ix\<lparr>dx_epoch := 0\<rparr>\<rparr>" "handshake_keys st = None"
      "app_write st = Some \<lparr>app_dx = ix\<lparr>dx_epoch := 3\<rparr>, app_cipher = TLS_AES_128_GCM_SHA256 (nss_hdr env), app_next_secret = k\<rparr>"
      "app_read st = Some ar" "app_read_next st = Some an"
      "app_dx ar = ix\<lparr>dx_epoch := 3\<rparr>" "app_dx an = ix\<lparr>dx_epoch := 4\<rparr>"
    using assms by (auto simp: states_test_default_def test_default_read_def rust_simps Let_def)
  show "rx st Version1 ApplicationData phase = Some (if phase then AppReadNext else AppRead)"
    by (auto simp: filter_mut_def filter_option_def st dx_key_phase_def)
  show "rx st Version1 Initial phase = Some (InitialRx Version1)" "rx st w Handshake phase = None"
    by (simp_all add: as_mut_def st)
  have "deref AppWrite st = Some (ix\<lparr>dx_epoch := 3\<rparr>)" and "\<not> key_ok AppWrite (ix\<lparr>dx_epoch := 3\<rparr>)"
    using test_default_fields [OF read] st(3) by (simp_all add: key_ok_def)
  then show "\<not> states_inv st"
    unfolding states_inv_def keys_inv_def by blast
qed

section \<open>Texts\<close>

fun direction_debug :: "direction \<Rightarrow> string" where
  "direction_debug Read = ''Read''"
| "direction_debug Write = ''Write''"

definition dx_display :: "('a, 'h) dx \<Rightarrow> string" where
  "dx_display dx = ''epoch '' @ decimal (unat (dx_epoch dx)) @ '' '' @ direction_debug (dx_direction dx)"

text \<open>\<^verbatim>\<open>{:p}\<close> shows an address in hexadecimal.\<close>

fun lower_hex :: "nat \<Rightarrow> string" where
  "lower_hex n = (if n < 16 then [hex_digit n] else lower_hex (n div 16) @ [hex_digit (n mod 16)])"

declare lower_hex.simps [simp del]

definition pointer_text :: "ptr \<Rightarrow> string" where
  "pointer_text p = ''0x'' @ lower_hex (case p of None \<Rightarrow> 0 | Some n \<Rightarrow> n)"

definition agent_display :: "'w agent \<Rightarrow> string" where
  "agent_display a = ''Agent '' @ pointer_text (ag_fd a)"

definition client_display :: "'w client \<Rightarrow> string" where
  "client_display c = ''Client '' @ pointer_text (ag_fd (cl_agent c))"

definition server_display :: "'w server \<Rightarrow> string" where
  "server_display s = ''Server '' @ pointer_text (ag_fd (sv_agent s))"

definition resumption_token_debug :: "(bytes \<Rightarrow> string) \<Rightarrow> (instant \<Rightarrow> string) \<Rightarrow> resumption_token \<Rightarrow> string" where
  "resumption_token_debug hex_with_len show_instant t =
     ''ResumptionToken { token: '' @ [CHR 0x22] @ hex_snip_middle hex_with_len (rt_token t) @ [CHR 0x22] @
     '', expiration_time: '' @ show_instant (rt_expiration_time t) @ '' }''"

text \<open>The unit test \<^verbatim>\<open>crypto_dx_state_display\<close>.\<close>

lemma test_default_write_display: "test_default_write env v = Ok dx \<Longrightarrow> dx_display dx = ''epoch 0 Write''"
  by (simp add: test_default_write_def dx_display_def test_default_fields decimal.simps [of 0] char_of_def bit_0)

text \<open>The text of a key tells its epoch and its direction.\<close>

definition decimal_value :: "string \<Rightarrow> nat" where
  "decimal_value s = foldl (\<lambda>n c. 10 * n + (of_char c - 48)) 0 s"

lemma decimal_digits: "CHR '' '' \<notin> set (decimal n) \<and> decimal_value (decimal n) = n"
proof (induction n rule: decimal.induct)
  case (1 n)
  have digit: "char_of (48 + k) \<noteq> CHR '' '' \<and> of_char (char_of (48 + k)) = 48 + k" if "k < 10" for k :: nat
  proof -
    have "of_char (char_of (48 + k) :: char) = 48 + k" using that by simp
    then show ?thesis by (auto dest: arg_cong [of _ _ "of_char :: char \<Rightarrow> nat"])
  qed
  show ?case
  proof (cases "n < 10")
    case True
    then show ?thesis using digit [of n] by (simp add: decimal.simps [of n] decimal_value_def)
  next
    case False
    with 1 digit [of "n mod 10"] show ?thesis by (simp add: decimal.simps [of n] decimal_value_def)
  qed
qed

lemma dx_display_tells:
  assumes "dx_display dx = dx_display dx'"
  shows "dx_epoch dx = dx_epoch dx' \<and> dx_direction dx = dx_direction dx'"
proof -
  let ?w = "takeWhile (\<lambda>c. c \<noteq> CHR '' '')"
  let ?t = "\<lambda>d. decimal (unat (dx_epoch d)) @ '' '' @ direction_debug (dx_direction d)"
  have e: "?t dx = ?t dx'" using assms by (simp add: dx_display_def)
  have "?w (decimal n @ '' '' @ rest) = decimal n" for n rest
    using decimal_digits [of n] by (subst takeWhile_append2) auto
  with arg_cong [OF e, of ?w] have "decimal (unat (dx_epoch dx)) = decimal (unat (dx_epoch dx'))" by simp
  then have n: "unat (dx_epoch dx) = unat (dx_epoch dx')" using decimal_digits by metis
  with e have "direction_debug (dx_direction dx) = direction_debug (dx_direction dx')" by simp
  then have "dx_direction dx = dx_direction dx'" by (cases "dx_direction dx"; cases "dx_direction dx'") simp_all
  with n show ?thesis by (simp add: word_unat_eq_iff)
qed

text \<open>The unit test \<^verbatim>\<open>resumption_token_debug_impl\<close>: a token of 848 bytes is shown by its ends.\<close>

lemma long_token_debug:
  assumes "length token = 848" and "take 8 token = [2, 0, 6, 60, 37, 21, 238, 165]"
    and "drop 840 token = [184, 51, 9, 38, 114, 144, 66, 153]"
  shows "resumption_token_debug h show_instant \<lparr>rt_token = token, rt_expiration_time = t\<rparr> =
     ''ResumptionToken { token: '' @ [CHR 0x22] @ ''[848]: 0200063c2515eea5..b833092672904299'' @ [CHR 0x22] @
     '', expiration_time: '' @ show_instant t @ '' }''"
  using assms
  by (simp add: resumption_token_debug_def hex_snip_middle_def decimal.simps hex_byte_def hex_digit_def char_of_def bit_0)

end
