(* ===== verification/Spec2Isabelle.thy ===== *)
theory Spec2Isabelle
  imports Peers Session Descriptors Stream_Builds Client_Hello Nss_Init Fixtures
begin

text \<open>
  A verification library for the cryptographic core of never_fox: the QUIC connection cryptography of
  \<^verbatim>\<open>src/native/h3/files/neqo/neqo-transport/src/crypto.rs\<close> and the TLS layer over NSS below it in
  \<^verbatim>\<open>src/native/h3/files/nss-rs/src\<close> (\<^verbatim>\<open>agent.rs\<close>, \<^verbatim>\<open>cert_compress.rs\<close>, \<^verbatim>\<open>lib.rs\<close>, \<^verbatim>\<open>ssl.rs\<close>, \<^verbatim>\<open>constants.rs\<close>).

  \<^bold>\<open>The program.\<close> A connection has one \<^verbatim>\<open>Crypto\<close>. It drives a TLS agent (a client or a server around
  \<^verbatim>\<open>SecretAgent\<close>, which wraps an NSS socket) with the bytes received in CRYPTO frames, queues what TLS
  produces in one stream per packet number space (\<^verbatim>\<open>CryptoStreams\<close>), from which CRYPTO frames are
  written, and installs the secrets TLS exports as packet protection keys (\<^verbatim>\<open>CryptoStates\<close>, made of
  \<^verbatim>\<open>CryptoDxState\<close> for one direction and epoch and \<^verbatim>\<open>CryptoDxAppData\<close> for keys that can be updated). The
  changes made for never_fox configure the agent so that its ClientHello is that of Firefox.

  \<^bold>\<open>How it is modelled.\<close> \<open>Prelude\<close> has the results of Rust functions: \<open>Ok\<close>, \<open>Err\<close> or \<open>Panic\<close>. A method
  on a mutable receiver returns its result together with the receiver it leaves, also on an early
  return. Integers are words of their width; a debug build panics on overflow and on a failed
  \<^verbatim>\<open>debug_assert!\<close>, a release build wraps around, and a flag of the environment selects the build. Code
  outside these files (NSS, AEAD and HKDF, the send and receive buffers, the packet builder, the
  search for a server name, \<^verbatim>\<open>agentio\<close>, \<^verbatim>\<open>secrets\<close>, \<^verbatim>\<open>ech\<close>, \<^verbatim>\<open>err\<close>, the decompression libraries) is a
  parameter: a field of \<open>crypto_env\<close>, \<open>stream_env\<close>, \<open>nss_env\<close>, \<open>client_env\<close>, \<open>server_env\<close>, \<open>init_env\<close> or
  \<open>crypto_env_all\<close>, over abstract types for the states of that code. What a theorem needs of it is a
  named hypothesis, and each has a concrete instance that satisfies it. When NSS calls
  back during a call, the call returns the list of callbacks and the model runs them.

  \<^bold>\<open>The theories.\<close>
  \<^item> \<open>Prelude\<close>: results, arithmetic of both builds, ranges and slices; the locales \<open>store\<close> (references),
    \<open>machine\<close> (invariants) and \<open>refines\<close> (simulation).
  \<^item> \<open>Constants\<close>: errors, \<^verbatim>\<open>Epoch\<close>, the constants remapped from NSS headers, socket options.
  \<^item> \<open>Crypto_Dx\<close>: \<^verbatim>\<open>CryptoDxState\<close>. Packet number windows, the invocation budget of a key and what it
    bounds, the round trip of protection, agreement of debug and release builds.
  \<^item> \<open>Crypto_States\<close>: \<^verbatim>\<open>CryptoDxAppData\<close> and \<^verbatim>\<open>CryptoStates\<close>: all operations, references to keys as
    \<open>place\<close>s, agreement of builds, Initial keys.
  \<^item> \<open>Keys_Invariant\<close>: the key machine \<open>states_step\<close> and its invariant on directions and epochs.
  \<^item> \<open>Key_Update\<close>: the ladder of keys, climbed through the locale \<open>ratchet\<close>, completion of a key update,
    and the order of packet numbers under old and new keys.
  \<^item> \<open>Peers\<close>: two endpoints with the same secrets. Each opens the Initial, 0-RTT, Handshake and application
    packets of the other, the last through any history of key updates on both sides.
  \<^item> \<open>Crypto_Streams\<close>: \<^verbatim>\<open>CryptoStreams\<close> with all its operations, and the sizes of frames and chunks.
  \<^item> \<open>Frames\<close>, \<open>Write_Frame\<close>: what one pass of \<^verbatim>\<open>write_frame\<close> writes, with or without slicing at the server
    name, as a list of frames; its loop, which ends and accounts for every byte.
  \<^item> \<open>Stream_Delivery\<close>: frames from the streams of one endpoint to those of another, that may be lost,
    repeated and reordered. What is read is a beginning of what was sent, and all of it once every byte
    arrived; writing packets sends everything.
  \<^item> \<open>Stream_Builds\<close>: agreement of debug and release builds for the streams, the loop of \<^verbatim>\<open>write_frame\<close> included.
  \<^item> \<open>Cert_Compress\<close>: the decompressors and the callbacks through which NSS uses them, with the locale
    \<open>certificate_decoder\<close> for their contract.
  \<^item> \<open>Agent_Info\<close>, \<open>Agent\<close>: what an agent reports, and \<^verbatim>\<open>SecretAgent\<close> with all its operations.
  \<^item> \<open>Agent_Machine\<close>, \<open>Agent_Handshake\<close>, \<open>Agent_Config\<close>: the handshake as a state machine that refines
    the specification \<open>spec_step\<close>; outcomes of driving it; protocols and cipher suites.
  \<^item> \<open>Tls_Client\<close>, \<open>Tls_Server\<close>: \<^verbatim>\<open>Client\<close>, \<^verbatim>\<open>Server\<close> and \<^verbatim>\<open>Agent\<close>; resumption tokens, ECH, 0-RTT checks.
  \<^item> \<open>Nss_Init\<close>: initialisation of NSS.
  \<^item> \<open>Crypto\<close>, \<open>Connection\<close>: \<^verbatim>\<open>Crypto\<close>, which composes the parts: its keys refine the key machine, what
    TLS produces is queued.
  \<^item> \<open>Client_Hello\<close>: how each call that configures an agent changes what NSS will offer, and from this the
    offer of a client after \<^verbatim>\<open>Crypto::new\<close>: that of Firefox, in its order.
  \<^item> \<open>Descriptors\<close>: which descriptors are open after each constructor, on success and on every error, under
    the documented behaviour of the calls that open and close them.
  \<^item> \<open>Session\<close>: two connections as one machine. Each drives its agent, writes and receives CRYPTO frames and
    feeds what it reads to its agent; what is fed to one agent is what the other produced.
  \<^item> \<open>Fixtures\<close>: the keys for tests, and the texts that show keys, agents and tokens.

  \<^bold>\<open>Loops.\<close> The loop of \<^verbatim>\<open>write_frame\<close> is a \<open>partial_function (option)\<close>: it could run forever if a buffer
  kept offering data that is never marked as sent. \<open>Write_Frame\<close> shows that it returns, because every pass that goes on shrinks the room in the packet by at least 3 bytes. All other loops
  are structural recursions or have a measure; there is no fuel.

  \<^bold>\<open>Bounds.\<close> Hypotheses such as lengths below \<open>2 ^ 62\<close> or \<open>2 ^ 32\<close> are limits of the protocol (a variable
  length integer) or of a C length that the code converts to.

  \<^bold>\<open>Not modelled.\<close> Log calls and derived \<^verbatim>\<open>Debug\<close> texts, which no state depends on; methods that only
  return a field; drop order and memory, except where a registered pointer outlives what it points to
  (\<open>Tls_Server\<close>) and for descriptors (\<open>Descriptors\<close>); threads, since a connection is used by one; the unit
  tests; the bindings to NSS, which the build generates; and the parts of the repository in other
  languages: the Python client (\<^verbatim>\<open>src/never_fox\<close>), the C wrapper (\<^verbatim>\<open>src/native/fxtls_lib.c\<close>), the build
  scripts and the capture harness. What is left of the six modelled files are imports, comments,
  declarations of foreign functions and these parts.
\<close>

end
